(* ===== verification/Play_Prelude.thy ===== *)
theory Play_Prelude
  imports Main "HOL-Library.Word"
begin

text \<open>
  Shared vocabulary of the development: bytes and buffers, the faults a C++ function of
  the repository can end in, the check macro of \<^verbatim>\<open>play/base/macros.hpp\<close>, and
  the generic lemmas on lists, results and words the component theories use.

  Conventions. A \<^verbatim>\<open>size_t\<close> that counts bytes or elements held in memory is a
  \<^typ>\<open>nat\<close>; an integer whose width matters is a word. A buffer
  (\<^verbatim>\<open>asio::const_buffer\<close>, the readable part of an \<^verbatim>\<open>asio::streambuf\<close>)
  is the list of its bytes: prepare, write and commit append to it, consume drops from
  its front. A pointer to an object that the code stores or compares is the address of
  the object, a \<^typ>\<open>nat\<close> with 0 for \<^verbatim>\<open>nullptr\<close>. Log output is not
  part of the model.
\<close>

unbundle bit_operations_syntax

named_theorems res_simps \<open>rewrite rules for results and checks\<close>
named_theorems frame_simps \<open>fields an operation leaves alone\<close>

section \<open>Faults and results\<close>

type_synonym byte = "8 word"
type_synonym bytes = "byte list"

datatype exn = Cipher_exception | Handshake_exception | Play_error | Json_exception | Std_exception

text \<open>
  \<open>Check_failed\<close> is the abort of a failed \<^verbatim>\<open>assert\<close>; \<open>Thrown\<close> is a
  C++ exception; \<open>Undefined\<close> is behaviour the C++ standard leaves undefined (a null
  dereference, a read past the end).
\<close>

datatype fault = Check_failed | Thrown exn | Undefined

type_synonym 'a res = "fault + 'a"

definition bind_res :: "'a res \<Rightarrow> ('a \<Rightarrow> 'b res) \<Rightarrow> 'b res" where
  "bind_res m k = (case m of Inl e \<Rightarrow> Inl e | Inr x \<Rightarrow> k x)"

text \<open>
  \<^verbatim>\<open>PLAY_CHECK(cond)\<close> warns and then asserts. \<open>ndebug\<close> tells whether the
  program is built with \<^verbatim>\<open>NDEBUG\<close>, where the assertion is compiled away and
  the code goes on. Every operation that contains a check takes \<open>ndebug\<close>.
\<close>

definition play_check :: "bool \<Rightarrow> bool \<Rightarrow> 'a res \<Rightarrow> 'a res" where
  "play_check ndebug cond k = (if cond \<or> ndebug then k else Inl Check_failed)"

text \<open>\<^verbatim>\<open>PLAY_RETURN_IF(cond)\<close>: leave the function with the state as it is.\<close>

definition play_return_if :: "bool \<Rightarrow> 'a \<Rightarrow> 'a \<Rightarrow> 'a" where
  "play_return_if cond s k = (if cond then s else k)"

text \<open>Run an operation over a list of inputs, stopping at the first fault.\<close>

fun fold_res :: "('s \<Rightarrow> 'a \<Rightarrow> 's res) \<Rightarrow> 's \<Rightarrow> 'a list \<Rightarrow> 's res" where
  "fold_res f s [] = Inr s"
| "fold_res f s (x # xs) = bind_res (f s x) (\<lambda>s'. fold_res f s' xs)"

section \<open>Decimal digits\<close>

definition is_digit :: "char \<Rightarrow> bool" where
  "is_digit c \<longleftrightarrow> 48 \<le> (of_char c :: nat) \<and> (of_char c :: nat) \<le> 57"

definition digit_value :: "char \<Rightarrow> int" where
  "digit_value c = int (of_char c) - 48"

definition digits_value :: "string \<Rightarrow> int" where
  "digits_value ds = foldl (\<lambda>v c. 10 * v + digit_value c) 0 ds"

section \<open>Lemmas on results\<close>

lemma bind_res_Inl [simp, res_simps]: "bind_res (Inl e) k = Inl e"
  by (simp add: bind_res_def)

lemma bind_res_Inr [simp, res_simps]: "bind_res (Inr x) k = k x"
  by (simp add: bind_res_def)

lemma bind_res_eq_Inr [res_simps]:
  "bind_res m k = Inr y \<longleftrightarrow> (\<exists>x. m = Inr x \<and> k x = Inr y)"
  by (cases m) auto

lemma bind_res_assoc: "bind_res (bind_res m f) g = bind_res m (\<lambda>x. bind_res (f x) g)"
  by (cases m) auto

lemma play_check_True [simp, res_simps]: "play_check nd True k = k"
  by (simp add: play_check_def)

lemma play_check_ndebug [simp, res_simps]: "play_check True c k = k"
  by (simp add: play_check_def)

lemma play_check_False [simp, res_simps]: "play_check False False k = Inl Check_failed"
  by (simp add: play_check_def)

lemma play_check_eq_Inr [res_simps]:
  "play_check nd c k = Inr y \<longleftrightarrow> (c \<or> nd) \<and> k = Inr y"
  by (simp add: play_check_def)

lemma fold_res_append:
  "fold_res f s (xs @ ys) = bind_res (fold_res f s xs) (\<lambda>s'. fold_res f s' ys)"
  by (induction xs arbitrary: s) (simp_all add: bind_res_assoc)

lemma fold_res_invariant:
  assumes "fold_res f s xs = Inr s'" and "P s"
    and "\<And>s x s'. P s \<Longrightarrow> x \<in> set xs \<Longrightarrow> f s x = Inr s' \<Longrightarrow> P s'"
  shows "P s'"
  using assms
proof (induction xs arbitrary: s)
  case Nil
  then show ?case by simp
next
  case (Cons x xs)
  from Cons.prems(1) obtain s1 where s1: "f s x = Inr s1" "fold_res f s1 xs = Inr s'"
    by (auto simp: bind_res_eq_Inr)
  then have "P s1" using Cons.prems by (meson list.set_intros(1))
  then show ?case using Cons.IH s1(2) Cons.prems(3) by (meson list.set_intros(2))
qed

section \<open>Lemmas on lists\<close>

lemma nth_append_left [simp]: "i < length xs \<Longrightarrow> (xs @ ys) ! i = xs ! i"
  by (simp add: nth_append)

lemma drop_length_append [simp]: "drop (length xs) (xs @ ys) = ys"
  by simp

lemma take_drop_append: "n + m \<le> length xs \<Longrightarrow> take m (drop n (xs @ ys)) = take m (drop n xs)"
  by simp

lemma length_drop_less: "0 < n \<Longrightarrow> 0 < length xs \<Longrightarrow> length (drop n xs) < length xs"
  by simp

end
