(* ===== verification/Serializer.thy ===== *)
theory Serializer
  imports Play_Prelude
begin

text \<open>
  \<^verbatim>\<open>play/net/util/serializer.hpp\<close>: little-endian encoding of unsigned integers and
  of booleans. \<^verbatim>\<open>sizeof(Value)\<close> is the width of the word type in bytes. The C++
  writes through a pointer; the model returns the bytes written. A read past the end of
  the buffer is undefined behaviour.
\<close>

section \<open>Definitions\<close>

definition sizeof_word :: "'a::len word itself \<Rightarrow> nat" where
  "sizeof_word _ = LENGTH('a) div 8"

text \<open>The loop \<^verbatim>\<open>buf[i] = sv & 0xFF; sv >>= 8\<close> run \<open>n\<close> times.\<close>

fun serialize_loop :: "nat \<Rightarrow> 'a::len word \<Rightarrow> bytes" where
  "serialize_loop 0 sv = []"
| "serialize_loop (Suc n) sv = ucast (sv AND 0xFF) # serialize_loop n (drop_bit 8 sv)"

definition serialize :: "bool \<Rightarrow> nat \<Rightarrow> 'a::len word \<Rightarrow> bytes res" where
  "serialize nd len v = play_check nd (len \<ge> sizeof_word TYPE('a word))
     (Inr (serialize_loop (sizeof_word TYPE('a word)) v))"

definition serialize_bool :: "nat \<Rightarrow> bool \<Rightarrow> bytes" where
  "serialize_bool len v = [if v then 1 else 0]"

text \<open>The loop \<^verbatim>\<open>v |= ((bv & 0xFF) << i * 8)\<close> for \<open>i\<close> up to \<open>i + n\<close>.\<close>

fun deserialize_loop :: "nat \<Rightarrow> nat \<Rightarrow> bytes \<Rightarrow> 'a::len word \<Rightarrow> 'a word" where
  "deserialize_loop i 0 buf v = v"
| "deserialize_loop i (Suc n) buf v =
     deserialize_loop (Suc i) n buf (v OR push_bit (i * 8) (ucast (buf ! i) AND 0xFF))"

definition deserialize :: "bool \<Rightarrow> nat \<Rightarrow> bytes \<Rightarrow> 'a::len word res" where
  "deserialize nd len buf = play_check nd (len \<ge> sizeof_word TYPE('a word))
     (if sizeof_word TYPE('a word) \<le> length buf
      then Inr (deserialize_loop 0 (sizeof_word TYPE('a word)) buf 0) else Inl Undefined)"

definition deserialize_bool :: "bool \<Rightarrow> nat \<Rightarrow> bytes \<Rightarrow> bool res" where
  "deserialize_bool nd len buf = play_check nd (len > 0)
     (case buf of [] \<Rightarrow> Inl Undefined | tv # _ \<Rightarrow> Inr (tv \<noteq> 0))"

section \<open>Evaluation with a numeral number of rounds\<close>

lemma serialize_loop_numeral [simp]:
  "serialize_loop (numeral k) sv = ucast (sv AND 0xFF) # serialize_loop (pred_numeral k) (drop_bit 8 sv)"
  by (simp add: numeral_eq_Suc)

lemma serialize_loop_one [simp]: "serialize_loop (Suc 0) sv = [ucast (sv AND 0xFF)]"
  by simp

lemma deserialize_loop_numeral [simp]:
  "deserialize_loop i (numeral k) buf v = deserialize_loop (Suc i) (pred_numeral k) buf
     (v OR push_bit (i * 8) (ucast (buf ! i) AND 0xFF))"
  by (simp add: numeral_eq_Suc)

section \<open>The two loops bit by bit\<close>

lemma length_serialize_loop [simp]: "length (serialize_loop n v) = n"
  by (induction n arbitrary: v) simp_all

lemma bit_serialize_loop:
  fixes v :: "'a::len word"
  assumes "i < n" and "j < 8"
  shows "bit (serialize_loop n v ! i) j \<longleftrightarrow> bit v (8 * i + j)"
  using assms
proof (induction n arbitrary: v i)
  case 0
  then show ?case by simp
next
  case (Suc n)
  have mask: "(0xFF :: 'a word) = mask 8"
    by (simp add: mask_eq_exp_minus_1)
  show ?case
  proof (cases i)
    case 0
    with Suc.prems show ?thesis
      by (auto simp: mask bit_simps dest: bit_imp_le_length)
  next
    case (Suc k)
    with Suc.prems Suc.IH [of k "drop_bit 8 v"] show ?thesis
      by (simp add: bit_simps ac_simps)
  qed
qed

lemma bit_deserialize_loop:
  fixes v :: "'a::len word"
  shows "bit (deserialize_loop i n buf v) k \<longleftrightarrow>
    bit v k \<or> (k < LENGTH('a) \<and> i * 8 \<le> k \<and> k < (i + n) * 8 \<and> bit (buf ! (k div 8)) (k mod 8))"
proof (induction n arbitrary: i v)
  case 0
  then show ?case by auto
next
  case (Suc n)
  have mask: "(0xFF :: 'a word) = mask 8"
    by (simp add: mask_eq_exp_minus_1)
  have step: "bit (push_bit (i * 8) (ucast (buf ! i) AND (0xFF :: 'a word))) k \<longleftrightarrow>
      k < LENGTH('a) \<and> i * 8 \<le> k \<and> k < i * 8 + 8 \<and> bit (buf ! (k div 8)) (k mod 8)"
  proof (cases "i * 8 \<le> k \<and> k < i * 8 + 8")
    case True
    then have "k div 8 = i" and "k mod 8 = k - i * 8" by (auto simp: div_nat_eqI mod_nat_eqI)
    with True show ?thesis by (auto simp: mask bit_simps)
  next
    case False
    then show ?thesis by (auto simp: mask bit_simps)
  qed
  show ?case
    by (simp only: deserialize_loop.simps Suc.IH bit_or_iff step) auto
qed

lemma deserialize_serialize_loop:
  fixes v :: "'a::len word"
  assumes "LENGTH('a) \<le> n * 8"
  shows "deserialize_loop 0 n (serialize_loop n v @ rest) 0 = v"
proof (rule bit_word_eqI)
  fix k
  assume k: "k < LENGTH('a)"
  then have "k div 8 < n" using assms by (simp add: less_mult_imp_div_less)
  then show "bit (deserialize_loop 0 n (serialize_loop n v @ rest) 0 :: 'a word) k \<longleftrightarrow> bit v k"
    using k assms by (simp add: bit_deserialize_loop bit_serialize_loop)
qed

lemma serialize_deserialize_loop:
  assumes "length bs = n" and "n * 8 \<le> LENGTH('a::len)"
  shows "serialize_loop n (deserialize_loop 0 n bs 0 :: 'a word) = bs"
proof (rule nth_equalityI)
  show "length (serialize_loop n (deserialize_loop 0 n bs 0 :: 'a word)) = length bs"
    using assms by simp
next
  fix i
  assume "i < length (serialize_loop n (deserialize_loop 0 n bs 0 :: 'a word))"
  then have i: "i < n" by simp
  show "serialize_loop n (deserialize_loop 0 n bs 0 :: 'a word) ! i = bs ! i"
  proof (rule bit_word_eqI)
    fix j :: nat
    assume "j < LENGTH(8)"
    then have "j < 8" by simp
    then show "bit (serialize_loop n (deserialize_loop 0 n bs 0 :: 'a word) ! i) j = bit (bs ! i) j"
      using i assms by (auto simp: bit_serialize_loop bit_deserialize_loop)
  qed
qed

lemma deserialize_loop_append:
  "i + n \<le> length bs \<Longrightarrow> deserialize_loop i n (bs @ rest) v = deserialize_loop i n bs v"
  by (induction n arbitrary: i v) simp_all

text \<open>The 32-bit length field holds the low 32 bits of a 64-bit length.\<close>

lemma deserialize_serialize_loop_trunc:
  fixes v :: "'a::len word"
  assumes "n * 8 = LENGTH('b::len)" and "LENGTH('b) \<le> LENGTH('a)"
  shows "(deserialize_loop 0 n (serialize_loop n v @ rest) 0 :: 'b word) = ucast v"
proof (rule bit_word_eqI)
  fix k
  assume k: "k < LENGTH('b)"
  then have "k div 8 < n" using assms(1) by (simp add: less_mult_imp_div_less)
  then show "bit (deserialize_loop 0 n (serialize_loop n v @ rest) 0 :: 'b word) k \<longleftrightarrow>
      bit (ucast v :: 'b word) k"
    using k assms by (auto simp: bit_deserialize_loop bit_serialize_loop bit_simps)
qed

lemma serialize_Inr: "sizeof_word TYPE('a::len word) \<le> len \<Longrightarrow>
    serialize nd len (v :: 'a word) = Inr (serialize_loop (sizeof_word TYPE('a word)) v)"
  by (simp add: serialize_def)

section \<open>Properties\<close>

text \<open>
  C25. Reading back what was written gives the value, at every width that is a whole number of
  bytes and whatever follows in the buffer; and every buffer of the right size is the
  serialization of the value read from it, so the encoding is a bijection.
\<close>

theorem serialize_deserialize_bijection:
  assumes "8 dvd LENGTH('a::len)" and "sizeof_word TYPE('a word) \<le> len" and "length bs = sizeof_word TYPE('a word)"
  shows "(\<exists>out. serialize nd len (v :: 'a word) = Inr out \<and> length out = sizeof_word TYPE('a word) \<and>
      deserialize nd len (out @ rest) = Inr v) \<and>
    bind_res (deserialize nd len bs) (\<lambda>u :: 'a word. serialize nd len u) = Inr bs"
proof -
  have n: "sizeof_word TYPE('a word) * 8 = LENGTH('a)" using assms(1) by (simp add: sizeof_word_def)
  then show ?thesis
    using assms deserialize_serialize_loop [of "sizeof_word TYPE('a word)" v rest]
      serialize_deserialize_loop [of bs "sizeof_word TYPE('a word)", where 'a = 'a]
    by (simp add: serialize_def deserialize_def)
qed

theorem serialize_deserialize_bijection_witness:
  "\<exists>out. serialize False 8 (0x1234 :: 16 word) = Inr out \<and> length out = 2 \<and> deserialize False 8 (out @ [7]) = Inr (0x1234 :: 16 word)"
  using serialize_deserialize_bijection [of 8 "[1, 2]" False "0x1234 :: 16 word" "[7]"] by (simp add: sizeof_word_def)

end
