(* ===== verification/Length_Delimited.thy ===== *)
theory Length_Delimited
  imports Serializer
begin

text \<open>
  \<^verbatim>\<open>play/net/protocol/length_delimited.hpp\<close> and \<^verbatim>\<open>.ipp\<close>: the codec
  that puts a 32-bit little-endian length in front of a payload. The two overloads of
  \<^verbatim>\<open>encode\<close> are \<open>ld_encode\<close> (into a streambuf, which grows) and
  \<open>ld_encode_buf\<close> (into a buffer of fixed size). \<^verbatim>\<open>decode\<close> returns the empty
  buffer when the payload is not complete.
\<close>

section \<open>Definitions\<close>

record length_delimited =
  ld_handle :: nat

definition length_field_size :: nat where
  "length_field_size = 4"

text \<open>The length is a \<^verbatim>\<open>size_t\<close> (64 bits), of which the loop writes the low 32.\<close>

definition ld_header :: "nat \<Rightarrow> bytes" where
  "ld_header len = serialize_loop length_field_size (of_nat len :: 64 word)"

definition ld_encode_buf :: "bool \<Rightarrow> bytes \<Rightarrow> nat \<Rightarrow> (nat \<times> bytes) res" where
  "ld_encode_buf nd src dst_size =
     play_check nd (length src > 0)
      (play_check nd (dst_size \<ge> length src)
        (let total_len = length_field_size + length src in
         play_check nd (dst_size \<ge> total_len)
          (if dst_size \<ge> total_len then Inr (total_len, ld_header (length src) @ src)
           else Inl Undefined)))"

definition ld_encode :: "bool \<Rightarrow> bytes \<Rightarrow> bytes \<Rightarrow> (nat \<times> bytes) res" where
  "ld_encode nd src dst =
     play_check nd (length src > 0)
      (let total_len = length_field_size + length src in
       bind_res (ld_encode_buf nd src total_len)
         (\<lambda>(_, written). Inr (total_len, dst @ written)))"

definition ld_decode_len :: "bytes \<Rightarrow> nat" where
  "ld_decode_len src = unat (deserialize_loop 0 length_field_size src 0 :: 32 word)"

definition ld_decode :: "bytes \<Rightarrow> bytes" where
  "ld_decode src =
     (if length src < length_field_size then []
      else let len = ld_decode_len src in
        if length src \<ge> len + length_field_size then take len (drop length_field_size src)
        else [])"

section \<open>Lemmas\<close>

lemma length_ld_header [simp]: "length (ld_header n) = length_field_size"
  by (simp add: ld_header_def)

lemma unat_ucast_length:
  assumes "n < 2 ^ 32"
  shows "unat (ucast (of_nat n :: 64 word) :: 32 word) = n"
  using assms by (simp add: unsigned_ucast_eq unsigned_of_nat take_bit_nat_eq_self)

lemma ld_decode_len_header:
  assumes "n < 2 ^ 32"
  shows "ld_decode_len (ld_header n @ rest) = n"
proof -
  have "(deserialize_loop 0 length_field_size (ld_header n @ rest) 0 :: 32 word)
      = ucast (of_nat n :: 64 word)"
    unfolding ld_header_def by (rule deserialize_serialize_loop_trunc) (simp_all add: length_field_size_def)
  then show ?thesis
    using assms by (simp add: ld_decode_len_def unat_ucast_length)
qed

lemma ld_decode_len_header_only: "n < 2 ^ 32 \<Longrightarrow> ld_decode_len (ld_header n) = n"
  using ld_decode_len_header [of n "[]"] by simp

lemma ld_decode_len_append [simp]:
  "length_field_size \<le> length bs \<Longrightarrow> ld_decode_len (bs @ rest) = ld_decode_len bs"
  by (simp add: ld_decode_len_def deserialize_loop_append)

lemma ld_decode_len_take:
  "length_field_size \<le> n \<Longrightarrow> n \<le> length bs \<Longrightarrow> ld_decode_len (take n bs) = ld_decode_len bs"
  using ld_decode_len_append [of "take n bs" "drop n bs"] by simp

lemma ld_decode_len_bound: "ld_decode_len bs < 2 ^ 32"
  unfolding ld_decode_len_def by (rule order_less_le_trans [OF unsigned_less]) simp

lemma ld_encode_Inr:
  "src \<noteq> [] \<Longrightarrow>
    ld_encode nd src dst = Inr (length_field_size + length src, dst @ ld_header (length src) @ src)"
  by (simp add: ld_encode_def ld_encode_buf_def)

lemma ld_decode_encoded:
  assumes "length src < 2 ^ 32"
  shows "ld_decode (ld_header (length src) @ src @ rest) = src"
  using assms by (simp add: ld_decode_def ld_decode_len_header_only)

lemma ld_decode_prefix:
  assumes "n < length_field_size + length src" and "length src < 2 ^ 32"
  shows "ld_decode (take n (ld_header (length src) @ src @ rest)) = []"
proof (cases "n < length_field_size")
  case True
  then show ?thesis by (simp add: ld_decode_def)
next
  case False
  then have "ld_decode_len (take n (ld_header (length src) @ src @ rest)) = length src"
    using assms by (subst ld_decode_len_take) (simp_all add: ld_decode_len_header_only)
  with False assms show ?thesis
    by (simp add: ld_decode_def)
qed

lemma ld_decode_extend:
  "ld_decode src \<noteq> [] \<Longrightarrow> ld_decode (src @ rest) = ld_decode src"
  by (auto simp: ld_decode_def Let_def split: if_splits)

lemma ld_decode_length:
  "ld_decode src \<noteq> [] \<Longrightarrow> length_field_size + length (ld_decode src) \<le> length src"
  by (auto simp: ld_decode_def Let_def split: if_splits)

section \<open>Properties\<close>

text \<open>
  C26. Frames keep within their bounds: decoding a prefix of an encoded frame gives nothing until
  the whole frame is there, then exactly the payload, whatever follows; and no buffer makes
  the decoder take more bytes than it holds.
\<close>

theorem length_delimited_bounds:
  assumes "src \<noteq> []" and "length src < 2 ^ 32"
  shows "\<exists>frame. ld_encode nd src [] = Inr (length_field_size + length src, frame) \<and>
    length frame = length_field_size + length src \<and> ld_decode (frame @ rest) = src \<and>
    (n < length frame \<longrightarrow> ld_decode (take n frame) = []) \<and>
    (ld_decode buf \<noteq> [] \<longrightarrow> length_field_size + length (ld_decode buf) \<le> length buf)"
  using assms ld_decode_prefix [of n src "[]"] ld_decode_length [of buf]
  by (simp add: ld_encode_Inr ld_decode_encoded)

theorem length_delimited_bounds_witness:
  "\<exists>frame. ld_encode False [1, 2, 3] [] = Inr (7, frame) \<and> ld_decode (frame @ [9]) = [1, 2, 3] \<and> ld_decode (take 6 frame) = []"
  using length_delimited_bounds [of "[1, 2, 3]" False "[9]" 6 "[]"] by (auto simp: length_field_size_def)

end
