(* ===== verification/Protocol.thy ===== *)
theory Protocol
  imports Length_Delimited
begin

text \<open>
  The interface between a session and its protocol. \<^verbatim>\<open>session<Protocol>\<close> is a
  template that calls \<^verbatim>\<open>accepted\<close>, \<^verbatim>\<open>connected\<close>, \<^verbatim>\<open>closed\<close>,
  \<^verbatim>\<open>encode\<close>, \<^verbatim>\<open>decode\<close>, \<^verbatim>\<open>handshake\<close> and
  \<^verbatim>\<open>is_established\<close> of its parameter; the record \<open>protocol_ops\<close> is that
  parameter. \<open>'p\<close> is the protocol object and \<open>'t\<close> the topic.

  The locales state the contracts sessions rely on: \<open>lifecycle\<close> for the flags every
  protocol keeps, \<open>framing\<close> for a decoder that finds frames in a byte stream
  independently of how the stream is cut, \<open>framed_link\<close> for an encoder whose output
  such a decoder reads back.
\<close>

section \<open>Definitions\<close>

record ('p, 't) protocol_ops =
  op_create :: "nat \<Rightarrow> 'p"
  op_accepted :: "bool \<Rightarrow> 'p \<Rightarrow> ('p \<times> bytes) res"
  op_connected :: "bool \<Rightarrow> 'p \<Rightarrow> ('p \<times> bytes) res"
  op_closed :: "'p \<Rightarrow> 'p"
  op_encode :: "bool \<Rightarrow> 'p \<Rightarrow> 't \<Rightarrow> bytes \<Rightarrow> bytes \<Rightarrow> bool \<Rightarrow> ('p \<times> nat \<times> bytes) res"
  op_decode :: "bool \<Rightarrow> 'p \<Rightarrow> bytes \<Rightarrow> ('p \<times> nat \<times> bytes \<times> 't) res"
  op_handshake :: "bool \<Rightarrow> 'p \<Rightarrow> bytes \<Rightarrow> ('p \<times> nat \<times> bytes) res"
  op_is_established :: "'p \<Rightarrow> bool"
  op_max_send_size :: nat

text \<open>\<^verbatim>\<open>protocol::max_send_size\<close> and \<^verbatim>\<open>max_recv_size\<close>, the same in every protocol.\<close>

definition max_send_size :: nat where
  "max_send_size = 1024 * 1024"

definition max_recv_size :: nat where
  "max_recv_size = 1024 * 1024"

text \<open>
  The decoding loop of \<^verbatim>\<open>session::recv_frames\<close> seen from the protocol: decode,
  hand out the frame, consume, until the decoder wants more bytes or faults. The last
  component is the fault that ended the loop, if any.
\<close>

function drain :: "('p \<Rightarrow> bytes \<Rightarrow> ('p \<times> nat \<times> bytes \<times> 't) res) \<Rightarrow> 'p \<Rightarrow> bytes
    \<Rightarrow> 'p \<times> bytes \<times> ('t \<times> bytes) list \<times> fault option" where
  "drain dec p buf =
     (if length buf > 0 then
        (case dec p buf of
           Inl e \<Rightarrow> (p, buf, [], Some e)
         | Inr (p', n, frame, t) \<Rightarrow>
             if n > 0 then
               (case drain dec p' (drop n buf) of
                  (q, rest, fs, e) \<Rightarrow> (q, rest, (t, frame) # fs, e))
             else (p', buf, [], None))
      else (p, buf, [], None))"
  by pat_completeness auto
termination
  by (relation "measure (\<lambda>(dec, p, buf). length buf)") auto

declare drain.simps [simp del]

text \<open>Encode a list of messages (topic, payload, encrypt) one after the other, as successive sends do.\<close>

fun encode_all :: "('p \<Rightarrow> 't \<Rightarrow> bytes \<Rightarrow> bytes \<Rightarrow> bool \<Rightarrow> ('p \<times> nat \<times> bytes) res)
    \<Rightarrow> 'p \<Rightarrow> ('t \<times> bytes \<times> bool) list \<Rightarrow> bytes \<Rightarrow> ('p \<times> bytes) res" where
  "encode_all enc s [] dst = Inr (s, dst)"
| "encode_all enc s ((t, d, e) # ms) dst =
     bind_res (enc s t d dst e) (\<lambda>(s', _, dst'). encode_all enc s' ms dst')"

section \<open>The life cycle every protocol follows\<close>

text \<open>
  A fresh protocol is not established; a handshake entry point (accepted or connected)
  may be used once; after \<^verbatim>\<open>closed\<close> the protocol is not established.
\<close>

locale lifecycle =
  fixes create :: "nat \<Rightarrow> 'p"
    and accepted :: "bool \<Rightarrow> 'p \<Rightarrow> ('p \<times> bytes) res"
    and connected :: "bool \<Rightarrow> 'p \<Rightarrow> ('p \<times> bytes) res"
    and closed :: "'p \<Rightarrow> 'p"
    and is_established :: "'p \<Rightarrow> bool"
  assumes create_not_established: "\<not> is_established (create h)"
    and closed_not_established: "\<not> is_established (closed p)"
    and accepted_once: "accepted False p = Inr (p', b) \<Longrightarrow>
          accepted False p' = Inl Check_failed \<and> connected False p' = Inl Check_failed"
    and connected_once: "connected False p = Inr (p', b) \<Longrightarrow>
          accepted False p' = Inl Check_failed \<and> connected False p' = Inl Check_failed"
    and closed_idem: "closed (closed p) = closed p"
begin

lemma entered_once:
  assumes "f \<in> {accepted False, connected False}" and "g \<in> {accepted False, connected False}"
    and "f p = Inr (p', b)"
  shows "g p' = Inl Check_failed"
  using assms by (auto dest: accepted_once connected_once)

end

section \<open>Framing\<close>

text \<open>
  What a decoder must promise for the frames a session delivers to depend only on the
  bytes received and not on how they arrived: asking for more bytes leaves the protocol
  alone, a decision already taken is not changed by bytes that follow.
\<close>

locale framing =
  fixes decode :: "'p \<Rightarrow> bytes \<Rightarrow> ('p \<times> nat \<times> bytes \<times> 't) res"
  assumes decode_more: "decode p buf = Inr (p', 0, f, t) \<Longrightarrow> p' = p"
    and decode_bound: "decode p buf = Inr (p', n, f, t) \<Longrightarrow> n \<le> length buf"
    and decode_extend: "decode p buf = Inr (p', n, f, t) \<Longrightarrow> 0 < n \<Longrightarrow>
          decode p (buf @ rest) = Inr (p', n, f, t)"
    and decode_fault: "decode p buf = Inl e \<Longrightarrow> decode p (buf @ rest) = Inl e"
begin

text \<open>Draining a longer buffer continues where draining the shorter one stopped.\<close>

lemma drain_append:
  "drain decode p (a @ b) =
     (case drain decode p a of
        (q, rest, fs, Some e) \<Rightarrow> (q, rest @ b, fs, Some e)
      | (q, rest, fs, None) \<Rightarrow>
          (case drain decode q (rest @ b) of (q', rest', fs', e) \<Rightarrow> (q', rest', fs @ fs', e)))"
proof (induction "length a" arbitrary: a p rule: less_induct)
  case less
  show ?case
  proof (cases "a = []")
    case True
    then show ?thesis by (simp add: drain.simps [of decode p "[]"] split: prod.split)
  next
    case False
    show ?thesis
    proof (cases "decode p a")
      case (Inl e)
      then show ?thesis
        using False decode_fault [OF Inl] by (simp add: drain.simps [of decode p] split: prod.split)
    next
      case (Inr r)
      obtain p' n f t where r: "r = (p', n, f, t)" by (cases r) auto
      show ?thesis
      proof (cases "n = 0")
        case True
        then have "p' = p" using Inr r decode_more by blast
        then show ?thesis
          using Inr r False True by (simp add: drain.simps [of decode p a] split: prod.split)
      next
        case n: False
        have ext: "decode p (a @ b) = Inr (p', n, f, t)" and le: "n \<le> length a"
          using Inr r n decode_extend decode_bound by auto
        have "drain decode p' (drop n a @ b) =
           (case drain decode p' (drop n a) of
              (q, rest, fs, Some e) \<Rightarrow> (q, rest @ b, fs, Some e)
            | (q, rest, fs, None) \<Rightarrow>
                (case drain decode q (rest @ b) of (q', rest', fs', e) \<Rightarrow> (q', rest', fs @ fs', e)))"
          using n False le by (intro less) auto
        then show ?thesis
          using Inr r n ext le False
          by (simp add: drain.simps [of decode p a] drain.simps [of decode p "a @ b"]
              split: prod.split option.split)
      qed
    qed
  qed
qed

lemma drain_rest_stuck:
  "drain decode p a = (q, rest, fs, None) \<Longrightarrow> drain decode q rest = (q, rest, [], None)"
proof (induction "length a" arbitrary: a p fs rule: less_induct)
  case less
  show ?case
  proof (cases "a = []")
    case True
    with less.prems show ?thesis by (simp add: drain.simps)
  next
    case False
    then obtain p' n f t where dec: "decode p a = Inr (p', n, f, t)"
      using less.prems by (auto simp: drain.simps [of decode p a] split: sum.splits)
    show ?thesis
    proof (cases "n = 0")
      case True
      then have "p' = p" using dec decode_more by blast
      then have "drain decode p a = (p, a, [], None)"
        using False dec True by (simp add: drain.simps [of decode p a])
      with less.prems show ?thesis by simp
    next
      case n: False
      then obtain fs' where "drain decode p' (drop n a) = (q, rest, fs', None)"
        using less.prems False dec
        by (auto simp: drain.simps [of decode p a] split: prod.splits)
      then show ?thesis
        using less.hyps [of "drop n a"] n False by auto
    qed
  qed
qed

end

text \<open>
  A sender and a receiver whose protocol states correspond: the receiver decodes what the
  sender encodes, consumes exactly those bytes, and the states correspond again. Fewer
  bytes than the frame has make the receiver wait.
\<close>

locale framed_link = framing decode
  for decode :: "'p \<Rightarrow> bytes \<Rightarrow> ('p \<times> nat \<times> bytes \<times> 't) res" +
  fixes encode :: "'p \<Rightarrow> 't \<Rightarrow> bytes \<Rightarrow> bytes \<Rightarrow> bool \<Rightarrow> ('p \<times> nat \<times> bytes) res"
    and sync :: "'p \<Rightarrow> 'p \<Rightarrow> bool"
    and sendable :: "bytes \<Rightarrow> bool"
  assumes encode_ok: "sync s r \<Longrightarrow> sendable d \<Longrightarrow>
      \<exists>s' frame. encode s t d dst e = Inr (s', length frame, dst @ frame) \<and> frame \<noteq> [] \<and>
        (\<forall>rest. \<exists>r'. decode r (frame @ rest) = Inr (r', length frame, d, t) \<and> sync s' r')"
begin

lemma encode_all_drain:
  assumes "sync s r" and "\<forall>(t, d, e) \<in> set ms. sendable d"
  shows "\<exists>s' wire r'. encode_all encode s ms dst = Inr (s', dst @ wire) \<and> sync s' r' \<and>
    drain decode r wire = (r', [], map (\<lambda>(t, d, e). (t, d)) ms, None)"
  using assms
proof (induction ms arbitrary: s r dst)
  case Nil
  then show ?case by (auto simp: drain.simps)
next
  case (Cons m ms)
  obtain t d e where m: "m = (t, d, e)" by (cases m) auto
  then have "sendable d" using Cons.prems by auto
  then obtain s1 frame where enc: "encode s t d dst e = Inr (s1, length frame, dst @ frame)"
    and ne: "frame \<noteq> []"
    and dec: "\<forall>rest. \<exists>r'. decode r (frame @ rest) = Inr (r', length frame, d, t) \<and> sync s1 r'"
    using encode_ok [OF Cons.prems(1), of d t dst e] by blast
  obtain r1 where r1: "decode r frame = Inr (r1, length frame, d, t)" "sync s1 r1"
    using dec [rule_format, of "[]"] by auto
  obtain s' wire r' where IH: "encode_all encode s1 ms (dst @ frame) = Inr (s', (dst @ frame) @ wire)"
    "sync s' r'" "drain decode r1 wire = (r', [], map (\<lambda>(t, d, e). (t, d)) ms, None)"
    using Cons.IH [OF r1(2), of "dst @ frame"] Cons.prems(2) by auto
  have "decode r (frame @ wire) = Inr (r1, length frame, d, t)"
    using r1(1) ne decode_extend by simp
  then have "drain decode r (frame @ wire) = (r', [], map (\<lambda>(t, d, e). (t, d)) (m # ms), None)"
    using IH(3) ne m by (simp add: drain.simps [of decode r])
  moreover have "encode_all encode s (m # ms) dst = Inr (s', dst @ (frame @ wire))"
    using enc IH(1) m by simp
  ultimately show ?case using IH(2) by blast
qed

end

end
