(* ===== verification/Session.thy ===== *)
theory Session
  imports Protocol
begin

text \<open>
  \<^verbatim>\<open>play/net/session.hpp\<close> and \<^verbatim>\<open>session.ipp\<close>: byte transport of one TCP
  connection. A session keeps one asynchronous receive and at most one asynchronous send
  outstanding; bytes to send are gathered in the accumulation buffer while the other
  buffer is being sent, and the two swap roles.

  Every member function is a state transformer that also returns what it asks of its
  surroundings, in order: the socket operations it starts (\<open>Async_send\<close>,
  \<open>Async_recv\<close>, \<open>Sock_close\<close>) and the calls to its \<^verbatim>\<open>session_handler\<close>
  (\<open>On_established\<close>, \<open>On_closed\<close>, \<open>On_receive\<close>). The completion handlers
  \<^verbatim>\<open>handle_send\<close> and \<^verbatim>\<open>handle_recv\<close> take the error code (0 for success) and
  the result of the socket operation, which the network chooses. The handlers of the
  repository (server, client, pulse) only record and post, so they do not call back into
  the session while it runs. \<open>acc_buf_index_\<close> takes the values 0 and 1 and is a
  \<^typ>\<open>bool\<close> here, \<^verbatim>\<open>^ 1\<close> is negation. Send data is a non-null buffer.
\<close>

section \<open>State and outputs\<close>

record 'p session =
  se_open :: bool
  se_native :: nat
  se_protocol :: "'p option"
  se_accepted :: bool
  se_handle :: nat
  se_remote_addr :: string
  se_bind_data :: "(nat \<times> nat) option"
  se_recv_buf :: bytes
  se_sending :: bool
  se_acc_index :: bool
  se_send_bufs :: "bool \<Rightarrow> bytes"

datatype 't session_out =
  Async_send bytes | Async_recv | Sock_close | On_established | On_closed nat | On_receive 't bytes

type_synonym ('p, 't) session_res = "('p session \<times> 't session_out list) res"

text \<open>The constructor; the socket is opened by the acceptor or the connect call.\<close>

definition session_create :: "bool \<Rightarrow> 'p session" where
  "session_create accepted = \<lparr>se_open = False, se_native = 0, se_protocol = None,
     se_accepted = accepted, se_handle = 0, se_remote_addr = [], se_bind_data = None,
     se_recv_buf = [], se_sending = False, se_acc_index = False, se_send_bufs = (\<lambda>_. [])\<rparr>"

text \<open>Run one state transformer after another, outputs in order.\<close>

definition then_do :: "('p, 't) session_res \<Rightarrow> ('p session \<Rightarrow> ('p, 't) session_res)
    \<Rightarrow> ('p, 't) session_res" where
  "then_do m k = bind_res m (\<lambda>(s, out). bind_res (k s) (\<lambda>(s', out'). Inr (s', out @ out')))"

section \<open>Operations\<close>

definition session_is_established :: "('p, 't) protocol_ops \<Rightarrow> 'p session \<Rightarrow> bool" where
  "session_is_established P s \<longleftrightarrow>
     (case se_protocol s of None \<Rightarrow> False | Some p \<Rightarrow> op_is_established P p)"

definition start_send :: "bool \<Rightarrow> 'p session \<Rightarrow> ('p, 't) session_res" where
  "start_send nd s = play_check nd (\<not> se_sending s)
     (let buf = se_send_bufs s (se_acc_index s) in
      if length buf = 0 then Inr (s, [])
      else Inr (s\<lparr>se_acc_index := \<not> se_acc_index s, se_sending := True\<rparr>, [Async_send buf]))"

definition start_recv :: "'p session \<Rightarrow> ('p, 't) session_res" where
  "start_recv s = Inr (s, [Async_recv])"

definition session_close :: "'p session \<Rightarrow> 'p session \<times> 't session_out list" where
  "session_close s = (if se_open s then (s\<lparr>se_open := False\<rparr>, [Sock_close]) else (s, []))"

text \<open>Append to the accumulation buffer and start a send when none is under way.\<close>

definition accumulate :: "bytes \<Rightarrow> 'p session \<Rightarrow> 'p session" where
  "accumulate data s = s\<lparr>se_send_bufs := (se_send_bufs s)
     (se_acc_index s := se_send_bufs s (se_acc_index s) @ data)\<rparr>"

definition session_send_raw :: "bool \<Rightarrow> 'p session \<Rightarrow> bytes \<Rightarrow> ('p, 't) session_res" where
  "session_send_raw nd s data =
     (if \<not> se_open s then Inr (s, [])
      else let s' = accumulate data s in
        if \<not> se_sending s' then start_send nd s' else Inr (s', []))"

definition session_send :: "('p, 't) protocol_ops \<Rightarrow> bool \<Rightarrow> 'p session \<Rightarrow> 't \<Rightarrow> bytes \<Rightarrow> bool
    \<Rightarrow> ('p session \<times> 't session_out list \<times> bool) res" where
  "session_send P nd s pic data encrypt =
     (if \<not> se_open s then Inr (s, [], False)
      else if length data \<ge> op_max_send_size P then Inr (s, [], False)
      else play_check nd (length data > 0)
       (if length data = 0 then Inr (s, [], False)
        else (case se_protocol s of
           None \<Rightarrow> Inl Undefined
         | Some p \<Rightarrow>
             (case op_encode P nd p pic data (se_send_bufs s (se_acc_index s)) encrypt of
                Inl (Thrown _) \<Rightarrow> (case session_close s of (s', out) \<Rightarrow> Inr (s', out, False))
              | Inl e \<Rightarrow> Inl e
              | Inr (p', total_len, acc) \<Rightarrow>
                  let s' = s\<lparr>se_protocol := Some p',
                       se_send_bufs := (se_send_bufs s)(se_acc_index s := acc)\<rparr> in
                  if \<not> se_sending s'
                  then bind_res (start_send nd s') (\<lambda>(s'', out). Inr (s'', out, True))
                  else Inr (s', [], True)))))"

definition send_handshake :: "bool \<Rightarrow> 'p session \<Rightarrow> bytes \<Rightarrow> ('p, 't) session_res" where
  "send_handshake nd s buf = (if length buf > 0 then session_send_raw nd s buf else Inr (s, []))"

definition handle_close :: "('p, 't) protocol_ops \<Rightarrow> 'p session \<Rightarrow> nat \<Rightarrow> ('p, 't) session_res" where
  "handle_close P s ec =
     (if se_open s then
        (case session_close s of (s', out) \<Rightarrow>
           (case se_protocol s' of
              None \<Rightarrow> Inl Undefined
            | Some p \<Rightarrow> Inr (s'\<lparr>se_protocol := Some (op_closed P p)\<rparr>, out @ [On_closed ec])))
      else Inr (s, []))"

text \<open>
  \<^verbatim>\<open>start()\<close>. The peer's address is what \<^verbatim>\<open>socket_.remote_endpoint()\<close>
  gives, or \<open>None\<close> when that call throws.
\<close>

definition session_start :: "('p, 't) protocol_ops \<Rightarrow> bool \<Rightarrow> 'p session \<Rightarrow> string option
    \<Rightarrow> ('p, 't) session_res" where
  "session_start P nd s endpoint =
     play_check nd (se_protocol s = None)
      (let s1 = s\<lparr>se_handle := se_native s\<rparr> in
       play_check nd (se_handle s1 > 0)
        (let p = op_create P (se_handle s1) in
         bind_res (if se_accepted s1 then op_accepted P nd p else op_connected P nd p) (\<lambda>(p', buf).
           then_do (send_handshake nd (s1\<lparr>se_protocol := Some p'\<rparr>) buf) (\<lambda>s2.
             (case endpoint of
                None \<Rightarrow> Inl (Thrown Std_exception)
              | Some addr \<Rightarrow>
                  then_do (start_recv (s2\<lparr>se_remote_addr := addr\<rparr>)) (\<lambda>s3.
                    if session_is_established P s3 then Inr (s3, [On_established]) else Inr (s3, [])))))))"

definition handle_send :: "('p, 't) protocol_ops \<Rightarrow> bool \<Rightarrow> 'p session \<Rightarrow> nat \<Rightarrow> nat
    \<Rightarrow> ('p, 't) session_res" where
  "handle_send P nd s ec len =
     play_check nd (se_sending s)
      (if ec = 0 then
         let index = (\<not> se_acc_index s);
             s' = s\<lparr>se_send_bufs := (se_send_bufs s)(index := drop len (se_send_bufs s index)),
                    se_sending := False\<rparr>
         in start_send nd s'
       else handle_close P s ec)"

text \<open>
  \<^verbatim>\<open>recv_frames()\<close>: the loop that decodes and delivers. An exception of the decoder
  closes the socket and ends the loop. The number of frames is the result.
\<close>

function recv_frames :: "('p, 't) protocol_ops \<Rightarrow> bool \<Rightarrow> 'p session \<Rightarrow> nat
    \<Rightarrow> ('p session \<times> 't session_out list \<times> nat) res" where
  "recv_frames P nd s frame_count =
     (if length (se_recv_buf s) > 0 then
        (case se_protocol s of
           None \<Rightarrow> Inl Undefined
         | Some p \<Rightarrow>
             (case op_decode P nd p (se_recv_buf s) of
                Inl (Thrown _) \<Rightarrow> (case session_close s of (s', out) \<Rightarrow> Inr (s', out, frame_count))
              | Inl e \<Rightarrow> Inl e
              | Inr (p', consumed_len, frame, pic) \<Rightarrow>
                  if consumed_len > 0 then
                    play_check nd (length frame > 0)
                     (bind_res (recv_frames P nd
                          (s\<lparr>se_protocol := Some p', se_recv_buf := drop consumed_len (se_recv_buf s)\<rparr>)
                          (Suc frame_count))
                       (\<lambda>(s', out, n). Inr (s', On_receive pic frame # out, n)))
                  else Inr (s\<lparr>se_protocol := Some p'\<rparr>, [], frame_count)))
      else Inr (s, [], frame_count))"
  by pat_completeness auto
termination
  by (relation "measure (\<lambda>(P, nd, s, n). length (se_recv_buf s))") auto

declare recv_frames.simps [simp del]

definition handle_recv :: "('p, 't) protocol_ops \<Rightarrow> bool \<Rightarrow> 'p session \<Rightarrow> nat \<Rightarrow> bytes
    \<Rightarrow> ('p, 't) session_res" where
  "handle_recv P nd s ec data =
     (if ec = 0 then
        let s1 = s\<lparr>se_recv_buf := se_recv_buf s @ data\<rparr> in
        (case se_protocol s1 of
           None \<Rightarrow> Inl Undefined
         | Some p \<Rightarrow>
             then_do
              (if op_is_established P p
               then bind_res (recv_frames P nd s1 0) (\<lambda>(s', out, _). Inr (s', out))
               else bind_res (op_handshake P nd p (se_recv_buf s1)) (\<lambda>(p', consumed_len, buf).
                 then_do (send_handshake nd (s1\<lparr>se_protocol := Some p',
                      se_recv_buf := drop consumed_len (se_recv_buf s1)\<rparr>) buf) (\<lambda>s2.
                   if session_is_established P s2
                   then bind_res (recv_frames P nd s2 0) (\<lambda>(s', out, _). Inr (s', On_established # out))
                   else Inr (s2, []))))
              start_recv)
      else handle_close P s ec)"

text \<open>User data is the address of the object and the handle written into it.\<close>

definition bind_data :: "'p session \<Rightarrow> nat \<Rightarrow> 'p session" where
  "bind_data s data = s\<lparr>se_bind_data := Some (data, se_handle s)\<rparr>"

section \<open>The session as a state machine\<close>

datatype 't session_event =
    Ev_start "string option"
  | Ev_send 't bytes bool
  | Ev_send_raw bytes
  | Ev_close
  | Ev_sent nat nat
  | Ev_recv nat bytes

fun session_step :: "('p, 't) protocol_ops \<Rightarrow> bool \<Rightarrow> 'p session \<Rightarrow> 't session_event
    \<Rightarrow> ('p, 't) session_res" where
  "session_step P nd s (Ev_start ep) = session_start P nd s ep"
| "session_step P nd s (Ev_send pic data enc) =
     bind_res (session_send P nd s pic data enc) (\<lambda>(s', out, _). Inr (s', out))"
| "session_step P nd s (Ev_send_raw data) = session_send_raw nd s data"
| "session_step P nd s Ev_close = Inr (session_close s)"
| "session_step P nd s (Ev_sent ec len) = handle_send P nd s ec len"
| "session_step P nd s (Ev_recv ec data) = handle_recv P nd s ec data"

fun session_run :: "('p, 't) protocol_ops \<Rightarrow> bool \<Rightarrow> 'p session \<Rightarrow> 't session_event list
    \<Rightarrow> ('p, 't) session_res" where
  "session_run P nd s [] = Inr (s, [])"
| "session_run P nd s (e # es) = then_do (session_step P nd s e) (\<lambda>s'. session_run P nd s' es)"

text \<open>What a list of outputs hands to the socket, to the application, and how often it reports the end.\<close>

fun sent_bytes :: "'t session_out list \<Rightarrow> bytes" where
  "sent_bytes [] = []"
| "sent_bytes (Async_send b # out) = b @ sent_bytes out"
| "sent_bytes (_ # out) = sent_bytes out"

fun delivered :: "'t session_out list \<Rightarrow> ('t \<times> bytes) list" where
  "delivered [] = []"
| "delivered (On_receive t f # out) = (t, f) # delivered out"
| "delivered (_ # out) = delivered out"

fun closed_reports :: "'t session_out list \<Rightarrow> nat" where
  "closed_reports [] = 0"
| "closed_reports (On_closed ec # out) = Suc (closed_reports out)"
| "closed_reports (_ # out) = closed_reports out"

text \<open>The buffer that gathers bytes and the buffer that is being sent.\<close>

abbreviation acc_buf :: "'p session \<Rightarrow> bytes" where
  "acc_buf s \<equiv> se_send_bufs s (se_acc_index s)"

abbreviation inflight :: "'p session \<Rightarrow> bytes" where
  "inflight s \<equiv> se_send_bufs s (\<not> se_acc_index s)"

text \<open>
  The sender's invariant: when no send is under way both buffers are empty, and a send
  under way has something to send.
\<close>

definition send_inv :: "'p session \<Rightarrow> bool" where
  "send_inv s \<longleftrightarrow> (if se_sending s then inflight s \<noteq> [] else inflight s = [] \<and> acc_buf s = [])"

text \<open>The bytes an event adds to the outgoing stream.\<close>

fun appended :: "('p, 't) protocol_ops \<Rightarrow> bool \<Rightarrow> 'p session \<Rightarrow> 't session_event \<Rightarrow> bytes" where
  "appended P nd s (Ev_start ep) =
     (case (if se_accepted s then op_accepted P nd (op_create P (se_native s))
            else op_connected P nd (op_create P (se_native s))) of
        Inr (p, buf) \<Rightarrow> if se_open s then buf else []
      | Inl _ \<Rightarrow> [])"
| "appended P nd s (Ev_send pic data enc) =
     (if se_open s \<and> length data < op_max_send_size P \<and> data \<noteq> [] then
        (case se_protocol s of
           None \<Rightarrow> []
         | Some p \<Rightarrow> (case op_encode P nd p pic data [] enc of Inr (_, _, x) \<Rightarrow> x | Inl _ \<Rightarrow> []))
      else [])"
| "appended P nd s (Ev_send_raw data) = (if se_open s then data else [])"
| "appended P nd s Ev_close = []"
| "appended P nd s (Ev_sent ec len) = []"
| "appended P nd s (Ev_recv ec data) =
     (if ec = 0 \<and> se_open s \<and> \<not> session_is_established P s then
        (case se_protocol s of
           None \<Rightarrow> []
         | Some p \<Rightarrow> (case op_handshake P nd p (se_recv_buf s @ data) of
               Inr (_, _, buf) \<Rightarrow> buf | Inl _ \<Rightarrow> []))
      else [])"

fun appended_run :: "('p, 't) protocol_ops \<Rightarrow> bool \<Rightarrow> 'p session \<Rightarrow> 't session_event list \<Rightarrow> bytes" where
  "appended_run P nd s [] = []"
| "appended_run P nd s (e # es) = appended P nd s e @
     (case session_step P nd s e of Inr (s', _) \<Rightarrow> appended_run P nd s' es | Inl _ \<Rightarrow> [])"

text \<open>Every completed send reports the whole buffer.\<close>

fun full_send :: "'p session \<Rightarrow> 't session_event \<Rightarrow> bool" where
  "full_send s (Ev_sent ec len) \<longleftrightarrow> ec \<noteq> 0 \<or> (se_sending s \<and> len = length (inflight s))"
| "full_send s _ \<longleftrightarrow> True"

fun full_sends :: "('p, 't) protocol_ops \<Rightarrow> bool \<Rightarrow> 'p session \<Rightarrow> 't session_event list \<Rightarrow> bool" where
  "full_sends P nd s [] \<longleftrightarrow> True"
| "full_sends P nd s (e # es) \<longleftrightarrow> full_send s e \<and>
     (case session_step P nd s e of Inr (s', _) \<Rightarrow> full_sends P nd s' es | Inl _ \<Rightarrow> True)"

section \<open>Lemmas on outputs and sequencing\<close>

lemma then_do_eq_Inr [res_simps]:
  "then_do m k = Inr (s', out) \<longleftrightarrow>
     (\<exists>s1 o1 o2. m = Inr (s1, o1) \<and> k s1 = Inr (s', o2) \<and> out = o1 @ o2)"
  by (auto simp: then_do_def bind_res_eq_Inr)

lemma then_do_simps [simp]:
  "then_do (Inl e) k = Inl e"
  "then_do (Inr (s, out)) k = bind_res (k s) (\<lambda>(s', out'). Inr (s', out @ out'))"
  by (simp_all add: then_do_def)

lemma sent_bytes_append [simp]: "sent_bytes (a @ b) = sent_bytes a @ sent_bytes b"
  by (induction a rule: sent_bytes.induct) simp_all

lemma delivered_append [simp]: "delivered (a @ b) = delivered a @ delivered b"
  by (induction a rule: delivered.induct) simp_all

lemma closed_reports_append [simp]: "closed_reports (a @ b) = closed_reports a + closed_reports b"
  by (induction a rule: closed_reports.induct) simp_all

lemma outputs_on_receive [simp]:
  "sent_bytes (map (\<lambda>(t, f). On_receive t f) fs) = []"
  "delivered (map (\<lambda>(t, f). On_receive t f) fs) = fs"
  "closed_reports (map (\<lambda>(t, f). On_receive t f) fs) = 0"
  by (induction fs) auto

section \<open>Receiving: the loop is the protocol's drain\<close>

lemma recv_frames_drain:
  assumes "se_protocol s = Some p"
    and "drain (op_decode P nd) p (se_recv_buf s) = (q, rest, fs, None)"
    and "nd \<or> (\<forall>(t, f) \<in> set fs. f \<noteq> [])"
  shows "recv_frames P nd s n =
    Inr (s\<lparr>se_protocol := Some q, se_recv_buf := rest\<rparr>, map (\<lambda>(t, f). On_receive t f) fs, n + length fs)"
  using assms
proof (induction P nd s n arbitrary: p fs rule: recv_frames.induct)
  case (1 P nd s n)
  show ?case
  proof (cases "se_recv_buf s = []")
    case True
    with "1.prems" show ?thesis by (simp add: recv_frames.simps [of P nd s] drain.simps)
  next
    case False
    with "1.prems" obtain p' k f t where dec: "op_decode P nd p (se_recv_buf s) = Inr (p', k, f, t)"
      by (auto simp: drain.simps [of _ p] split: sum.splits)
    show ?thesis
    proof (cases "k = 0")
      case True
      with False dec "1.prems" show ?thesis
        by (simp add: recv_frames.simps [of P nd s] drain.simps [of _ p])
    next
      case k: False
      let ?s = "s\<lparr>se_protocol := Some p', se_recv_buf := drop k (se_recv_buf s)\<rparr>"
      obtain fs' where fs: "fs = (t, f) # fs'"
        and dr: "drain (op_decode P nd) p' (drop k (se_recv_buf s)) = (q, rest, fs', None)"
        using False dec k "1.prems" by (auto simp: drain.simps [of _ p] split: prod.splits)
      have "recv_frames P nd ?s (Suc n) = Inr (?s\<lparr>se_protocol := Some q, se_recv_buf := rest\<rparr>,
          map (\<lambda>(t, f). On_receive t f) fs', Suc n + length fs')"
        using False dec k "1.prems" dr fs by (intro "1.IH" [of p]) auto
      then show ?thesis
        using False dec k "1.prems" fs
        by (auto simp: recv_frames.simps [of P nd s] play_check_def)
    qed
  qed
qed

section \<open>What each operation leaves alone\<close>

definition same_send :: "'p session \<Rightarrow> 'p session \<Rightarrow> bool" where
  "same_send s s' \<longleftrightarrow> se_send_bufs s' = se_send_bufs s \<and> se_acc_index s' = se_acc_index s \<and>
     se_sending s' = se_sending s"

lemma same_send_refl [simp, intro]: "same_send s s"
  by (simp add: same_send_def)

lemma same_send_trans: "same_send a b \<Longrightarrow> same_send b c \<Longrightarrow> same_send a c"
  by (simp add: same_send_def)

lemma same_send_inv: "same_send s s' \<Longrightarrow> send_inv s' = send_inv s"
  by (simp add: same_send_def send_inv_def)

lemma session_close_frame:
  "session_close s = (s', out) \<Longrightarrow>
    same_send s s' \<and> sent_bytes out = [] \<and> delivered out = [] \<and> closed_reports out = 0 \<and> \<not> se_open s'"
  by (auto simp: session_close_def same_send_def split: if_splits)

lemma recv_frames_frame:
  "recv_frames P nd s n = Inr (s', out, m) \<Longrightarrow>
    same_send s s' \<and> sent_bytes out = [] \<and> closed_reports out = 0 \<and> (se_open s' \<longrightarrow> se_open s)"
proof (induction P nd s n arbitrary: s' out m rule: recv_frames.induct)
  case (1 P nd s n)
  show ?case
  proof (cases "se_recv_buf s = []")
    case True
    with "1.prems" show ?thesis by (simp add: recv_frames.simps [of P nd s])
  next
    case False
    then obtain p where p: "se_protocol s = Some p"
      using "1.prems" by (auto simp: recv_frames.simps [of P nd s] split: option.splits)
    show ?thesis
    proof (cases "op_decode P nd p (se_recv_buf s)")
      case (Inl e)
      with False p "1.prems" show ?thesis
        by (cases e)
          (auto simp: recv_frames.simps [of P nd s] split: prod.splits dest: session_close_frame)
    next
      case (Inr r)
      obtain p' k f t where r: "r = (p', k, f, t)" by (cases r) auto
      show ?thesis
      proof (cases "k = 0")
        case True
        with False p Inr r "1.prems" show ?thesis
          by (auto simp: recv_frames.simps [of P nd s] same_send_def)
      next
        case k: False
        let ?s = "s\<lparr>se_protocol := Some p', se_recv_buf := drop k (se_recv_buf s)\<rparr>"
        obtain out' where rec: "recv_frames P nd ?s (Suc n) = Inr (s', out', m)"
          and out: "out = On_receive t f # out'"
          using False p Inr r k "1.prems"
          by (auto simp: recv_frames.simps [of P nd s] res_simps)
        have "same_send ?s s' \<and> sent_bytes out' = [] \<and> closed_reports out' = 0 \<and> (se_open s' \<longrightarrow> se_open ?s)"
          using False p Inr r k rec by (intro "1.IH") auto
        then show ?thesis using out by (auto simp: same_send_def)
      qed
    qed
  qed
qed

lemma handle_close_frame:
  "handle_close P s ec = Inr (s', out) \<Longrightarrow>
    same_send s s' \<and> sent_bytes out = [] \<and> delivered out = [] \<and> \<not> se_open s' \<and>
    closed_reports out = (if se_open s then 1 else 0)"
  by (auto simp: handle_close_def session_close_def same_send_def split: if_splits option.splits)

section \<open>Sending: a byte queue\<close>

text \<open>
  Taking bytes over: what the sockets get, followed by what is still gathered, is what was
  gathered before, followed by the new bytes.
\<close>

definition forwards :: "'p session \<Rightarrow> bytes \<Rightarrow> 'p session \<Rightarrow> 't session_out list \<Rightarrow> bool" where
  "forwards s new s' out \<longleftrightarrow> sent_bytes out @ acc_buf s' = acc_buf s @ new"

lemma start_send_forwards:
  assumes "start_send nd s = Inr (s', out)" and "\<not> se_sending s" and "inflight s = []"
  shows "send_inv s'" and "forwards s [] s' out"
  using assms by (auto simp: start_send_def send_inv_def forwards_def Let_def split: if_splits)

lemma start_send_frame:
  "start_send nd s = Inr (s', out) \<Longrightarrow>
    se_open s' = se_open s \<and> closed_reports out = 0 \<and> delivered out = [] \<and> se_protocol s' = se_protocol s"
  by (auto simp: start_send_def res_simps Let_def split: if_splits)

text \<open>Bytes put into the accumulation buffer, then a send when none is under way.\<close>

lemma gather_forwards:
  assumes inv: "send_inv s" and bufs: "se_send_bufs s1 = (se_send_bufs s)(se_acc_index s := acc_buf s @ new)"
    "se_acc_index s1 = se_acc_index s" "se_sending s1 = se_sending s"
    and step: "(if \<not> se_sending s1 then start_send nd s1 else Inr (s1, [])) = Inr (s', out)"
  shows "send_inv s' \<and> forwards s new s' out"
proof (cases "se_sending s")
  case True
  with assms show ?thesis by (auto simp: send_inv_def forwards_def)
next
  case False
  with inv bufs have "\<not> se_sending s1" "inflight s1 = []" "acc_buf s1 = acc_buf s @ new"
    by (auto simp: send_inv_def)
  with step start_send_forwards [of nd s1 s' out] show ?thesis
    by (auto simp: forwards_def)
qed

lemma session_send_raw_forwards:
  assumes "session_send_raw nd s data = Inr (s', out)" and "send_inv s"
  shows "send_inv s' \<and> forwards s (if se_open s then data else []) s' out"
proof (cases "se_open s")
  case True
  then have "(if \<not> se_sending (accumulate data s) then start_send nd (accumulate data s)
      else Inr (accumulate data s, [])) = Inr (s', out)"
    using assms(1) by (simp add: session_send_raw_def Let_def)
  from gather_forwards [OF assms(2) _ _ _ this, of data] True show ?thesis
    by (simp add: accumulate_def)
next
  case False
  with assms show ?thesis by (simp add: session_send_raw_def forwards_def)
qed

lemma send_handshake_forwards:
  assumes "send_handshake nd s buf = Inr (s', out)" and "send_inv s"
  shows "send_inv s' \<and> forwards s (if se_open s then buf else []) s' out"
proof (cases "buf = []")
  case True
  with assms show ?thesis by (simp add: send_handshake_def forwards_def)
next
  case False
  with assms session_send_raw_forwards [of nd s buf s' out] show ?thesis
    by (simp add: send_handshake_def)
qed

lemma session_send_raw_frame:
  "session_send_raw nd s data = Inr (s', out) \<Longrightarrow>
    se_open s' = se_open s \<and> closed_reports out = 0 \<and> delivered out = [] \<and> se_protocol s' = se_protocol s"
  by (auto simp: session_send_raw_def accumulate_def Let_def split: if_splits dest: start_send_frame)

lemma send_handshake_frame:
  "send_handshake nd s buf = Inr (s', out) \<Longrightarrow>
    se_open s' = se_open s \<and> closed_reports out = 0 \<and> delivered out = [] \<and> se_protocol s' = se_protocol s"
  by (auto simp: send_handshake_def split: if_splits dest: session_send_raw_frame)

lemma session_start_forwards:
  fixes P :: "('p, 't) protocol_ops"
  assumes "session_start P nd s ep = Inr (s', out)" and "send_inv s"
  shows "send_inv s' \<and> forwards s (appended P nd s (Ev_start ep)) s' out"
proof -
  obtain p' buf s2 addr and o2 :: "'t session_out list" where
    acc: "(if se_accepted s then op_accepted P nd (op_create P (se_native s))
       else op_connected P nd (op_create P (se_native s))) = Inr (p', buf)"
    and hs: "send_handshake nd (s\<lparr>se_handle := se_native s, se_protocol := Some p'\<rparr>) buf = Inr (s2, o2)"
    and s': "s' = s2\<lparr>se_remote_addr := addr\<rparr>" and out: "sent_bytes out = sent_bytes o2"
    using assms(1)
    by (auto simp: session_start_def res_simps start_recv_def Let_def split: option.splits if_splits)
  have "send_inv (s\<lparr>se_handle := se_native s, se_protocol := Some p'\<rparr>)"
    using assms(2) by (simp add: send_inv_def)
  from send_handshake_forwards [OF hs this] show ?thesis
    using acc s' out by (auto simp: forwards_def send_inv_def)
qed

lemma handle_recv_forwards:
  fixes P :: "('p, 't) protocol_ops"
  assumes "handle_recv P nd s ec data = Inr (s', out)" and "send_inv s"
  shows "send_inv s' \<and> forwards s (appended P nd s (Ev_recv ec data)) s' out"
proof (cases "ec = 0")
  case False
  with assms handle_close_frame [of P s ec s' out] same_send_inv [of s s'] show ?thesis
    by (auto simp: handle_recv_def forwards_def same_send_def)
next
  case ec: True
  then obtain p where p: "se_protocol s = Some p"
    using assms(1) by (auto simp: handle_recv_def Let_def split: option.splits)
  show ?thesis
  proof (cases "op_is_established P p")
    case True
    with ec p assms(1) obtain s1 o1 m where
      "recv_frames P nd (s\<lparr>se_recv_buf := se_recv_buf s @ data\<rparr>) 0 = Inr (s', o1, m)"
      and out: "sent_bytes out = sent_bytes o1"
      by (auto simp: handle_recv_def Let_def res_simps start_recv_def)
    from recv_frames_frame [OF this(1)] True ec p assms(2) out show ?thesis
      by (auto simp: forwards_def same_send_def send_inv_def session_is_established_def)
  next
    case False
    with ec p assms(1) obtain p' k buf s2 and o2 :: "'t session_out list" where
      hsk: "op_handshake P nd p (se_recv_buf s @ data) = Inr (p', k, buf)"
      and hs: "send_handshake nd (s\<lparr>se_protocol := Some p',
          se_recv_buf := drop k (se_recv_buf s @ data)\<rparr>) buf = Inr (s2, o2)"
      and rest: "same_send s2 s'" "sent_bytes out = sent_bytes o2"
      by (auto simp: handle_recv_def Let_def res_simps start_recv_def simp del: drop_append
          split: if_splits dest: recv_frames_frame)
    have "send_inv (s\<lparr>se_protocol := Some p', se_recv_buf := drop k (se_recv_buf s @ data)\<rparr>)"
      using assms(2) by (simp add: send_inv_def)
    from send_handshake_forwards [OF hs this] show ?thesis
      using False ec p hsk rest same_send_inv [OF rest(1)]
      by (auto simp: forwards_def same_send_def session_is_established_def)
  qed
qed

lemma handle_send_forwards:
  assumes "handle_send P nd s ec len = Inr (s', out)" and "send_inv s"
    and "full_send s (Ev_sent ec len)"
  shows "send_inv s' \<and> forwards s [] s' out"
proof (cases "ec = 0")
  case True
  let ?s = "s\<lparr>se_send_bufs := (se_send_bufs s)(\<not> se_acc_index s := []), se_sending := False\<rparr>"
  from True assms have "start_send nd ?s = Inr (s', out)"
    by (simp add: handle_send_def Let_def)
  from start_send_forwards [OF this] show ?thesis by (simp add: forwards_def)
next
  case False
  with assms have "handle_close P s ec = Inr (s', out)"
    by (simp add: handle_send_def res_simps)
  with handle_close_frame [OF this] same_send_inv [of s s'] assms(2) show ?thesis
    by (simp add: forwards_def same_send_def)
qed

text \<open>
  The contract on encoders: encoding appends, and what it appends does not depend on what
  the buffer holds already.
\<close>

locale appending =
  fixes P :: "('p, 't) protocol_ops" and nd :: bool
  assumes encode_appends: "op_encode P nd p pic data dst enc =
    bind_res (op_encode P nd p pic data [] enc) (\<lambda>(p', n, x). Inr (p', n, dst @ x))"
begin

lemma session_send_forwards:
  assumes "session_send P nd s pic data enc = Inr (s', out, ok)" and "send_inv s"
  shows "send_inv s' \<and> forwards s (appended P nd s (Ev_send pic data enc)) s' out"
proof (cases "se_open s \<and> length data < op_max_send_size P \<and> data \<noteq> []")
  case False
  with assms show ?thesis
    by (auto simp: session_send_def forwards_def res_simps split: if_splits option.splits)
next
  case guard: True
  then obtain p where p: "se_protocol s = Some p"
    using assms(1) by (auto simp: session_send_def split: option.splits)
  show ?thesis
  proof (cases "op_encode P nd p pic data [] enc")
    case (Inl e)
    then have "op_encode P nd p pic data (acc_buf s) enc = Inl e"
      using encode_appends [of p pic data "acc_buf s" enc] by simp
    with guard p assms obtain s1 o1 where "session_close s = (s1, o1)" "s' = s1" "out = o1"
      by (cases e) (auto simp: session_send_def split: prod.splits)
    with session_close_frame [of s s1 o1] guard p Inl assms(2) same_send_inv [of s s1] show ?thesis
      by (auto simp: forwards_def same_send_def)
  next
    case (Inr r)
    obtain p' n x where r: "r = (p', n, x)" by (cases r) auto
    then have enc: "op_encode P nd p pic data (acc_buf s) enc = Inr (p', n, acc_buf s @ x)"
      using Inr encode_appends [of p pic data "acc_buf s" enc] by simp
    let ?s = "s\<lparr>se_protocol := Some p', se_send_bufs := (se_send_bufs s)(se_acc_index s := acc_buf s @ x)\<rparr>"
    have "(if \<not> se_sending ?s then start_send nd ?s else Inr (?s, [])) = Inr (s', out)"
      using guard p enc assms(1)
      by (auto simp: session_send_def res_simps Let_def split: if_splits)
    from gather_forwards [OF assms(2) _ _ _ this, of x] show ?thesis
      using guard p Inr r by simp
  qed
qed

lemma session_step_forwards:
  assumes "session_step P nd s e = Inr (s', out)" and "send_inv s" and "full_send s e"
  shows "send_inv s' \<and> forwards s (appended P nd s e) s' out"
proof (cases e)
  case (Ev_start ep)
  with assms session_start_forwards [of P nd s ep s' out] show ?thesis
    by (simp del: appended.simps)
next
  case (Ev_send pic data enc)
  with assms session_send_forwards [of s pic data enc s' out] show ?thesis
    by (auto simp: res_simps)
next
  case (Ev_send_raw data)
  with assms session_send_raw_forwards [of nd s data s' out] show ?thesis by simp
next
  case Ev_close
  with assms session_close_frame [of s s' out] same_send_inv [of s s'] show ?thesis
    by (auto simp: forwards_def same_send_def)
next
  case (Ev_sent ec len)
  with assms handle_send_forwards [of P nd s ec len s' out] show ?thesis by simp
next
  case (Ev_recv ec data)
  with assms handle_recv_forwards [of P nd s ec data s' out] show ?thesis
    by (simp del: appended.simps)
qed

lemma session_run_forwards:
  "session_run P nd s es = Inr (s', out) \<Longrightarrow> send_inv s \<Longrightarrow> full_sends P nd s es \<Longrightarrow>
    send_inv s' \<and> forwards s (appended_run P nd s es) s' out"
proof (induction es arbitrary: s out)
  case Nil
  then show ?case by (simp add: forwards_def)
next
  case (Cons e es)
  then obtain s1 o1 o2 where step: "session_step P nd s e = Inr (s1, o1)"
    and run: "session_run P nd s1 es = Inr (s', o2)" and out: "out = o1 @ o2"
    by (auto simp: then_do_eq_Inr)
  have "send_inv s1" "forwards s (appended P nd s e) s1 o1"
    using session_step_forwards [OF step] Cons.prems by auto
  moreover have "send_inv s' \<and> forwards s1 (appended_run P nd s1 es) s' o2"
    using Cons.IH [OF run] \<open>send_inv s1\<close> Cons.prems step by simp
  ultimately show ?case using step out by (simp add: forwards_def)
qed

end

section \<open>Receiving: segmentation does not matter\<close>

text \<open>A protocol whose decoder frames the stream and stays established while it decodes.\<close>

locale framed_session = framing "op_decode P nd"
  for P :: "('p, 't) protocol_ops" and nd :: bool +
  assumes decode_established: "op_decode P nd p buf = Inr (p', n, f, t) \<Longrightarrow>
    op_is_established P p' = op_is_established P p"
begin

lemma drain_established:
  "drain (op_decode P nd) p buf = (q, rest, fs, None) \<Longrightarrow> op_is_established P q = op_is_established P p"
proof (induction "length buf" arbitrary: p buf fs rule: less_induct)
  case less
  show ?case
  proof (cases "buf = []")
    case True
    with less.prems show ?thesis by (simp add: drain.simps)
  next
    case False
    with less.prems obtain p' n f t where dec: "op_decode P nd p buf = Inr (p', n, f, t)"
      by (auto simp: drain.simps [of _ p] split: sum.splits)
    show ?thesis
    proof (cases "n = 0")
      case True
      with less.prems False dec decode_established [OF dec] show ?thesis
        by (auto simp: drain.simps [of _ p])
    next
      case n: False
      with less.prems False dec obtain fs' where
        "drain (op_decode P nd) p' (drop n buf) = (q, rest, fs', None)"
        by (auto simp: drain.simps [of _ p] split: prod.splits)
      with less.hyps [of "drop n buf"] n False decode_established [OF dec] show ?thesis
        by simp
    qed
  qed
qed

lemma handle_recv_chunk:
  assumes "se_protocol s = Some p" and "op_is_established P p"
    and "drain (op_decode P nd) p (se_recv_buf s @ data) = (q, rest, fs, None)"
    and "nd \<or> (\<forall>(t, f) \<in> set fs. f \<noteq> [])"
  shows "handle_recv P nd s 0 data = Inr (s\<lparr>se_protocol := Some q, se_recv_buf := rest\<rparr>,
    map (\<lambda>(t, f). On_receive t f) fs @ [Async_recv])"
  using assms recv_frames_drain [of "s\<lparr>se_recv_buf := se_recv_buf s @ data\<rparr>" p P nd q rest fs 0]
  by (simp add: handle_recv_def start_recv_def)

lemma recv_chunks:
  assumes "chunks \<noteq> []" and "se_protocol s = Some p" and "op_is_established P p"
    and "drain (op_decode P nd) p (se_recv_buf s @ concat chunks) = (q, rest, fs, None)"
    and "nd \<or> (\<forall>(t, f) \<in> set fs. f \<noteq> [])"
  shows "\<exists>out. session_run P nd s (map (Ev_recv 0) chunks) =
      Inr (s\<lparr>se_protocol := Some q, se_recv_buf := rest\<rparr>, out) \<and> delivered out = fs"
  using assms
proof (induction chunks arbitrary: s p fs rule: list_nonempty_induct)
  case (single c)
  then show ?case using handle_recv_chunk [of s p c q rest fs] by simp
next
  case (cons c cs)
  obtain q1 rest1 fs1 e1 where d1: "drain (op_decode P nd) p (se_recv_buf s @ c) = (q1, rest1, fs1, e1)"
    by (metis prod_cases4)
  have all: "drain (op_decode P nd) p ((se_recv_buf s @ c) @ concat cs) = (q, rest, fs, None)"
    using cons.prems(3) by simp
  then have e1: "e1 = None"
    using drain_append [of p "se_recv_buf s @ c" "concat cs"] d1 by (cases e1) simp_all
  obtain fs2 where d2: "drain (op_decode P nd) q1 (rest1 @ concat cs) = (q, rest, fs2, None)"
    and fs: "fs = fs1 @ fs2"
    using drain_append [of p "se_recv_buf s @ c" "concat cs"] d1 e1 all
    by (auto split: prod.splits)
  let ?s1 = "s\<lparr>se_protocol := Some q1, se_recv_buf := rest1\<rparr>"
  have step: "handle_recv P nd s 0 c = Inr (?s1, map (\<lambda>(t, f). On_receive t f) fs1 @ [Async_recv])"
    using handle_recv_chunk [of s p c q1 rest1 fs1] d1 e1 cons.prems fs by auto
  obtain out where "session_run P nd ?s1 (map (Ev_recv 0) cs) =
      Inr (?s1\<lparr>se_protocol := Some q, se_recv_buf := rest\<rparr>, out)" "delivered out = fs2"
    using cons.IH [of ?s1 q1 fs2] d2 fs cons.prems drain_established [of p "se_recv_buf s @ c" q1 rest1 fs1] d1 e1
    by auto
  with step fs show ?case by simp
qed

end

section \<open>Closing is reported at most once\<close>

lemma session_start_closed:
  "session_start P nd s ep = Inr (s', out) \<Longrightarrow> closed_reports out = 0 \<and> se_open s' = se_open s"
  by (auto simp: session_start_def res_simps start_recv_def Let_def
      split: option.splits if_splits dest!: send_handshake_frame)

lemma session_send_closed:
  "session_send P nd s pic data enc = Inr (s', out, ok) \<Longrightarrow>
    closed_reports out = 0 \<and> (se_open s' \<longrightarrow> se_open s)"
  by (auto simp: session_send_def session_close_def res_simps Let_def
      split: if_splits option.splits sum.splits fault.splits dest!: start_send_frame)

lemma handle_recv_closed:
  "handle_recv P nd s ec data = Inr (s', out) \<Longrightarrow>
    closed_reports out \<le> (if se_open s then 1 else 0) \<and> (se_open s' \<longrightarrow> se_open s \<and> closed_reports out = 0)"
  by (fastforce simp: handle_recv_def res_simps start_recv_def Let_def split: if_splits option.splits
      dest: recv_frames_frame send_handshake_frame handle_close_frame)

lemma handle_send_closed:
  "handle_send P nd s ec len = Inr (s', out) \<Longrightarrow>
    closed_reports out \<le> (if se_open s then 1 else 0) \<and> (se_open s' \<longrightarrow> se_open s \<and> closed_reports out = 0)"
  by (auto simp: handle_send_def res_simps Let_def split: if_splits
      dest: start_send_frame handle_close_frame)

lemma session_step_closed:
  assumes "session_step P nd s e = Inr (s', out)"
  shows "closed_reports out \<le> (if se_open s then 1 else 0) \<and>
    (se_open s' \<longrightarrow> se_open s \<and> closed_reports out = 0)"
proof (cases e)
  case (Ev_send pic data enc)
  with assms show ?thesis by (auto simp: res_simps dest: session_send_closed)
qed (use assms in \<open>auto dest: session_start_closed session_send_raw_frame session_close_frame
    handle_recv_closed handle_send_closed\<close>)

lemma session_run_closed:
  "session_run P nd s es = Inr (s', out) \<Longrightarrow> closed_reports out \<le> (if se_open s then 1 else 0)"
proof (induction es arbitrary: s out)
  case Nil
  then show ?case by simp
next
  case (Cons e es)
  then obtain s1 o1 o2 where step: "session_step P nd s e = Inr (s1, o1)"
    and run: "session_run P nd s1 es = Inr (s', o2)" and out: "out = o1 @ o2"
    by (auto simp: then_do_eq_Inr)
  with Cons.IH [OF run] session_step_closed [OF step] show ?case
    by (auto split: if_splits)
qed

end
