(* ===== verification/Plain_Protocol.thy ===== *)
theory Plain_Protocol
  imports Protocol
begin

text \<open>
  \<^verbatim>\<open>play/net/protocol/plain_protocol.hpp\<close> and \<^verbatim>\<open>.ipp\<close>: frames
  \<^verbatim>\<open>topic | length{4} | payload\<close> without encryption. The topic is an unsigned
  integer whose width is a whole number of bytes. The protocol is established as soon as
  it is accepted or connected.
\<close>

section \<open>Definitions\<close>

record plain_protocol =
  pp_handle :: nat
  pp_accepted :: bool
  pp_connected :: bool
  pp_closed :: bool
  pp_length_codec :: "length_delimited option"

definition plain_create :: "nat \<Rightarrow> plain_protocol" where
  "plain_create handle = \<lparr>pp_handle = handle, pp_accepted = False, pp_connected = False,
     pp_closed = True, pp_length_codec = None\<rparr>"

definition plain_accepted :: "bool \<Rightarrow> plain_protocol \<Rightarrow> (plain_protocol \<times> bytes) res" where
  "plain_accepted nd p =
     play_check nd (\<not> pp_accepted p) (play_check nd (\<not> pp_connected p)
       (play_check nd (pp_closed p) (play_check nd (pp_length_codec p = None)
         (Inr (p\<lparr>pp_accepted := True, pp_closed := False,
             pp_length_codec := Some \<lparr>ld_handle = pp_handle p\<rparr>\<rparr>, [])))))"

definition plain_connected :: "bool \<Rightarrow> plain_protocol \<Rightarrow> (plain_protocol \<times> bytes) res" where
  "plain_connected nd p =
     play_check nd (\<not> pp_accepted p) (play_check nd (\<not> pp_connected p)
       (play_check nd (pp_closed p) (play_check nd (pp_length_codec p = None)
         (Inr (p\<lparr>pp_connected := True, pp_closed := False,
             pp_length_codec := Some \<lparr>ld_handle = pp_handle p\<rparr>\<rparr>, [])))))"

definition plain_closed :: "plain_protocol \<Rightarrow> plain_protocol" where
  "plain_closed p = play_return_if (pp_closed p) p (p\<lparr>pp_closed := True\<rparr>)"

definition plain_is_established :: "plain_protocol \<Rightarrow> bool" where
  "plain_is_established p \<longleftrightarrow> (pp_accepted p \<or> pp_connected p) \<and> \<not> pp_closed p"

definition plain_get_min_size :: "'t::len word itself \<Rightarrow> nat" where
  "plain_get_min_size T = length_field_size + sizeof_word T"

text \<open>
  The topic is serialized with the size of the payload as the buffer size
  (\<^verbatim>\<open>serializer::serialize(wbuf, src.size(), pic)\<close>), so the check in
  \<^verbatim>\<open>serialize\<close> compares the payload with the width of the topic.
\<close>

definition plain_encode :: "bool \<Rightarrow> plain_protocol \<Rightarrow> 't::len word \<Rightarrow> bytes \<Rightarrow> bytes \<Rightarrow> bool
    \<Rightarrow> (plain_protocol \<times> nat \<times> bytes) res" where
  "plain_encode nd p pic src dst ignore =
     play_check nd (\<not> pp_closed p)
      (if pp_closed p then Inr (p, 0, dst)
       else play_check nd (plain_is_established p)
        (let total_len = length_field_size + length src + sizeof_word TYPE('t word) in
         bind_res (serialize nd (length src) pic) (\<lambda>topic_bytes.
           (case pp_length_codec p of
              None \<Rightarrow> Inl Undefined
            | Some codec \<Rightarrow>
                bind_res (ld_encode nd src (dst @ topic_bytes)) (\<lambda>(size, dst').
                  play_check nd (size = length src + length_field_size)
                    (Inr (p, total_len, dst')))))))"

definition plain_decode :: "bool \<Rightarrow> plain_protocol \<Rightarrow> bytes
    \<Rightarrow> (plain_protocol \<times> nat \<times> bytes \<times> 't::len word) res" where
  "plain_decode nd p src =
     (if length src \<le> plain_get_min_size TYPE('t word) then Inr (p, 0, [], 0)
      else bind_res (deserialize nd (length src) src) (\<lambda>pic.
        (case pp_length_codec p of
           None \<Rightarrow> Inl Undefined
         | Some codec \<Rightarrow>
             let sbuf = ld_decode (drop (sizeof_word TYPE('t word)) src) in
             if length sbuf > 0
             then Inr (p, sizeof_word TYPE('t word) + length_field_size + length sbuf, sbuf, pic)
             else Inr (p, 0, [], 0))))"

definition plain_handshake :: "bool \<Rightarrow> plain_protocol \<Rightarrow> bytes
    \<Rightarrow> (plain_protocol \<times> nat \<times> bytes) res" where
  "plain_handshake nd p data = Inr (p, 0, [])"

definition plain_ops :: "(plain_protocol, 't::len word) protocol_ops" where
  "plain_ops = \<lparr>op_create = plain_create, op_accepted = plain_accepted,
     op_connected = plain_connected, op_closed = plain_closed, op_encode = plain_encode,
     op_decode = plain_decode, op_handshake = plain_handshake,
     op_is_established = plain_is_established, op_max_send_size = max_send_size\<rparr>"

text \<open>An established protocol has its length codec.\<close>

definition plain_inv :: "plain_protocol \<Rightarrow> bool" where
  "plain_inv p \<longleftrightarrow> (plain_is_established p \<longrightarrow> pp_length_codec p \<noteq> None)"

text \<open>The bytes of one frame.\<close>

definition plain_frame :: "'t::len word \<Rightarrow> bytes \<Rightarrow> bytes" where
  "plain_frame t d = serialize_loop (sizeof_word TYPE('t word)) t @ ld_header (length d) @ d"

section \<open>Lemmas\<close>

lemmas plain_defs = plain_create_def plain_accepted_def plain_connected_def plain_closed_def
  plain_is_established_def plain_inv_def play_return_if_def

lemma plain_inv_create [intro]: "plain_inv (plain_create h)"
  by (simp add: plain_defs)

lemma plain_inv_accepted: "plain_accepted nd p = Inr (p', b) \<Longrightarrow> plain_inv p'"
  by (auto simp: plain_defs res_simps)

lemma plain_inv_connected: "plain_connected nd p = Inr (p', b) \<Longrightarrow> plain_inv p'"
  by (auto simp: plain_defs res_simps)

lemma plain_inv_closed: "plain_inv p \<Longrightarrow> plain_inv (plain_closed p)"
  by (auto simp: plain_defs)

lemma plain_encode_frame:
  assumes "plain_is_established p" and "plain_inv p" and "src \<noteq> []"
    and "nd \<or> sizeof_word TYPE('t::len word) \<le> length src"
  shows "plain_encode nd p (t :: 't word) src dst e =
    Inr (p, length (plain_frame t src), dst @ plain_frame t src)"
  using assms
  by (auto simp: plain_encode_def plain_inv_def plain_is_established_def serialize_def
      ld_encode_Inr plain_frame_def Let_def)

lemma plain_decode_unfold:
  assumes "length src > plain_get_min_size TYPE('t::len word)" and "pp_length_codec p \<noteq> None"
  shows "plain_decode nd p src =
    (let sbuf = ld_decode (drop (sizeof_word TYPE('t word)) src) in
     if length sbuf > 0
     then Inr (p, sizeof_word TYPE('t word) + length_field_size + length sbuf, sbuf,
            deserialize_loop 0 (sizeof_word TYPE('t word)) src 0 :: 't word)
     else Inr (p, 0, [], 0))"
  using assms
  by (auto simp: plain_decode_def deserialize_def plain_get_min_size_def)

lemma plain_decode_frame:
  assumes "pp_length_codec p \<noteq> None" and "d \<noteq> []" and "length d < 2 ^ 32"
    and "LENGTH('t::len) = 8 * sizeof_word TYPE('t word)"
  shows "plain_decode nd p (plain_frame (t :: 't word) d @ rest) =
    Inr (p, length (plain_frame t d), d, t)"
proof -
  have "deserialize_loop 0 (sizeof_word TYPE('t word)) (plain_frame t d @ rest) 0 = t"
    unfolding plain_frame_def append_assoc
    by (rule deserialize_serialize_loop) (simp add: assms(4))
  moreover have "ld_decode (drop (sizeof_word TYPE('t word)) (plain_frame t d @ rest)) = d"
    using assms(3) ld_decode_encoded [of d rest] by (simp add: plain_frame_def)
  moreover have "length (plain_frame t d @ rest) > plain_get_min_size TYPE('t word)"
    using assms(2) by (simp add: plain_frame_def plain_get_min_size_def)
  ultimately show ?thesis
    using assms(1,2) by (simp add: plain_decode_unfold plain_frame_def)
qed

section \<open>The plain protocol meets the session's contracts\<close>

interpretation plain_lc: lifecycle plain_create plain_accepted plain_connected plain_closed
    plain_is_established
  by unfold_locales (auto simp: plain_defs res_simps)

lemma plain_framing: "framing (plain_decode nd :: plain_protocol \<Rightarrow> bytes
    \<Rightarrow> (plain_protocol \<times> nat \<times> bytes \<times> 't::len word) res)"
proof
  let ?min = "plain_get_min_size TYPE('t word)" and ?sz = "sizeof_word TYPE('t word)"
  fix p p' :: plain_protocol and buf rest f :: bytes and n :: nat and t :: "'t word" and e :: fault
  show "p' = p" if "plain_decode nd p buf = Inr (p', 0, f, t)"
    using that by (auto simp: plain_decode_def Let_def res_simps split: if_splits option.splits)
  show "n \<le> length buf" if "plain_decode nd p buf = Inr (p', n, f, t)"
    using that ld_decode_length [of "drop ?sz buf"]
    by (auto simp: plain_decode_def plain_get_min_size_def Let_def res_simps
        split: if_splits option.splits)
  show "plain_decode nd p (buf @ rest) = Inr (p', n, f, t)"
    if dec: "plain_decode nd p buf = Inr (p', n, f, t)" and "0 < n"
  proof -
    have len: "length buf > ?min" and codec: "pp_length_codec p \<noteq> None"
      using that by (auto simp: plain_decode_def res_simps split: if_splits option.splits)
    then have ne: "ld_decode (drop ?sz buf) \<noteq> []"
      using that by (auto simp: plain_decode_unfold Let_def split: if_splits)
    have "drop ?sz (buf @ rest) = drop ?sz buf @ rest" and "?sz \<le> length buf"
      using len by (simp_all add: plain_get_min_size_def)
    then show ?thesis
      using dec len codec ne ld_decode_extend [OF ne]
      by (auto simp: plain_decode_unfold deserialize_loop_append Let_def)
  qed
  show "plain_decode nd p (buf @ rest) = (Inl e :: (plain_protocol \<times> nat \<times> bytes \<times> 't word) res)"
    if "plain_decode nd p buf = (Inl e :: (plain_protocol \<times> nat \<times> bytes \<times> 't word) res)"
    using that by (auto simp: plain_decode_def deserialize_def plain_get_min_size_def Let_def
        split: if_splits option.splits)
qed

interpretation plain_fr: framing "plain_decode nd :: plain_protocol \<Rightarrow> bytes
    \<Rightarrow> (plain_protocol \<times> nat \<times> bytes \<times> 16 word) res" for nd
  by (rule plain_framing)

text \<open>
  An established sender and a receiver with its codec are in step. A payload must be
  non-empty, fit in the length field and, where checks are compiled in, be at least as
  long as the topic (see \<open>plain_encode\<close>).
\<close>

definition plain_sync :: "plain_protocol \<Rightarrow> plain_protocol \<Rightarrow> bool" where
  "plain_sync s r \<longleftrightarrow> plain_is_established s \<and> plain_inv s \<and> pp_length_codec r \<noteq> None"

definition plain_sendable :: "bool \<Rightarrow> bytes \<Rightarrow> bool" where
  "plain_sendable nd d \<longleftrightarrow> d \<noteq> [] \<and> length d < 2 ^ 32 \<and> (nd \<or> 2 \<le> length d)"

interpretation plain_link: framed_link
    "plain_decode nd :: plain_protocol \<Rightarrow> bytes \<Rightarrow> (plain_protocol \<times> nat \<times> bytes \<times> 16 word) res"
    "plain_encode nd" plain_sync "plain_sendable nd" for nd
proof
  fix s r :: plain_protocol and d dst :: bytes and t :: "16 word" and e :: bool
  assume sync: "plain_sync s r" and send: "plain_sendable nd d"
  have "plain_encode nd s t d dst e = Inr (s, length (plain_frame t d), dst @ plain_frame t d)"
    using sync send
    by (intro plain_encode_frame) (auto simp: plain_sync_def plain_sendable_def sizeof_word_def)
  moreover have "plain_decode nd r (plain_frame t d @ rest) = Inr (r, length (plain_frame t d), d, t)"
    for rest
    using sync send
    by (intro plain_decode_frame) (auto simp: plain_sync_def plain_sendable_def sizeof_word_def)
  moreover have "plain_frame t d \<noteq> []"
    using send by (simp add: plain_frame_def plain_sendable_def)
  ultimately show "\<exists>s' frame. plain_encode nd s t d dst e = Inr (s', length frame, dst @ frame) \<and>
      frame \<noteq> [] \<and> (\<forall>rest. \<exists>r'. plain_decode nd r (frame @ rest) = Inr (r', length frame, d, t) \<and>
        plain_sync s' r')"
    using sync by blast
qed

end
