(* ===== verification/Stream_Protocol.thy ===== *)
theory Stream_Protocol
  imports Protocol
begin

text \<open>
  \<^verbatim>\<open>play/net/protocol/stream_protocol.hpp\<close> and \<^verbatim>\<open>.ipp\<close>: the bypass
  protocol, which passes the byte stream on as it is. Its topic type
  \<^verbatim>\<open>stream_protocol_topic\<close> is an empty struct, the one-element type here.
\<close>

section \<open>Definitions\<close>

datatype stream_protocol_topic = Stream_protocol_topic

record stream_protocol =
  sp_handle :: nat
  sp_accepted :: bool
  sp_connected :: bool
  sp_closed :: bool

definition stream_create :: "nat \<Rightarrow> stream_protocol" where
  "stream_create handle =
     \<lparr>sp_handle = handle, sp_accepted = False, sp_connected = False, sp_closed = True\<rparr>"

definition stream_accepted :: "bool \<Rightarrow> stream_protocol \<Rightarrow> (stream_protocol \<times> bytes) res" where
  "stream_accepted nd p =
     play_check nd (\<not> sp_accepted p) (play_check nd (\<not> sp_connected p)
       (play_check nd (sp_closed p)
         (Inr (p\<lparr>sp_accepted := True, sp_closed := False\<rparr>, []))))"

definition stream_connected :: "bool \<Rightarrow> stream_protocol \<Rightarrow> (stream_protocol \<times> bytes) res" where
  "stream_connected nd p =
     play_check nd (\<not> sp_accepted p) (play_check nd (\<not> sp_connected p)
       (play_check nd (sp_closed p)
         (Inr (p\<lparr>sp_connected := True, sp_closed := False\<rparr>, []))))"

definition stream_closed :: "stream_protocol \<Rightarrow> stream_protocol" where
  "stream_closed p = play_return_if (sp_closed p) p (p\<lparr>sp_closed := True\<rparr>)"

definition stream_is_established :: "stream_protocol \<Rightarrow> bool" where
  "stream_is_established p \<longleftrightarrow> (sp_accepted p \<or> sp_connected p) \<and> \<not> sp_closed p"

definition stream_encode :: "bool \<Rightarrow> stream_protocol \<Rightarrow> stream_protocol_topic \<Rightarrow> bytes \<Rightarrow> bytes
    \<Rightarrow> bool \<Rightarrow> (stream_protocol \<times> nat \<times> bytes) res" where
  "stream_encode nd p pic src dst ignore =
     play_check nd (\<not> sp_closed p)
      (if sp_closed p then Inr (p, 0, dst)
       else play_check nd (stream_is_established p) (Inr (p, length src, dst @ src)))"

definition stream_decode :: "bool \<Rightarrow> stream_protocol \<Rightarrow> bytes
    \<Rightarrow> (stream_protocol \<times> nat \<times> bytes \<times> stream_protocol_topic) res" where
  "stream_decode nd p src = Inr (p, length src, src, Stream_protocol_topic)"

definition stream_handshake :: "bool \<Rightarrow> stream_protocol \<Rightarrow> bytes
    \<Rightarrow> (stream_protocol \<times> nat \<times> bytes) res" where
  "stream_handshake nd p src = Inr (p, 0, [])"

definition stream_ops :: "(stream_protocol, stream_protocol_topic) protocol_ops" where
  "stream_ops = \<lparr>op_create = stream_create, op_accepted = stream_accepted,
     op_connected = stream_connected, op_closed = stream_closed, op_encode = stream_encode,
     op_decode = stream_decode, op_handshake = stream_handshake,
     op_is_established = stream_is_established, op_max_send_size = max_send_size\<rparr>"

section \<open>Lemmas\<close>

lemmas stream_defs = stream_create_def stream_accepted_def stream_connected_def stream_closed_def
  stream_is_established_def play_return_if_def

interpretation stream_lc: lifecycle stream_create stream_accepted stream_connected stream_closed
    stream_is_established
  by unfold_locales (auto simp: stream_defs res_simps)

text \<open>The bytes handed out are the bytes received, whatever the chunks.\<close>

lemma stream_drain:
  "drain (stream_decode nd) p buf =
     (p, [], if buf = [] then [] else [(Stream_protocol_topic, buf)], None)"
  by (simp add: drain.simps stream_decode_def)

end
