(* ===== verification/Sodium.thy ===== *)
theory Sodium
  imports Length_Delimited
begin

text \<open>
  \<^verbatim>\<open>play/net/protocol/sodium_handshake\<close> and \<^verbatim>\<open>sodium_cipher\<close>: the key and
  nonce exchange and the stream cipher. libsodium is not part of the repository: the
  record \<open>sodium\<close> is the parameter that stands for the functions the code calls, and
  \<open>sodium_ok\<close> collects what their documentation promises. The random draws of one
  connection are a function of a seed, chosen by the environment.

  Arrays that the constructor leaves uninitialized are empty lists until first written.
\<close>

section \<open>The library parameter\<close>

record sodium =
  key_bytes :: nat
  nonce_bytes :: nat
  seal_bytes :: nat
  kx_keypair :: "nat \<Rightarrow> bytes \<times> bytes"
  kx_server_session_keys :: "bytes \<Rightarrow> bytes \<Rightarrow> bytes \<Rightarrow> (bytes \<times> bytes) option"
  kx_client_session_keys :: "bytes \<Rightarrow> bytes \<Rightarrow> bytes \<Rightarrow> (bytes \<times> bytes) option"
  box_seal :: "nat \<Rightarrow> bytes \<Rightarrow> bytes \<Rightarrow> bytes"
  box_seal_open :: "bytes \<Rightarrow> bytes \<Rightarrow> bytes \<Rightarrow> bytes option"
  stream_chacha20_xor :: "bytes \<Rightarrow> bytes \<Rightarrow> bytes \<Rightarrow> bytes option"
  increment :: "bytes \<Rightarrow> bytes"
  randombytes :: "nat \<Rightarrow> nat \<Rightarrow> bytes"

text \<open>
  Key exchange: the client's receive key is the server's transmit key and the other way
  round. Sealed boxes open with the recipient's key pair. The stream cipher is its own
  inverse under the same nonce and key and keeps the length.
\<close>

definition kx_agrees :: "sodium \<Rightarrow> bool" where
  "kx_agrees S \<longleftrightarrow> (\<forall>a b. \<exists>rx tx.
     kx_client_session_keys S (fst (kx_keypair S a)) (snd (kx_keypair S a)) (fst (kx_keypair S b))
       = Some (rx, tx) \<and>
     kx_server_session_keys S (fst (kx_keypair S b)) (snd (kx_keypair S b)) (fst (kx_keypair S a))
       = Some (tx, rx))"

definition seal_opens :: "sodium \<Rightarrow> bool" where
  "seal_opens S \<longleftrightarrow> (\<forall>a r m.
     length (box_seal S r m (fst (kx_keypair S a))) = seal_bytes S + length m \<and>
     box_seal_open S (box_seal S r m (fst (kx_keypair S a))) (fst (kx_keypair S a)) (snd (kx_keypair S a))
       = Some m)"

definition xor_involutive :: "sodium \<Rightarrow> bool" where
  "xor_involutive S \<longleftrightarrow> (\<forall>m n k. \<exists>c. stream_chacha20_xor S m n k = Some c \<and>
     length c = length m \<and> stream_chacha20_xor S c n k = Some m)"

definition sodium_ok :: "sodium \<Rightarrow> bool" where
  "sodium_ok S \<longleftrightarrow> key_bytes S + seal_bytes S + nonce_bytes S < 2 ^ 31 \<and> (\<forall>a. length (fst (kx_keypair S a)) = key_bytes S) \<and>
     (\<forall>a n. length (randombytes S a n) = n) \<and> kx_agrees S \<and> seal_opens S \<and> xor_involutive S"

section \<open>The handshake\<close>

record sodium_handshake =
  hs_handle :: nat
  hs_seed :: nat
  hs_accepted :: bool
  hs_key_received :: bool
  hs_nonce_received :: bool
  hs_established :: bool
  hs_pub_key :: bytes
  hs_sec_key :: bytes
  hs_peer_pub_key :: bytes
  hs_rx_key :: bytes
  hs_tx_key :: bytes
  hs_rx_nonce :: bytes
  hs_tx_nonce :: bytes

definition nonce_exchange_size :: "sodium \<Rightarrow> nat" where
  "nonce_exchange_size S = seal_bytes S + nonce_bytes S + 1"

abbreviation tag_k :: byte where "tag_k \<equiv> 107"
abbreviation tag_n :: byte where "tag_n \<equiv> 110"

definition handshake_create :: "nat \<Rightarrow> nat \<Rightarrow> bool \<Rightarrow> sodium_handshake" where
  "handshake_create handle seed accepted = \<lparr>hs_handle = handle, hs_seed = seed,
     hs_accepted = accepted, hs_key_received = False, hs_nonce_received = False,
     hs_established = False, hs_pub_key = [], hs_sec_key = [], hs_peer_pub_key = [],
     hs_rx_key = [], hs_tx_key = [], hs_rx_nonce = [], hs_tx_nonce = []\<rparr>"

definition sync_key :: "sodium_handshake \<Rightarrow> bytes" where
  "sync_key h = tag_k # hs_pub_key h"

definition sync_nonce :: "sodium \<Rightarrow> sodium_handshake \<Rightarrow> bytes" where
  "sync_nonce S h = tag_n # box_seal S (hs_seed h) (hs_rx_nonce h) (hs_peer_pub_key h)"

definition handshake_prepare :: "sodium \<Rightarrow> sodium_handshake \<Rightarrow> sodium_handshake \<times> bytes" where
  "handshake_prepare S h =
     (let h' = h\<lparr>hs_pub_key := fst (kx_keypair S (hs_seed h)), hs_sec_key := snd (kx_keypair S (hs_seed h))\<rparr>
      in (h', sync_key h'))"

text \<open>The branch of \<^verbatim>\<open>on_handshake\<close> after the peer's key is known: open the nonce.\<close>

definition on_handshake_nonce :: "bool \<Rightarrow> sodium \<Rightarrow> sodium_handshake \<Rightarrow> bytes
    \<Rightarrow> (sodium_handshake \<times> nat \<times> bytes) res" where
  "on_handshake_nonce nd S h src =
     play_check nd (\<not> hs_nonce_received h) (play_check nd (\<not> hs_established h)
       (case src of [] \<Rightarrow> Inl Undefined
        | tag # sealed \<Rightarrow> play_check nd (tag = tag_n)
            (case box_seal_open S sealed (hs_pub_key h) (hs_sec_key h) of
               None \<Rightarrow> Inl (Thrown Handshake_exception)
             | Some m \<Rightarrow>
                 if length m > nonce_bytes S then Inl Undefined
                 else Inr (h\<lparr>hs_tx_nonce := m @ drop (length m) (hs_tx_nonce h),
                        hs_nonce_received := True, hs_established := True\<rparr>, length src, []))))"

text \<open>The branch that receives the peer's key, derives the session keys and answers with a nonce.\<close>

definition on_handshake_key :: "bool \<Rightarrow> sodium \<Rightarrow> sodium_handshake \<Rightarrow> bytes
    \<Rightarrow> (sodium_handshake \<times> nat \<times> bytes) res" where
  "on_handshake_key nd S h src =
     play_check nd (\<not> hs_nonce_received h) (play_check nd (\<not> hs_established h)
       (case src of [] \<Rightarrow> Inl Undefined
        | tag # key \<Rightarrow> play_check nd (tag = tag_k)
            (if length key < key_bytes S then Inl Undefined
             else let peer = take (key_bytes S) key;
                      keys = (if hs_accepted h
                        then kx_server_session_keys S (hs_pub_key h) (hs_sec_key h) peer
                        else kx_client_session_keys S (hs_pub_key h) (hs_sec_key h) peer)
                  in (case keys of
                        None \<Rightarrow> Inl (Thrown Handshake_exception)
                      | Some (rx, tx) \<Rightarrow>
                          let h' = h\<lparr>hs_peer_pub_key := peer, hs_rx_key := rx, hs_tx_key := tx,
                                hs_key_received := True,
                                hs_rx_nonce := randombytes S (hs_seed h) (nonce_bytes S)\<rparr>
                          in Inr (h', length src, sync_nonce S h')))))"

definition on_handshake :: "bool \<Rightarrow> sodium \<Rightarrow> sodium_handshake \<Rightarrow> bytes
    \<Rightarrow> (sodium_handshake \<times> nat \<times> bytes) res" where
  "on_handshake nd S h src =
     play_check nd (length src > 0)
      (play_check nd (length src = key_bytes S + 1 \<or> length src = nonce_exchange_size S)
        (if hs_key_received h then on_handshake_nonce nd S h src
         else on_handshake_key nd S h src))"

definition inc_tx_nonce :: "sodium \<Rightarrow> sodium_handshake \<Rightarrow> sodium_handshake" where
  "inc_tx_nonce S h = h\<lparr>hs_tx_nonce := increment S (hs_tx_nonce h)\<rparr>"

definition inc_rx_nonce :: "sodium \<Rightarrow> sodium_handshake \<Rightarrow> sodium_handshake" where
  "inc_rx_nonce S h = h\<lparr>hs_rx_nonce := increment S (hs_rx_nonce h)\<rparr>"

section \<open>The cipher\<close>

text \<open>The cipher holds a reference to the handshake, whose nonces it advances.\<close>

record sodium_cipher =
  ci_handle :: nat

definition cipher_encode_buf :: "bool \<Rightarrow> sodium \<Rightarrow> sodium_cipher \<Rightarrow> sodium_handshake \<Rightarrow> bytes \<Rightarrow> nat
    \<Rightarrow> (sodium_handshake \<times> nat \<times> bytes) res" where
  "cipher_encode_buf nd S ci h src dst_size =
     play_check nd (dst_size \<ge> length src)
      (if dst_size < length src then Inl Undefined
       else (case stream_chacha20_xor S src (hs_tx_nonce h) (hs_tx_key h) of
          None \<Rightarrow> Inl (Thrown Cipher_exception)
        | Some c \<Rightarrow> Inr (inc_tx_nonce S h, length src, c)))"

definition cipher_encode :: "bool \<Rightarrow> sodium \<Rightarrow> sodium_cipher \<Rightarrow> sodium_handshake \<Rightarrow> bytes \<Rightarrow> bytes
    \<Rightarrow> (sodium_handshake \<times> nat \<times> bytes) res" where
  "cipher_encode nd S ci h src dst =
     bind_res (cipher_encode_buf nd S ci h src (length src))
       (\<lambda>(h', _, c). Inr (h', length src, dst @ c))"

definition cipher_decode :: "sodium \<Rightarrow> sodium_cipher \<Rightarrow> sodium_handshake \<Rightarrow> bytes
    \<Rightarrow> (sodium_handshake \<times> nat \<times> bytes) res" where
  "cipher_decode S ci h src =
     (case stream_chacha20_xor S src (hs_rx_nonce h) (hs_rx_key h) of
        None \<Rightarrow> Inl (Thrown Cipher_exception)
      | Some m \<Rightarrow> Inr (inc_rx_nonce S h, length src, m))"

section \<open>Lemmas\<close>

text \<open>A receiver whose keys and nonces are the sender's.\<close>

definition cipher_sync :: "sodium_handshake \<Rightarrow> sodium_handshake \<Rightarrow> bool" where
  "cipher_sync s r \<longleftrightarrow> hs_tx_key s = hs_rx_key r \<and> hs_tx_nonce s = hs_rx_nonce r"

lemma cipher_sync_inc: "cipher_sync s r \<Longrightarrow> cipher_sync (inc_tx_nonce S s) (inc_rx_nonce S r)"
  by (simp add: cipher_sync_def inc_tx_nonce_def inc_rx_nonce_def)

lemma cipher_link:
  assumes "xor_involutive S" and "cipher_sync s r"
  shows "\<exists>c. cipher_encode_buf nd S ci s d (length d) = Inr (inc_tx_nonce S s, length d, c) \<and>
    length c = length d \<and> cipher_decode S ci' r c = Inr (inc_rx_nonce S r, length d, d)"
proof -
  obtain c where "stream_chacha20_xor S d (hs_tx_nonce s) (hs_tx_key s) = Some c"
    "length c = length d" "stream_chacha20_xor S c (hs_tx_nonce s) (hs_tx_key s) = Some d"
    using assms(1) unfolding xor_involutive_def by blast
  then show ?thesis
    using assms(2) by (auto simp: cipher_encode_buf_def cipher_decode_def cipher_sync_def)
qed

lemma cipher_decode_used: "cipher_decode S ci h m = Inr (h', u, d) \<Longrightarrow> u = length m"
  by (auto simp: cipher_decode_def split: option.splits)

lemma inc_established [simp]:
  "hs_established (inc_tx_nonce S h) = hs_established h"
  "hs_established (inc_rx_nonce S h) = hs_established h"
  by (simp_all add: inc_tx_nonce_def inc_rx_nonce_def)

lemma inc_cipher_sync_other [simp]:
  "cipher_sync (inc_rx_nonce S s) r = cipher_sync s r"
  "cipher_sync s (inc_tx_nonce S r) = cipher_sync s r"
  by (simp_all add: cipher_sync_def inc_tx_nonce_def inc_rx_nonce_def)

lemma prepare_fields:
  assumes "handshake_prepare S (handshake_create hdl seed acc) = (h, msg)"
  shows "hs_pub_key h = fst (kx_keypair S seed)" "hs_sec_key h = snd (kx_keypair S seed)"
    "hs_accepted h = acc" "hs_seed h = seed" "\<not> hs_key_received h" "\<not> hs_nonce_received h"
    "\<not> hs_established h" "hs_tx_nonce h = []" "msg = tag_k # fst (kx_keypair S seed)"
  using assms by (auto simp: handshake_prepare_def handshake_create_def sync_key_def Let_def)

text \<open>The key step of one side, given the peer's key message.\<close>

lemma on_handshake_key_step:
  assumes "\<not> hs_key_received h" "\<not> hs_nonce_received h" "\<not> hs_established h"
    and "length peer = key_bytes S"
    and "(if hs_accepted h then kx_server_session_keys S (hs_pub_key h) (hs_sec_key h) peer
          else kx_client_session_keys S (hs_pub_key h) (hs_sec_key h) peer) = Some (rx, tx)"
  shows "on_handshake nd S h (tag_k # peer) =
    (let h' = h\<lparr>hs_peer_pub_key := peer, hs_rx_key := rx, hs_tx_key := tx, hs_key_received := True,
           hs_rx_nonce := randombytes S (hs_seed h) (nonce_bytes S)\<rparr>
     in Inr (h', key_bytes S + 1, sync_nonce S h'))"
  using assms by (auto simp: on_handshake_def on_handshake_key_def Let_def)

text \<open>The nonce step of one side, given the peer's sealed nonce.\<close>

lemma on_handshake_nonce_step:
  assumes "hs_key_received h" "\<not> hs_nonce_received h" "\<not> hs_established h"
    and "length sealed = seal_bytes S + nonce_bytes S"
    and "box_seal_open S sealed (hs_pub_key h) (hs_sec_key h) = Some n"
    and "length n = nonce_bytes S" and "hs_tx_nonce h = []"
  shows "on_handshake nd S h (tag_n # sealed) =
    Inr (h\<lparr>hs_tx_nonce := n, hs_nonce_received := True, hs_established := True\<rparr>,
         seal_bytes S + nonce_bytes S + 1, [])"
  using assms by (auto simp: on_handshake_def on_handshake_nonce_def nonce_exchange_size_def)

end
