(* ===== verification/Secure_Protocol.thy ===== *)
theory Secure_Protocol
  imports Protocol Sodium
begin

text \<open>
  \<^verbatim>\<open>play/net/protocol/secure_protocol.hpp\<close> and \<^verbatim>\<open>.ipp\<close>: frames
  \<^verbatim>\<open>topic | enc{1} | length{4} | payload\<close> with optional encryption, after a
  handshake whose messages are length delimited. The thread-local buffer of
  \<^verbatim>\<open>encode_handshake\<close> is empty between calls (each call consumes what it encodes),
  so each call encodes into an empty buffer. The decoder decrypts in place; the bytes it
  overwrites are consumed by the session before they are read again. The size checks of
  the \<^verbatim>\<open>serializer\<close> calls compare a width with itself and always pass, so the
  loops are used directly.
\<close>

section \<open>Definitions\<close>

record secure_protocol =
  sec_handle :: nat
  sec_seed :: nat
  sec_accepted :: bool
  sec_connected :: bool
  sec_closed :: bool
  sec_cipher :: "sodium_cipher option"
  sec_handshake :: "sodium_handshake option"

definition enc_field_size :: nat where
  "enc_field_size = 1"

definition secure_create :: "(nat \<Rightarrow> nat) \<Rightarrow> nat \<Rightarrow> secure_protocol" where
  "secure_create rnd handle = \<lparr>sec_handle = handle, sec_seed = rnd handle, sec_accepted = False,
     sec_connected = False, sec_closed = True, sec_cipher = None, sec_handshake = None\<rparr>"

definition secure_is_established :: "secure_protocol \<Rightarrow> bool" where
  "secure_is_established p \<longleftrightarrow> \<not> sec_closed p \<and>
     (case sec_handshake p of None \<Rightarrow> False | Some h \<Rightarrow> hs_established h)"

definition encode_handshake :: "bool \<Rightarrow> bytes \<Rightarrow> bytes res" where
  "encode_handshake nd src =
     bind_res (ld_encode nd src []) (\<lambda>(size, buf).
       play_check nd (size = length src + length_field_size) (Inr buf))"

text \<open>\<^verbatim>\<open>accepted()\<close> and \<^verbatim>\<open>connected()\<close> differ in the flag they set and in the role.\<close>

definition secure_enter :: "bool \<Rightarrow> sodium \<Rightarrow> bool \<Rightarrow> secure_protocol
    \<Rightarrow> (secure_protocol \<times> bytes) res" where
  "secure_enter nd S acc p =
     (let (h, msg) = handshake_prepare S (handshake_create (sec_handle p) (sec_seed p) acc);
          p' = p\<lparr>sec_closed := False, sec_handshake := Some h,
                 sec_cipher := Some \<lparr>ci_handle = sec_handle p\<rparr>\<rparr>
      in bind_res (encode_handshake nd msg) (\<lambda>out. Inr (p', out)))"

definition secure_accepted :: "bool \<Rightarrow> sodium \<Rightarrow> secure_protocol \<Rightarrow> (secure_protocol \<times> bytes) res" where
  "secure_accepted nd S p =
     play_check nd (\<not> sec_accepted p) (play_check nd (\<not> sec_connected p)
       (play_check nd (sec_closed p) (play_check nd (sec_handshake p = None)
         (play_check nd (sec_cipher p = None)
           (secure_enter nd S True (p\<lparr>sec_accepted := True\<rparr>))))))"

definition secure_connected :: "bool \<Rightarrow> sodium \<Rightarrow> secure_protocol \<Rightarrow> (secure_protocol \<times> bytes) res" where
  "secure_connected nd S p =
     play_check nd (\<not> sec_accepted p) (play_check nd (\<not> sec_connected p)
       (play_check nd (sec_closed p) (play_check nd (sec_handshake p = None)
         (play_check nd (sec_cipher p = None)
           (secure_enter nd S False (p\<lparr>sec_connected := True\<rparr>))))))"

definition secure_closed :: "secure_protocol \<Rightarrow> secure_protocol" where
  "secure_closed p = play_return_if (sec_closed p) p (p\<lparr>sec_closed := True\<rparr>)"

definition secure_get_min_size :: "'t::len word itself \<Rightarrow> nat" where
  "secure_get_min_size T = length_field_size + sizeof_word T + enc_field_size"

text \<open>Topic, encryption flag and length, as \<^verbatim>\<open>encode\<close> writes them into the prepared space.\<close>

definition secure_header :: "'t::len word \<Rightarrow> bool \<Rightarrow> nat \<Rightarrow> bytes" where
  "secure_header pic encrypt len = serialize_loop (sizeof_word TYPE('t word)) pic @
     serialize_bool enc_field_size encrypt @ serialize_loop length_field_size (of_nat len :: 32 word)"

definition secure_encode :: "bool \<Rightarrow> sodium \<Rightarrow> secure_protocol \<Rightarrow> 't::len word \<Rightarrow> bytes \<Rightarrow> bytes \<Rightarrow> bool
    \<Rightarrow> (secure_protocol \<times> nat \<times> bytes) res" where
  "secure_encode nd S p pic src dst encrypt =
     play_check nd (\<not> sec_closed p)
      (if sec_closed p then Inr (p, 0, dst)
       else if \<not> secure_is_established p then Inr (p, 0, dst)
       else let header_len = length_field_size + sizeof_word TYPE('t word) + enc_field_size;
                total_len = length src + header_len;
                header = secure_header pic encrypt (length src)
         in if encrypt then
              (case (sec_cipher p, sec_handshake p) of
                 (Some ci, Some h) \<Rightarrow>
                   bind_res (cipher_encode_buf nd S ci h src (length src)) (\<lambda>(h', enc_len, c).
                     play_check nd (enc_len = length src)
                       (Inr (p\<lparr>sec_handshake := Some h'\<rparr>, total_len, dst @ header @ c)))
               | _ \<Rightarrow> Inl Undefined)
            else Inr (p, total_len, dst @ header @ src))"

definition secure_decode :: "bool \<Rightarrow> sodium \<Rightarrow> secure_protocol \<Rightarrow> bytes
    \<Rightarrow> (secure_protocol \<times> nat \<times> bytes \<times> 't::len word) res" where
  "secure_decode nd S p src =
     (if length src \<le> secure_get_min_size TYPE('t word) then Inr (p, 0, [], 0)
      else let sz = sizeof_word TYPE('t word);
               pic = deserialize_loop 0 sz src 0;
               encrypt = (src ! sz \<noteq> 0);
               len = unat (deserialize_loop 0 length_field_size (drop (sz + enc_field_size) src) 0 :: 32 word);
               total_len = len + length_field_size + sz + enc_field_size
        in if length src < total_len then Inr (p, 0, [], 0)
           else let payload = take len (drop (sz + enc_field_size + length_field_size) src)
             in if encrypt then
                  (case (sec_cipher p, sec_handshake p) of
                     (Some ci, Some h) \<Rightarrow>
                       bind_res (cipher_decode S ci h payload) (\<lambda>(h', used_len, dec_buf).
                         play_check nd (used_len = len)
                           (Inr (p\<lparr>sec_handshake := Some h'\<rparr>, total_len, dec_buf, pic)))
                   | _ \<Rightarrow> Inl Undefined)
                else Inr (p, total_len, payload, pic))"

definition secure_handshake :: "bool \<Rightarrow> sodium \<Rightarrow> secure_protocol \<Rightarrow> bytes
    \<Rightarrow> (secure_protocol \<times> nat \<times> bytes) res" where
  "secure_handshake nd S p src =
     (let payload = ld_decode src in
      if length payload > 0 then
        (case sec_handshake p of
           None \<Rightarrow> Inl Undefined
         | Some h \<Rightarrow>
             bind_res (on_handshake nd S h payload) (\<lambda>(h', used_len, resp).
               play_check nd (used_len = length payload)
                (let consumed_len = length payload + length_field_size;
                     p' = p\<lparr>sec_handshake := Some h'\<rparr>
                 in if length resp > 0
                    then bind_res (encode_handshake nd resp) (\<lambda>out. Inr (p', consumed_len, out))
                    else play_check nd (hs_established h') (Inr (p', consumed_len, [])))))
      else Inr (p, 0, []))"

definition secure_ops :: "sodium \<Rightarrow> (nat \<Rightarrow> nat) \<Rightarrow> (secure_protocol, 't::len word) protocol_ops" where
  "secure_ops S rnd = \<lparr>op_create = secure_create rnd, op_accepted = (\<lambda>nd. secure_accepted nd S),
     op_connected = (\<lambda>nd. secure_connected nd S), op_closed = secure_closed,
     op_encode = (\<lambda>nd. secure_encode nd S), op_decode = (\<lambda>nd. secure_decode nd S),
     op_handshake = (\<lambda>nd. secure_handshake nd S), op_is_established = secure_is_established,
     op_max_send_size = max_send_size\<rparr>"

section \<open>Lemmas: life cycle\<close>

lemmas secure_defs = secure_create_def secure_accepted_def secure_connected_def secure_enter_def
  secure_closed_def secure_is_established_def play_return_if_def

interpretation secure_lc: lifecycle "secure_create rnd" "\<lambda>nd. secure_accepted nd S"
    "\<lambda>nd. secure_connected nd S" secure_closed secure_is_established for rnd S
  by unfold_locales (auto simp: secure_defs res_simps Let_def split: prod.splits)

section \<open>Lemmas: framing\<close>

lemma length_secure_header [simp]:
  "length (secure_header (t :: 't::len word) e n) = secure_get_min_size TYPE('t word)"
  by (simp add: secure_header_def secure_get_min_size_def serialize_bool_def enc_field_size_def)

text \<open>The total length of the frame at the head of a buffer that holds a whole header.\<close>

definition secure_frame_len :: "'t::len word itself \<Rightarrow> bytes \<Rightarrow> nat" where
  "secure_frame_len T src =
     unat (deserialize_loop 0 length_field_size (drop (sizeof_word T + enc_field_size) src) 0 :: 32 word)
       + secure_get_min_size T"

lemma secure_frame_len_append:
  "secure_get_min_size T \<le> length src \<Longrightarrow> secure_frame_len T (src @ rest) = secure_frame_len T src"
  by (simp add: secure_frame_len_def secure_get_min_size_def deserialize_loop_append)

lemma secure_decode_more:
  "length src \<le> secure_get_min_size TYPE('t::len word) \<or> length src < secure_frame_len TYPE('t word) src \<Longrightarrow>
    secure_decode nd S p src = Inr (p, 0, [], 0 :: 't word)"
  by (auto simp: secure_decode_def secure_frame_len_def secure_get_min_size_def Let_def)

text \<open>With a whole frame in the buffer, the result depends on the frame alone.\<close>

lemma secure_decode_whole:
  fixes src :: bytes
  defines "n \<equiv> secure_frame_len TYPE('t::len word) src"
  assumes "secure_get_min_size TYPE('t word) < length src" and "n \<le> length src"
  shows "(secure_decode nd S p src :: (secure_protocol \<times> nat \<times> bytes \<times> 't word) res) =
    (let sz = sizeof_word TYPE('t word); payload = drop (secure_get_min_size TYPE('t word)) (take n src);
         pic = deserialize_loop 0 sz src 0 in
     if src ! sz \<noteq> 0 then
       (case (sec_cipher p, sec_handshake p) of
          (Some ci, Some h) \<Rightarrow>
            bind_res (cipher_decode S ci h payload) (\<lambda>(h', used_len, dec_buf).
              Inr (p\<lparr>sec_handshake := Some h'\<rparr>, n, dec_buf, pic))
        | _ \<Rightarrow> Inl Undefined)
     else Inr (p, n, payload, pic))"
  using assms(2,3)
  by (auto simp: secure_decode_def n_def secure_frame_len_def secure_get_min_size_def Let_def
      drop_take ac_simps bind_res_def play_check_def
      split: option.splits sum.splits dest!: cipher_decode_used)

lemma secure_decode_cases:
  obtains (more) "(secure_decode nd S p src :: (secure_protocol \<times> nat \<times> bytes \<times> 't::len word) res)
      = Inr (p, 0, [], 0)"
  | (whole) "secure_get_min_size TYPE('t word) < length src"
      "secure_frame_len TYPE('t word) src \<le> length src"
proof (cases "length src \<le> secure_get_min_size TYPE('t word) \<or>
    length src < secure_frame_len TYPE('t word) src")
  case True
  then show ?thesis using secure_decode_more more by blast
next
  case False
  then show ?thesis using whole by simp
qed

lemma secure_decode_extend:
  assumes "secure_get_min_size TYPE('t::len word) < length src"
    and "secure_frame_len TYPE('t word) src \<le> length src"
  shows "(secure_decode nd S p (src @ rest) :: (secure_protocol \<times> nat \<times> bytes \<times> 't word) res)
    = secure_decode nd S p src"
proof -
  have sz: "sizeof_word TYPE('t word) < length src"
    using assms(1) by (simp add: secure_get_min_size_def)
  have len: "secure_frame_len TYPE('t word) (src @ rest) = secure_frame_len TYPE('t word) src"
    using assms(1) by (simp add: secure_frame_len_append)
  show ?thesis
    using assms sz len
    by (simp add: secure_decode_whole deserialize_loop_append Let_def split: option.split)
qed

lemma secure_decode_consumes:
  assumes "secure_decode nd S p src = Inr (p', n, f, t :: 't::len word)"
  shows "(n = 0 \<and> p' = p) \<or> (0 < n \<and> n \<le> length src \<and>
    secure_get_min_size TYPE('t word) < length src \<and> secure_frame_len TYPE('t word) src \<le> length src)"
proof (cases rule: secure_decode_cases [where nd = nd and S = S and p = p and src = src and 't = 't])
  case more
  then show ?thesis using assms by simp
next
  case whole
  have "n = secure_frame_len TYPE('t word) src"
    using assms whole by (auto simp: secure_decode_whole Let_def res_simps split: if_splits option.splits)
  moreover have "0 < secure_frame_len TYPE('t word) src"
    by (simp add: secure_frame_len_def secure_get_min_size_def enc_field_size_def)
  ultimately show ?thesis using whole by simp
qed

interpretation secure_fr: framing "secure_decode nd S :: secure_protocol \<Rightarrow> bytes
    \<Rightarrow> (secure_protocol \<times> nat \<times> bytes \<times> 't::len word) res" for nd S
proof
  fix p p' :: secure_protocol and buf rest f :: bytes and n :: nat and t :: "'t word" and e :: fault
  show "p' = p" if "secure_decode nd S p buf = Inr (p', 0, f, t)"
    using secure_decode_consumes [OF that] by simp
  show "n \<le> length buf" if "secure_decode nd S p buf = Inr (p', n, f, t)"
    using secure_decode_consumes [OF that] by auto
  show "secure_decode nd S p (buf @ rest) = Inr (p', n, f, t)"
    if "secure_decode nd S p buf = Inr (p', n, f, t)" and "0 < n"
    using secure_decode_consumes [OF that(1)] that secure_decode_extend by (metis less_numeral_extra(3))
  show "secure_decode nd S p (buf @ rest) = (Inl e :: (secure_protocol \<times> nat \<times> bytes \<times> 't word) res)"
    if "secure_decode nd S p buf = (Inl e :: (secure_protocol \<times> nat \<times> bytes \<times> 't word) res)"
  proof (cases rule: secure_decode_cases [where nd = nd and S = S and p = p and src = buf and 't = 't])
    case more
    then show ?thesis using that by simp
  next
    case whole
    then show ?thesis using that secure_decode_extend [OF whole] by simp
  qed
qed

section \<open>Lemmas: encryption round trip\<close>

lemma secure_header_fields:
  fixes t :: "'t::len word"
  assumes "LENGTH('t) = 8 * sizeof_word TYPE('t word)" and "n < 2 ^ 32"
  shows "secure_frame_len TYPE('t word) (secure_header t e n @ rest) = n + secure_get_min_size TYPE('t word)"
    and "(secure_header t e n @ rest) ! sizeof_word TYPE('t word) = (if e then 1 else 0)"
    and "deserialize_loop 0 (sizeof_word TYPE('t word)) (secure_header t e n @ rest) 0 = t"
proof -
  have "drop (sizeof_word TYPE('t word) + enc_field_size) (secure_header t e n @ rest) =
      serialize_loop length_field_size (of_nat n :: 32 word) @ rest"
    by (simp add: secure_header_def serialize_bool_def enc_field_size_def)
  moreover have "deserialize_loop 0 length_field_size
      (serialize_loop length_field_size (of_nat n :: 32 word) @ rest) 0 = (of_nat n :: 32 word)"
    by (rule deserialize_serialize_loop) (simp add: length_field_size_def)
  ultimately show "secure_frame_len TYPE('t word) (secure_header t e n @ rest) =
      n + secure_get_min_size TYPE('t word)"
    using assms(2) by (simp add: secure_frame_len_def unsigned_of_nat take_bit_nat_eq_self)
  show "(secure_header t e n @ rest) ! sizeof_word TYPE('t word) = (if e then 1 else 0)"
    by (simp add: secure_header_def serialize_bool_def nth_append)
  show "deserialize_loop 0 (sizeof_word TYPE('t word)) (secure_header t e n @ rest) 0 = t"
    unfolding secure_header_def append_assoc
    by (rule deserialize_serialize_loop) (simp add: assms(1))
qed

definition secure_sync :: "secure_protocol \<Rightarrow> secure_protocol \<Rightarrow> bool" where
  "secure_sync s r \<longleftrightarrow> secure_is_established s \<and> sec_cipher s \<noteq> None \<and> sec_cipher r \<noteq> None \<and>
     (\<exists>hs hr. sec_handshake s = Some hs \<and> sec_handshake r = Some hr \<and> cipher_sync hs hr)"

definition secure_sendable :: "bytes \<Rightarrow> bool" where
  "secure_sendable d \<longleftrightarrow> d \<noteq> [] \<and> length d < 2 ^ 32"

lemma secure_link_ok:
  fixes t :: "'t::len word"
  assumes S: "xor_involutive S" and T: "LENGTH('t) = 8 * sizeof_word TYPE('t word)"
    and sync: "secure_sync s r" and send: "secure_sendable d"
  shows "\<exists>s' frame. secure_encode nd S s t d dst e = Inr (s', length frame, dst @ frame) \<and> frame \<noteq> [] \<and>
    (\<forall>rest. \<exists>r'. secure_decode nd S r (frame @ rest) = Inr (r', length frame, d, t) \<and> secure_sync s' r')"
proof -
  let ?min = "secure_get_min_size TYPE('t word)"
  obtain hs hr ci ci' where st: "sec_handshake s = Some hs" "sec_handshake r = Some hr"
    "sec_cipher s = Some ci" "sec_cipher r = Some ci'" "cipher_sync hs hr"
    using sync by (auto simp: secure_sync_def)
  have est: "secure_is_established s" "\<not> sec_closed s"
    using sync by (auto simp: secure_sync_def secure_is_established_def)
  obtain c where c: "cipher_encode_buf nd S ci hs d (length d) = Inr (inc_tx_nonce S hs, length d, c)"
    "length c = length d" "cipher_decode S ci' hr c = Inr (inc_rx_nonce S hr, length d, d)"
    using cipher_link [OF S st(5)] by blast
  define body where "body = (if e then c else d)"
  define frame where "frame = secure_header t e (length d) @ body"
  define s' where "s' = (if e then s\<lparr>sec_handshake := Some (inc_tx_nonce S hs)\<rparr> else s)"
  define r' where "r' = (if e then r\<lparr>sec_handshake := Some (inc_rx_nonce S hr)\<rparr> else r)"
  have len: "length body = length d" "length frame = length d + ?min"
    using c(2) by (simp_all add: body_def frame_def)
  have "secure_encode nd S s t d dst e = Inr (s', length frame, dst @ frame)"
    using est st c(1,2) len(2)
    by (auto simp: secure_encode_def frame_def body_def s'_def secure_get_min_size_def)
  moreover have "secure_sync s' r'"
    using sync st est cipher_sync_inc [OF st(5), of S]
    by (auto simp: s'_def r'_def secure_sync_def secure_is_established_def)
  moreover have "secure_decode nd S r (frame @ rest) = Inr (r', length frame, d, t)" for rest
  proof -
    have fr: "secure_frame_len TYPE('t word) (frame @ rest) = length frame"
      and flag: "(frame @ rest) ! sizeof_word TYPE('t word) = (if e then 1 else 0)"
      and pic: "deserialize_loop 0 (sizeof_word TYPE('t word)) (frame @ rest) 0 = t"
      using secure_header_fields [OF T, of "length d" t e "body @ rest"] send len
      by (simp_all add: frame_def secure_sendable_def)
    have "?min < length (frame @ rest)"
      using send len by (simp add: secure_sendable_def)
    moreover have "drop ?min (take (length frame) (frame @ rest)) = body"
      by (simp add: frame_def)
    ultimately show ?thesis
      using fr flag pic c(3) st
      by (simp add: secure_decode_whole r'_def body_def)
  qed
  moreover have "frame \<noteq> []" using len send by (auto simp: secure_sendable_def)
  ultimately show ?thesis by blast
qed

lemma secure_framed_link:
  assumes "xor_involutive S"
  shows "framed_link (secure_decode nd S :: secure_protocol \<Rightarrow> bytes
      \<Rightarrow> (secure_protocol \<times> nat \<times> bytes \<times> 16 word) res) (secure_encode nd S) secure_sync secure_sendable"
  using assms by unfold_locales (rule secure_link_ok, simp_all add: sizeof_word_def)

section \<open>Lemmas: the handshake\<close>

lemma encode_handshake_Inr: "m \<noteq> [] \<Longrightarrow> encode_handshake nd m = Inr (ld_header (length m) @ m)"
  by (simp add: encode_handshake_def ld_encode_Inr)

lemma secure_enter_Inr:
  assumes "handshake_prepare S (handshake_create (sec_handle p) (sec_seed p) acc) = (h, msg)"
  shows "secure_enter nd S acc p = Inr (p\<lparr>sec_closed := False, sec_handshake := Some h,
      sec_cipher := Some \<lparr>ci_handle = sec_handle p\<rparr>\<rparr>, ld_header (length msg) @ msg)"
  using assms prepare_fields(9) [OF assms] by (simp add: secure_enter_def encode_handshake_Inr)

lemma secure_enter_returns: "\<exists>p' out. secure_enter nd S acc p = Inr (p', out)"
  by (metis secure_enter_Inr surj_pair)

text \<open>One handshake message received whole: the handshake object makes one step.\<close>

lemma secure_handshake_message:
  assumes "m \<noteq> []" and "length m < 2 ^ 32" and "sec_handshake p = Some h"
    and "on_handshake nd S h m = Inr (h', length m, resp)" and "resp = [] \<Longrightarrow> hs_established h'"
  shows "secure_handshake nd S p (ld_header (length m) @ m @ rest) =
    Inr (p\<lparr>sec_handshake := Some h'\<rparr>, length (ld_header (length m) @ m),
         if resp = [] then [] else ld_header (length resp) @ resp)"
  using assms by (auto simp: secure_handshake_def ld_decode_encoded encode_handshake_Inr Let_def)

text \<open>
  Both sides of the exchange at the level of the handshake objects: after the peer's key and
  the peer's nonce, one side transmits with what the other receives with.
\<close>

lemma handshake_exchange:
  assumes ok: "sodium_ok S"
    and a: "handshake_prepare S (handshake_create ha sa True) = (a0, ka)"
    and b: "handshake_prepare S (handshake_create hb sb False) = (b0, kb)"
  obtains a1 na b1 nb a2 b2 where
    "on_handshake nd S a0 kb = Inr (a1, length kb, na)" "na \<noteq> []" "length na < 2 ^ 32"
    "on_handshake nd S b0 ka = Inr (b1, length ka, nb)" "nb \<noteq> []" "length nb < 2 ^ 32"
    "on_handshake nd S a1 nb = Inr (a2, length nb, [])" "hs_established a2"
    "on_handshake nd S b1 na = Inr (b2, length na, [])" "hs_established b2"
    "cipher_sync a2 b2" "cipher_sync b2 a2"
proof -
  let ?kp = "kx_keypair S" and ?n = "\<lambda>s. randombytes S s (nonce_bytes S)"
  note fa = prepare_fields [OF a] and fb = prepare_fields [OF b]
  have lens: "length (fst (?kp s)) = key_bytes S" "length (?n s) = nonce_bytes S" for s
    using ok by (auto simp: sodium_ok_def)
  obtain rx tx where kx:
    "kx_client_session_keys S (fst (?kp sb)) (snd (?kp sb)) (fst (?kp sa)) = Some (rx, tx)"
    "kx_server_session_keys S (fst (?kp sa)) (snd (?kp sa)) (fst (?kp sb)) = Some (tx, rx)"
    using ok unfolding sodium_ok_def kx_agrees_def by blast
  have seal: "length (box_seal S r m (fst (?kp s))) = seal_bytes S + length m"
    "box_seal_open S (box_seal S r m (fst (?kp s))) (fst (?kp s)) (snd (?kp s)) = Some m" for r m s
    using ok unfolding sodium_ok_def seal_opens_def by auto
  define a1 where "a1 = a0\<lparr>hs_peer_pub_key := fst (?kp sb), hs_rx_key := tx, hs_tx_key := rx,
      hs_key_received := True, hs_rx_nonce := ?n sa\<rparr>"
  define b1 where "b1 = b0\<lparr>hs_peer_pub_key := fst (?kp sa), hs_rx_key := rx, hs_tx_key := tx,
      hs_key_received := True, hs_rx_nonce := ?n sb\<rparr>"
  have A1: "on_handshake nd S a0 kb = Inr (a1, length kb, sync_nonce S a1)"
    and B1: "on_handshake nd S b0 ka = Inr (b1, length ka, sync_nonce S b1)"
    using fa fb lens kx by (simp_all add: on_handshake_key_step a1_def b1_def Let_def)
  have nonces: "sync_nonce S a1 = tag_n # box_seal S sa (?n sa) (fst (?kp sb))"
    "sync_nonce S b1 = tag_n # box_seal S sb (?n sb) (fst (?kp sa))"
    using fa fb by (simp_all add: sync_nonce_def a1_def b1_def)
  define a2 where "a2 = a1\<lparr>hs_tx_nonce := ?n sb, hs_nonce_received := True, hs_established := True\<rparr>"
  define b2 where "b2 = b1\<lparr>hs_tx_nonce := ?n sa, hs_nonce_received := True, hs_established := True\<rparr>"
  have "on_handshake nd S a1 (sync_nonce S b1) = Inr (a2, length (sync_nonce S b1), [])"
    "on_handshake nd S b1 (sync_nonce S a1) = Inr (b2, length (sync_nonce S a1), [])"
    unfolding nonces using fa fb seal lens
    by (simp_all add: on_handshake_nonce_step a1_def b1_def a2_def b2_def)
  moreover have "cipher_sync a2 b2" "cipher_sync b2 a2" "hs_established a2" "hs_established b2"
    by (simp_all add: cipher_sync_def a2_def b2_def a1_def b1_def)
  moreover have "length (sync_nonce S a1) < 2 ^ 32" "length (sync_nonce S b1) < 2 ^ 32"
    using ok seal lens by (simp_all add: nonces sodium_ok_def)
  ultimately show ?thesis using A1 B1 nonces that by fastforce
qed

text \<open>
  The exchange at the level of the protocol objects, with further bytes behind each message.
\<close>

definition exchange_result :: "bool \<Rightarrow> sodium \<Rightarrow> secure_protocol \<Rightarrow> bytes \<Rightarrow> secure_protocol \<Rightarrow> bytes
    \<Rightarrow> secure_protocol \<Rightarrow> bytes \<Rightarrow> secure_protocol \<Rightarrow> bytes \<Rightarrow> secure_protocol \<Rightarrow> secure_protocol \<Rightarrow> bool" where
  "exchange_result nd S a0 ka b0 kb a1 na b1 nb a2 b2 \<longleftrightarrow>
     (\<forall>rest. secure_handshake nd S a0 (kb @ rest) = Inr (a1, length kb, na)) \<and>
     (\<forall>rest. secure_handshake nd S b0 (ka @ rest) = Inr (b1, length ka, nb)) \<and>
     (\<forall>rest. secure_handshake nd S a1 (nb @ rest) = Inr (a2, length nb, [])) \<and>
     (\<forall>rest. secure_handshake nd S b1 (na @ rest) = Inr (b2, length na, [])) \<and>
     \<not> secure_is_established a1 \<and> \<not> secure_is_established b1 \<and> na \<noteq> [] \<and> nb \<noteq> [] \<and>
     secure_is_established a2 \<and> secure_is_established b2 \<and> secure_sync a2 b2 \<and> secure_sync b2 a2"

lemma secure_accepted_fresh:
  "secure_accepted nd S (secure_create rnd h) =
    secure_enter nd S True ((secure_create rnd h)\<lparr>sec_accepted := True\<rparr>)"
  "secure_connected nd S (secure_create rnd h) =
    secure_enter nd S False ((secure_create rnd h)\<lparr>sec_connected := True\<rparr>)"
  by (simp_all add: secure_accepted_def secure_connected_def secure_create_def)

lemma on_handshake_key_not_established:
  "on_handshake nd S h m = Inr (h', n, resp) \<Longrightarrow> \<not> hs_key_received h \<Longrightarrow> \<not> hs_established h \<Longrightarrow>
    \<not> hs_established h'"
  by (auto simp: on_handshake_def on_handshake_key_def res_simps Let_def
      split: list.splits if_splits option.splits)

lemma secure_exchange:
  assumes ok: "sodium_ok S"
    and a0: "secure_accepted nd S (secure_create rnd ha) = Inr (a0, ka)"
    and b0: "secure_connected nd S (secure_create rnd hb) = Inr (b0, kb)"
  shows "\<exists>a1 na b1 nb a2 b2. exchange_result nd S a0 ka b0 kb a1 na b1 nb a2 b2"
proof -
  obtain g0 mka where ga: "handshake_prepare S (handshake_create ha (rnd ha) True) = (g0, mka)"
    by (metis surj_pair)
  obtain h0 mkb where hb: "handshake_prepare S (handshake_create hb (rnd hb) False) = (h0, mkb)"
    by (metis surj_pair)
  have A: "sec_handshake a0 = Some g0" "\<not> sec_closed a0" "sec_cipher a0 \<noteq> None"
      "ka = ld_header (length mka) @ mka"
    using a0 [unfolded secure_accepted_fresh] ga secure_enter_Inr [of S "(secure_create rnd ha)\<lparr>sec_accepted := True\<rparr>" True g0 mka nd]
    by (auto simp: secure_create_def)
  have B: "sec_handshake b0 = Some h0" "\<not> sec_closed b0" "sec_cipher b0 \<noteq> None"
      "kb = ld_header (length mkb) @ mkb"
    using b0 [unfolded secure_accepted_fresh] hb secure_enter_Inr [of S "(secure_create rnd hb)\<lparr>sec_connected := True\<rparr>" False h0 mkb nd]
    by (auto simp: secure_create_def)
  note fa = prepare_fields [OF ga] and fb = prepare_fields [OF hb]
  have small: "mka \<noteq> []" "length mka < 2 ^ 32" "mkb \<noteq> []" "length mkb < 2 ^ 32"
    using ok fa(9) fb(9) by (auto simp: sodium_ok_def)
  obtain g1 na h1 nb g2 h2 where ex:
    "on_handshake nd S g0 mkb = Inr (g1, length mkb, na)" "na \<noteq> []" "length na < 2 ^ 32"
    "on_handshake nd S h0 mka = Inr (h1, length mka, nb)" "nb \<noteq> []" "length nb < 2 ^ 32"
    "on_handshake nd S g1 nb = Inr (g2, length nb, [])" "hs_established g2"
    "on_handshake nd S h1 na = Inr (h2, length na, [])" "hs_established h2"
    "cipher_sync g2 h2" "cipher_sync h2 g2"
    using handshake_exchange [OF ok ga hb, of nd] by metis
  have ne: "\<not> hs_established g1" "\<not> hs_established h1"
    using on_handshake_key_not_established [OF ex(1)] on_handshake_key_not_established [OF ex(4)] fa fb
    by auto
  let ?a1 = "a0\<lparr>sec_handshake := Some g1\<rparr>" and ?b1 = "b0\<lparr>sec_handshake := Some h1\<rparr>"
  have "exchange_result nd S a0 ka b0 kb ?a1 (ld_header (length na) @ na) ?b1 (ld_header (length nb) @ nb)
      (a0\<lparr>sec_handshake := Some g2\<rparr>) (b0\<lparr>sec_handshake := Some h2\<rparr>)"
    unfolding exchange_result_def
    using secure_handshake_message [OF small(3,4) A(1) ex(1)] ex(2)
      secure_handshake_message [OF small(1,2) B(1) ex(4)] ex(5)
      secure_handshake_message [OF ex(5,6) _ ex(7), of ?a1] ex(8)
      secure_handshake_message [OF ex(2,3) _ ex(9), of ?b1] ex(10,11,12) A B ne
    by (simp add: secure_is_established_def secure_sync_def)
  then show ?thesis by blast
qed

end
