(* ===== verification/Transport.thy ===== *)
theory Transport
  imports Session Plain_Protocol Stream_Protocol Secure_Protocol
begin

text \<open>
  Sessions over the three protocols of the repository. The locale \<open>framed_transport\<close>
  puts the contracts together that one session needs to talk to another: its sender is a
  byte queue, its receiver is independent of segmentation, and what one encodes the other
  decodes. The plain and the secure protocol are instances; the properties at the end are
  about sessions over them.
\<close>

section \<open>Traffic of a sending application\<close>

text \<open>The messages an event list sends, and events that only send well-formed messages and complete sends.\<close>

fun sent_messages :: "'t session_event list \<Rightarrow> ('t \<times> bytes) list" where
  "sent_messages [] = []"
| "sent_messages (Ev_send t d e # es) = (t, d) # sent_messages es"
| "sent_messages (_ # es) = sent_messages es"

fun sender_event :: "('p, 't) protocol_ops \<Rightarrow> (bytes \<Rightarrow> bool) \<Rightarrow> 't session_event \<Rightarrow> bool" where
  "sender_event P ok (Ev_send t d e) \<longleftrightarrow> ok d \<and> d \<noteq> [] \<and> length d < op_max_send_size P"
| "sender_event P ok (Ev_sent ec len) \<longleftrightarrow> ec = 0"
| "sender_event P ok _ \<longleftrightarrow> False"

text \<open>A session that is up and has nothing left to send.\<close>

definition idle_open :: "'p session \<Rightarrow> 'p \<Rightarrow> bool" where
  "idle_open s p \<longleftrightarrow> se_open s \<and> se_protocol s = Some p \<and> send_inv s \<and> acc_buf s = []"

section \<open>The transport contract\<close>

locale framed_transport =
  framed_session P nd + appending P nd + framed_link "op_decode P nd" "op_encode P nd" sync sendable
  for P :: "('p, 't) protocol_ops" and nd :: bool and sync :: "'p \<Rightarrow> 'p \<Rightarrow> bool"
    and sendable :: "bytes \<Rightarrow> bool" +
  assumes sendable_nonempty: "sendable d \<Longrightarrow> d \<noteq> []"
begin

lemma start_send_ok: "\<not> se_sending s \<Longrightarrow>
    \<exists>s' out. (start_send nd s :: ('p, 't) session_res) = Inr (s', out) \<and>
    se_open s' = se_open s \<and> se_protocol s' = se_protocol s"
  by (simp add: start_send_def Let_def)

lemma sender_step:
  assumes "sender_event P sendable e" and "full_send s e"
    and "se_open s" and "se_protocol s = Some p" and "sync p r"
  shows "\<exists>s' out p' r'. session_step P nd s e = Inr (s', out) \<and> se_open s' \<and>
    se_protocol s' = Some p' \<and> sync p' r' \<and>
    drain (op_decode P nd) r (appended P nd s e) = (r', [], sent_messages [e], None)"
proof (cases e)
  case (Ev_send t d enc)
  then have d: "sendable d" "d \<noteq> []" "length d < op_max_send_size P" using assms(1) by auto
  obtain p' frame where enc0: "op_encode P nd p t d [] enc = Inr (p', length frame, frame)"
    and ne: "frame \<noteq> []"
    and dec: "\<forall>rest. \<exists>r'. op_decode P nd r (frame @ rest) = Inr (r', length frame, d, t) \<and> sync p' r'"
    using encode_ok [OF assms(5) d(1), of t "[]" enc] by auto
  then obtain r' where r': "op_decode P nd r frame = Inr (r', length frame, d, t)" "sync p' r'"
    using dec [rule_format, of "[]"] by auto
  have enc1: "op_encode P nd p t d (acc_buf s) enc = Inr (p', length frame, acc_buf s @ frame)"
    using encode_appends [of p t d "acc_buf s" enc] enc0 by simp
  let ?s = "s\<lparr>se_protocol := Some p', se_send_bufs := (se_send_bufs s)(se_acc_index s := acc_buf s @ frame)\<rparr>"
  have "\<exists>s' out. session_step P nd s e = Inr (s', out) \<and> se_open s' \<and> se_protocol s' = Some p'"
    using Ev_send d assms(3,4) enc1 start_send_ok [of ?s]
    by (cases "se_sending s") (auto simp: session_send_def Let_def)
  moreover have "appended P nd s e = frame"
    using Ev_send d assms(3,4) enc0 by simp
  moreover have "drain (op_decode P nd) r frame = (r', [], [(t, d)], None)"
    using ne r' by (simp add: drain.simps [of _ r] drain.simps [of _ r'])
  ultimately show ?thesis using Ev_send r'(2) by auto
next
  case (Ev_sent ec len)
  then have ec: "ec = 0" "se_sending s" using assms(1,2) by auto
  let ?s = "s\<lparr>se_send_bufs := (se_send_bufs s)(\<not> se_acc_index s := drop len (inflight s)), se_sending := False\<rparr>"
  have "\<exists>s' out. session_step P nd s e = Inr (s', out) \<and> se_open s' \<and> se_protocol s' = Some p"
    using Ev_sent ec assms(3,4) start_send_ok [of ?s] by (auto simp: handle_send_def Let_def)
  then show ?thesis using Ev_sent assms(5) by (auto simp: drain.simps)
qed (use assms(1) in auto)

lemma sender_run:
  assumes "list_all (sender_event P sendable) es" and "full_sends P nd s es"
    and "se_open s" and "se_protocol s = Some p" and "sync p r"
  shows "\<exists>s' out p' r'. session_run P nd s es = Inr (s', out) \<and> sync p' r' \<and>
    drain (op_decode P nd) r (appended_run P nd s es) = (r', [], sent_messages es, None)"
  using assms
proof (induction es arbitrary: s p r)
  case Nil
  then show ?case by (auto simp: drain.simps)
next
  case (Cons e es)
  from Cons.prems obtain s1 o1 p1 r1 where step: "session_step P nd s e = Inr (s1, o1)"
    "se_open s1" "se_protocol s1 = Some p1" "sync p1 r1"
    "drain (op_decode P nd) r (appended P nd s e) = (r1, [], sent_messages [e], None)"
    using sender_step [of e s p r] by auto
  obtain s' o2 p' r' where run: "session_run P nd s1 es = Inr (s', o2)" "sync p' r'"
    "drain (op_decode P nd) r1 (appended_run P nd s1 es) = (r', [], sent_messages es, None)"
    using Cons.IH [of s1 p1 r1] Cons.prems step by auto
  have "sent_messages (e # es) = sent_messages [e] @ sent_messages es" by (cases e) simp_all
  then have "drain (op_decode P nd) r (appended_run P nd s (e # es)) = (r', [], sent_messages (e # es), None)"
    using drain_append [of r "appended P nd s e"] step run by simp
  with step(1) run(1,2) show ?case by auto
qed

lemma sent_messages_nonempty:
  "list_all (sender_event P sendable) es \<Longrightarrow> \<forall>(t, f) \<in> set (sent_messages es). f \<noteq> []"
  by (induction es rule: sent_messages.induct) auto

text \<open>What an application sends on one end is what the application on the other end receives.\<close>

lemma end_to_end:
  assumes idle: "idle_open s p" and "sync p q" and "se_protocol r = Some q" and "op_is_established P q"
    and "se_recv_buf r = []"
    and ev: "list_all (sender_event P sendable) es" and full: "full_sends P nd s es"
    and run: "session_run P nd s es = Inr (s', out)" and empty: "acc_buf s' = []"
    and "chunks \<noteq> []" and wire: "concat chunks = sent_bytes out"
  shows "\<exists>r' out'. session_run P nd r (map (Ev_recv 0) chunks) = Inr (r', out') \<and>
    delivered out' = sent_messages es"
proof -
  obtain q' where dr: "drain (op_decode P nd) q (appended_run P nd s es) = (q', [], sent_messages es, None)"
    using sender_run [OF ev full, of p q] assms(1,2) unfolding idle_open_def by blast
  have "sent_bytes out = appended_run P nd s es"
    using session_run_forwards [OF run] idle full empty by (auto simp: idle_open_def forwards_def)
  then show ?thesis
    using dr wire recv_chunks [of chunks r q q' "[]" "sent_messages es"] assms(3-5,10)
      sent_messages_nonempty [OF ev]
    by fastforce
qed

lemma sender_returns:
  assumes "idle_open s p" and "sync p q"
    and "list_all (sender_event P sendable) es" and "full_sends P nd s es"
  shows "\<exists>s' out. session_run P nd s es = Inr (s', out)"
  using sender_run [OF assms(3,4), of p q] assms(1,2) unfolding idle_open_def by blast

end

section \<open>The protocols of the repository as transports\<close>

lemma plain_encode_appends:
  "plain_encode nd p pic data dst enc =
    bind_res (plain_encode nd p pic data [] enc) (\<lambda>(p', n, x). Inr (p', n, dst @ x))"
  by (auto simp: plain_encode_def serialize_def ld_encode_def ld_encode_buf_def play_check_def Let_def
      split: option.split)

interpretation plain_tr: framed_transport "plain_ops :: (plain_protocol, 16 word) protocol_ops" nd
    plain_sync "plain_sendable nd" for nd
proof -
  have fr: "framing (op_decode (plain_ops :: (plain_protocol, 16 word) protocol_ops) nd)"
    using plain_framing by (simp add: plain_ops_def)
  have app: "appending (plain_ops :: (plain_protocol, 16 word) protocol_ops) nd"
    by unfold_locales (simp add: plain_ops_def, rule plain_encode_appends)
  have link: "framed_link (op_decode (plain_ops :: (plain_protocol, 16 word) protocol_ops) nd)
      (op_encode plain_ops nd) plain_sync (plain_sendable nd)"
    using plain_link.framed_link_axioms by (simp add: plain_ops_def)
  have est: "framed_session_axioms (plain_ops :: (plain_protocol, 16 word) protocol_ops) nd"
    by (rule framed_session_axioms.intro)
      (auto simp: plain_ops_def plain_decode_def Let_def res_simps split: if_splits option.splits)
  show "framed_transport (plain_ops :: (plain_protocol, 16 word) protocol_ops) nd plain_sync
      (plain_sendable nd)"
    using fr app link est
    by (simp add: framed_transport_def framed_session_def framed_transport_axioms_def plain_sendable_def)
qed

interpretation stream_app: appending stream_ops nd for nd
  by unfold_locales (auto simp: stream_ops_def stream_encode_def play_check_def)

lemma secure_encode_appends:
  "secure_encode nd S p pic data dst enc =
    bind_res (secure_encode nd S p pic data [] enc) (\<lambda>(p', n, x). Inr (p', n, dst @ x))"
  by (auto simp: secure_encode_def play_check_def bind_res_def Let_def split: option.split sum.split)

interpretation secure_app: appending "secure_ops S rnd :: (secure_protocol, 't::len word) protocol_ops" nd
  for S rnd nd
  by unfold_locales (simp add: secure_ops_def, rule secure_encode_appends)

lemma secure_decode_established:
  assumes "secure_decode nd S p buf = Inr (p', n, f, t)"
  shows "secure_is_established p' = secure_is_established p"
  using assms
  by (auto simp: secure_decode_def cipher_decode_def secure_is_established_def Let_def res_simps
      split: if_splits option.splits)

interpretation secure_se: framed_session
    "secure_ops S rnd :: (secure_protocol, 't::len word) protocol_ops" nd for S rnd nd
proof -
  have "framing (op_decode (secure_ops S rnd :: (secure_protocol, 't word) protocol_ops) nd)"
    using secure_fr.framing_axioms by (simp add: secure_ops_def)
  moreover have "framed_session_axioms (secure_ops S rnd :: (secure_protocol, 't word) protocol_ops) nd"
    by (rule framed_session_axioms.intro) (auto simp: secure_ops_def dest: secure_decode_established)
  ultimately show "framed_session (secure_ops S rnd :: (secure_protocol, 't word) protocol_ops) nd"
    by (simp add: framed_session_def)
qed

lemma secure_transport:
  assumes "xor_involutive S"
  shows "framed_transport (secure_ops S rnd :: (secure_protocol, 16 word) protocol_ops) nd
    secure_sync secure_sendable"
proof -
  have "framed_link (op_decode (secure_ops S rnd :: (secure_protocol, 16 word) protocol_ops) nd)
      (op_encode (secure_ops S rnd) nd) secure_sync secure_sendable"
    using secure_framed_link [OF assms, of nd] by (simp add: secure_ops_def)
  then show ?thesis
    by (simp add: framed_transport_def framed_transport_axioms_def secure_sendable_def
        secure_se.framed_session_axioms secure_app.appending_axioms)
qed

section \<open>Properties\<close>

text \<open>Concrete sessions and traffic for the witnesses.\<close>

definition demo_session :: "'p \<Rightarrow> 'p session" where
  "demo_session p = (session_create True)\<lparr>se_open := True, se_native := 5, se_handle := 5,
     se_protocol := Some p\<rparr>"

definition demo_plain :: plain_protocol where
  "demo_plain = \<lparr>pp_handle = 5, pp_accepted = True, pp_connected = False, pp_closed = False,
     pp_length_codec = Some \<lparr>ld_handle = 5\<rparr>\<rparr>"

definition demo_traffic :: "16 word session_event list" where
  "demo_traffic = [Ev_send 201 [1, 2, 3] False, Ev_send 202 [4, 5] False, Ev_sent 0 9, Ev_sent 0 8]"


lemma demo_plain_hyps:
  "idle_open (demo_session demo_plain) demo_plain" "plain_sync demo_plain demo_plain"
  "plain_is_established demo_plain"
  "list_all (sender_event (plain_ops :: (plain_protocol, 16 word) protocol_ops) (plain_sendable False)) demo_traffic"
  by (simp_all add: idle_open_def demo_session_def session_create_def send_inv_def plain_sync_def
      plain_is_established_def plain_inv_def demo_plain_def demo_traffic_def plain_sendable_def
      plain_ops_def max_send_size_def)

lemma demo_plain_run:
  "full_sends (plain_ops :: (plain_protocol, 16 word) protocol_ops) False (demo_session demo_plain) demo_traffic"
  "case session_run (plain_ops :: (plain_protocol, 16 word) protocol_ops) False (demo_session demo_plain)
     demo_traffic of Inl _ \<Rightarrow> False | Inr (s', out) \<Rightarrow> acc_buf s' = [] \<and>
     concat [[201, 0, 3], [0, 0, 0, 1, 2, 3, 202, 0, 2, 0, 0, 0], [4, 5]] = sent_bytes out"
  by (simp_all add: demo_session_def session_create_def demo_plain_def demo_traffic_def plain_ops_def
      max_send_size_def session_send_def plain_encode_def serialize_def sizeof_word_def
      plain_is_established_def ld_encode_def ld_encode_buf_def ld_header_def length_field_size_def
      start_send_def handle_send_def Let_def)


text \<open>A concrete library for the witnesses: shared keys by addition, a fixed key stream.\<close>

definition toy_sodium :: sodium where
  "toy_sodium = \<lparr>key_bytes = 2, nonce_bytes = 2, seal_bytes = 3,
     kx_keypair = (\<lambda>a. ([of_nat a, 1], [of_nat a, 1])),
     kx_server_session_keys = (\<lambda>pk sk peer. Some (map2 (+) sk peer, map2 (\<lambda>x y. x + y + 1) sk peer)),
     kx_client_session_keys = (\<lambda>pk sk peer. Some (map2 (\<lambda>x y. x + y + 1) sk peer, map2 (+) sk peer)),
     box_seal = (\<lambda>r m pk. [0, 0, 0] @ m), box_seal_open = (\<lambda>c pk sk. Some (drop 3 c)),
     stream_chacha20_xor = (\<lambda>m n k. Some (map (\<lambda>x. x XOR 90) m)),
     increment = map (\<lambda>x. x + 1), randombytes = (\<lambda>a n. replicate n (of_nat a))\<rparr>"

lemma toy_sodium_ok: "sodium_ok toy_sodium"
proof -
  have "kx_agrees toy_sodium"
    by (simp add: kx_agrees_def toy_sodium_def add.commute)
  moreover have "seal_opens toy_sodium"
    by (simp add: seal_opens_def toy_sodium_def)
  moreover have "xor_involutive toy_sodium"
    by (simp add: xor_involutive_def toy_sodium_def comp_def xor.assoc)
  ultimately show ?thesis
    by (simp add: sodium_ok_def toy_sodium_def)
qed

text \<open>
  C4. Key and nonce exchange: when the accepting side and the connecting side exchange their
  messages, both become established, neither before it has the peer's nonce, and each
  encrypts with the key and nonce the other decrypts with.
\<close>

theorem secure_handshake_agreement:
  assumes "sodium_ok S"
    and "secure_accepted nd S (secure_create rnd ha) = Inr (a0, ka)"
    and "secure_connected nd S (secure_create rnd hb) = Inr (b0, kb)"
  shows "\<exists>a1 na b1 nb a2 b2. exchange_result nd S a0 ka b0 kb a1 na b1 nb a2 b2"
  using assms by (rule secure_exchange)

theorem secure_handshake_agreement_witness:
  "\<exists>a0 ka b0 kb a1 na b1 nb a2 b2.
     secure_accepted False toy_sodium (secure_create (\<lambda>h. h) 5) = Inr (a0, ka) \<and>
     exchange_result False toy_sodium a0 ka b0 kb a1 na b1 nb a2 b2"
proof -
  obtain a0 ka where a: "secure_accepted False toy_sodium (secure_create (\<lambda>h. h) 5) = Inr (a0, ka)"
    using secure_enter_returns by (metis secure_accepted_fresh)
  obtain b0 kb where b: "secure_connected False toy_sodium (secure_create (\<lambda>h. h) 7) = Inr (b0, kb)"
    using secure_enter_returns by (metis secure_accepted_fresh)
  show ?thesis using a secure_handshake_agreement [OF toy_sodium_ok a b] by blast
qed


definition demo_handshake :: sodium_handshake where
  "demo_handshake = \<lparr>hs_handle = 5, hs_seed = 5, hs_accepted = True, hs_key_received = True,
     hs_nonce_received = True, hs_established = True, hs_pub_key = [5, 1], hs_sec_key = [5, 1],
     hs_peer_pub_key = [7, 1], hs_rx_key = [12, 2], hs_tx_key = [12, 2],
     hs_rx_nonce = [1, 1], hs_tx_nonce = [1, 1]\<rparr>"

definition demo_secure :: secure_protocol where
  "demo_secure = \<lparr>sec_handle = 5, sec_seed = 5, sec_accepted = True, sec_connected = False,
     sec_closed = False, sec_cipher = Some \<lparr>ci_handle = 5\<rparr>, sec_handshake = Some demo_handshake\<rparr>"

definition demo_secure_traffic :: "16 word session_event list" where
  "demo_secure_traffic = [Ev_send 201 [1] True, Ev_sent 0 8]"

lemma demo_secure_hyps:
  "xor_involutive toy_sodium" "idle_open (demo_session demo_secure) demo_secure"
  "secure_sync demo_secure demo_secure" "secure_is_established demo_secure"
  "list_all (sender_event (secure_ops toy_sodium id :: (secure_protocol, 16 word) protocol_ops) secure_sendable)
     demo_secure_traffic"
  using toy_sodium_ok
  by (simp_all add: sodium_ok_def idle_open_def demo_session_def session_create_def send_inv_def
      secure_sync_def secure_is_established_def demo_secure_def demo_handshake_def cipher_sync_def
      demo_secure_traffic_def secure_sendable_def secure_ops_def max_send_size_def)

lemma demo_secure_run:
  "full_sends (secure_ops toy_sodium id :: (secure_protocol, 16 word) protocol_ops) False
     (demo_session demo_secure) demo_secure_traffic"
  "case session_run (secure_ops toy_sodium id :: (secure_protocol, 16 word) protocol_ops) False
     (demo_session demo_secure) demo_secure_traffic of Inl _ \<Rightarrow> False | Inr (s', out) \<Rightarrow> acc_buf s' = [] \<and>
     concat [[201, 0, 1, 1, 0, 0, 0, 91]] = sent_bytes out"
  by (simp_all add: demo_session_def session_create_def demo_secure_def demo_handshake_def
      demo_secure_traffic_def secure_ops_def max_send_size_def session_send_def secure_encode_def
      secure_is_established_def secure_header_def serialize_bool_def cipher_encode_buf_def toy_sodium_def
      sizeof_word_def enc_field_size_def length_field_size_def inc_tx_nonce_def start_send_def
      handle_send_def Let_def)


text \<open>
  C16. The double-buffered sender is a byte queue: over any run of a session (start, sends, raw
  sends, close, completions, receptions) in which completed sends report whole buffers,
  the bytes handed to the socket followed by the bytes still gathered are the bytes
  gathered before followed by everything the run added, in that order: nothing is lost,
  duplicated or reordered. At most one send is under way, and none only when nothing is
  left.
\<close>

theorem session_send_fifo:
  assumes "session_run (secure_ops S rnd :: (secure_protocol, 't::len word) protocol_ops) nd s es = Inr (s', out)"
    and "send_inv s" and "full_sends (secure_ops S rnd) nd s es"
  shows "send_inv s' \<and> sent_bytes out @ acc_buf s' = acc_buf s @ appended_run (secure_ops S rnd) nd s es"
  using secure_app.session_run_forwards [OF assms] by (simp add: forwards_def)

theorem session_send_fifo_witness:
  "\<exists>s' out. session_run (secure_ops toy_sodium id :: (secure_protocol, 16 word) protocol_ops) False
      (demo_session demo_secure) demo_secure_traffic = Inr (s', out) \<and> send_inv s' \<and>
    sent_bytes out = appended_run (secure_ops toy_sodium id) False (demo_session demo_secure) demo_secure_traffic"
proof -
  obtain s' out where run: "session_run (secure_ops toy_sodium id :: (secure_protocol, 16 word) protocol_ops)
      False (demo_session demo_secure) demo_secure_traffic = Inr (s', out)" "acc_buf s' = []"
    using demo_secure_run(2) by (auto split: sum.splits)
  have "send_inv (demo_session demo_secure)" "acc_buf (demo_session demo_secure) = []"
    using demo_secure_hyps(2) by (simp_all add: idle_open_def)
  then show ?thesis
    using run session_send_fifo [OF run(1) _ demo_secure_run(1)] by auto
qed



text \<open>
  C34. A send that completes in part: \<^verbatim>\<open>async_send\<close> may transmit fewer bytes than it
  was given. \<^verbatim>\<open>handle_send\<close> then starts sending the accumulation buffer, and the
  unsent rest of the older buffer is left behind it: older bytes go out after newer ones.
\<close>

theorem partial_send_reorders:
  assumes "se_sending s" and "len < length (inflight s)" and "acc_buf s \<noteq> []"
  shows "\<exists>s'. handle_send P nd s 0 len = Inr (s', [Async_send (acc_buf s)]) \<and>
    acc_buf s' = drop len (inflight s) \<and> acc_buf s' \<noteq> []"
  using assms by (simp add: handle_send_def start_send_def Let_def)

theorem partial_send_reorders_witness:
  "\<exists>s'. handle_send (plain_ops :: (plain_protocol, 16 word) protocol_ops) False
      ((demo_session demo_plain)\<lparr>se_sending := True, se_send_bufs := (\<lambda>i. if i then [1, 2] else [3])\<rparr>) 0 1
    = Inr (s', [Async_send [3]]) \<and> acc_buf s' = [2]"
  using partial_send_reorders [of "(demo_session demo_plain)\<lparr>se_sending := True,
      se_send_bufs := (\<lambda>i. if i then [1, 2] else [3])\<rparr>" 1
      "plain_ops :: (plain_protocol, 16 word) protocol_ops" False]
  by (auto simp add: demo_session_def session_create_def)



text \<open>
  A session the application closes itself never reports its end: after
  \<^verbatim>\<open>close()\<close>, whatever completions follow, \<^verbatim>\<open>on_closed\<close> is not called.
\<close>

theorem local_close_is_silent:
  fixes P :: "('p, 't) protocol_ops"
  assumes "session_run P nd s (Ev_close # es) = Inr (s', out)"
  shows "closed_reports out = 0"
proof -
  obtain s1 and o1 :: "'t session_out list" where c: "session_close s = (s1, o1)" by (metis surj_pair)
  with assms obtain o2 where "session_run P nd s1 es = Inr (s', o2)" "out = o1 @ o2"
    by (auto simp: then_do_eq_Inr bind_res_eq_Inr)
  with session_run_closed [of P nd s1 es s' o2] session_close_frame [OF c] show ?thesis by simp
qed

theorem local_close_is_silent_witness:
  "closed_reports [Sock_close :: 16 word session_out] = 0 \<and>
   session_run (plain_ops :: (plain_protocol, 16 word) protocol_ops) False (demo_session demo_plain)
     [Ev_close, Ev_recv 125 []] = Inr ((demo_session demo_plain)\<lparr>se_open := False\<rparr>, [Sock_close])"
proof -
  have run: "session_run (plain_ops :: (plain_protocol, 16 word) protocol_ops) False (demo_session demo_plain)
     [Ev_close, Ev_recv 125 []] = Inr ((demo_session demo_plain)\<lparr>se_open := False\<rparr>, [Sock_close])"
    by (simp add: handle_recv_def handle_close_def session_close_def demo_session_def session_create_def)
  then show ?thesis using local_close_is_silent [OF run] by simp
qed

end
