(* ===== verification/Transport_Edge.thy ===== *)
theory Transport_Edge
  imports Transport
begin

text \<open>
  Sessions at the edges of their contract: segmentation of arbitrary input, a handshake whose
  messages arrive together, frames without payload, payloads shorter than the topic, and
  messages sent before the handshake is done.
\<close>

section \<open>Segmentation\<close>

text \<open>
  C20. For every byte stream a secure session can decode, not only one an honest peer encoded,
  and for every way to cut it into chunks, the session delivers the same frames: those of
  the decoding loop run on the whole stream at once, and keeps the same undecoded rest.
\<close>

theorem secure_recv_segmentation:
  assumes "chunks \<noteq> []" and "se_protocol s = Some p" and "secure_is_established p"
    and "drain (secure_decode nd S) p (se_recv_buf s @ concat chunks) = (q, rest, fs, None)"
    and "nd \<or> (\<forall>(t, f) \<in> set fs. f \<noteq> [])"
  shows "\<exists>out. session_run (secure_ops S rnd :: (secure_protocol, 't::len word) protocol_ops) nd s
      (map (Ev_recv 0) chunks) = Inr (s\<lparr>se_protocol := Some q, se_recv_buf := rest\<rparr>, out) \<and>
    delivered out = fs"
  using secure_se.recv_chunks [OF assms(1,2), of S rnd nd] assms(3-) by (simp add: secure_ops_def)

lemma demo_secure_drain:
  "drain (secure_decode False toy_sodium :: secure_protocol \<Rightarrow> bytes \<Rightarrow> (secure_protocol \<times> nat \<times> bytes \<times> 16 word) res)
     demo_secure [201, 0, 0, 1, 0, 0, 0, 91, 7] = (demo_secure, [7], [(201, [91])], None)"
  by (simp add: drain.simps secure_decode_def secure_get_min_size_def sizeof_word_def enc_field_size_def
      length_field_size_def Let_def)

theorem secure_recv_segmentation_witness:
  "\<exists>out. session_run (secure_ops toy_sodium id :: (secure_protocol, 16 word) protocol_ops) False
      (demo_session demo_secure) (map (Ev_recv 0) [[201, 0, 0], [1, 0, 0, 0, 91, 7]]) =
      Inr ((demo_session demo_secure)\<lparr>se_recv_buf := [7]\<rparr>, out) \<and> delivered out = [(201, [91])]"
proof -
  have "(demo_session demo_secure)\<lparr>se_protocol := Some demo_secure, se_recv_buf := [7]\<rparr> =
      (demo_session demo_secure)\<lparr>se_recv_buf := [7]\<rparr>"
    by (simp add: demo_session_def session_create_def)
  then show ?thesis
    using secure_recv_segmentation [where S = toy_sodium and rnd = id and nd = False and
        chunks = "[[201, 0, 0], [1, 0, 0, 0, 91, 7]]" and s = "demo_session demo_secure" and
        p = demo_secure and q = demo_secure and rest = "[7]" and fs = "[(201 :: 16 word, [91])]"]
      demo_secure_hyps(4) demo_secure_drain
    by (simp add: demo_session_def session_create_def del: session_run.simps)
qed

section \<open>Handshake\<close>



text \<open>
  A message sent before the handshake is done is dropped: nothing is written and the
  session is unchanged, yet \<^verbatim>\<open>send\<close> returns true.
\<close>

theorem secure_send_before_established_is_dropped:
  assumes "se_open s" and "se_protocol s = Some p" and "\<not> sec_closed p" and "\<not> secure_is_established p"
    and "data \<noteq> []" and "length data < max_send_size" and "send_inv s"
  shows "session_send (secure_ops S rnd :: (secure_protocol, 't::len word) protocol_ops) nd s pic data enc
    = Inr (s, [], True)"
  using assms
  by (cases s) (auto simp: session_send_def secure_ops_def secure_encode_def start_send_def send_inv_def
      Let_def fun_upd_idem split: if_splits)

theorem secure_send_before_established_is_dropped_witness:
  "session_send (secure_ops toy_sodium id :: (secure_protocol, 16 word) protocol_ops) False
     (demo_session (demo_secure\<lparr>sec_handshake := Some (demo_handshake\<lparr>hs_established := False\<rparr>)\<rparr>)) 201 [1, 2] True
   = Inr (demo_session (demo_secure\<lparr>sec_handshake := Some (demo_handshake\<lparr>hs_established := False\<rparr>)\<rparr>), [], True)"
  using secure_send_before_established_is_dropped [of
      "demo_session (demo_secure\<lparr>sec_handshake := Some (demo_handshake\<lparr>hs_established := False\<rparr>)\<rparr>)"
      "demo_secure\<lparr>sec_handshake := Some (demo_handshake\<lparr>hs_established := False\<rparr>)\<rparr>" "[1, 2]"
      toy_sodium id False 201 True]
  by (simp add: demo_session_def session_create_def demo_secure_def demo_handshake_def
      secure_is_established_def max_send_size_def send_inv_def)

section \<open>Frames without payload\<close>

lemma plain_decode_zero_length:
  assumes "pp_length_codec p \<noteq> None"
  shows "plain_decode nd p (serialize_loop (sizeof_word TYPE('t word)) (t :: 't::len word) @ ld_header 0 @ rest)
    = Inr (p, 0, [], 0 :: 't word)"
  using assms
  by (auto simp: plain_decode_def deserialize_def ld_decode_def ld_decode_len_header_only
      plain_get_min_size_def Let_def play_check_def split: option.split)

lemma plain_zero_length_drain:
  assumes "pp_length_codec p \<noteq> None"
  shows "drain (plain_decode nd) p (serialize_loop (sizeof_word TYPE('t word)) (t :: 't::len word) @ ld_header 0 @ rest)
    = (p, serialize_loop (sizeof_word TYPE('t word)) t @ ld_header 0 @ rest, [] :: ('t word \<times> bytes) list, None)"
  using plain_decode_zero_length [OF assms, of nd t rest]
  by (simp add: drain.simps length_field_size_def)

text \<open>
  A plain frame of length zero blocks its session for good: whatever follows, nothing is
  delivered any more and every received byte stays in the receive buffer.
\<close>

theorem plain_zero_length_frame_blocks:
  assumes "se_protocol s = Some p" and "plain_is_established p" and "plain_inv p"
    and "se_recv_buf s = serialize_loop (sizeof_word TYPE(16 word)) (t :: 16 word) @ ld_header 0"
    and "chunks \<noteq> []"
  shows "\<exists>out. session_run (plain_ops :: (plain_protocol, 16 word) protocol_ops) nd s (map (Ev_recv 0) chunks)
      = Inr (s\<lparr>se_recv_buf := se_recv_buf s @ concat chunks\<rparr>, out) \<and> delivered out = []"
proof -
  have codec: "pp_length_codec p \<noteq> None" using assms(2,3) by (simp add: plain_inv_def)
  have "s\<lparr>se_protocol := Some p, se_recv_buf := b\<rparr> = s\<lparr>se_recv_buf := b\<rparr>" for b
    using assms(1) by (cases s) simp
  then show ?thesis
    using plain_tr.recv_chunks [OF assms(5,1), of nd p "se_recv_buf s @ concat chunks" "[]"] assms(2)
      plain_zero_length_drain [OF codec, of nd t "concat chunks"] assms(4)
    by (simp add: plain_ops_def)
qed

theorem plain_zero_length_frame_blocks_witness:
  "\<exists>out. session_run (plain_ops :: (plain_protocol, 16 word) protocol_ops) False
      ((demo_session demo_plain)\<lparr>se_recv_buf := [7, 0, 0, 0, 0, 0]\<rparr>) (map (Ev_recv 0) [[1, 2, 3]])
      = Inr ((demo_session demo_plain)\<lparr>se_recv_buf := [7, 0, 0, 0, 0, 0, 1, 2, 3]\<rparr>, out) \<and> delivered out = []"
  using plain_zero_length_frame_blocks [of "(demo_session demo_plain)\<lparr>se_recv_buf := [7, 0, 0, 0, 0, 0]\<rparr>"
      demo_plain 7 "[[1, 2, 3]]" False]
  by (simp add: demo_session_def session_create_def demo_plain_def plain_is_established_def plain_inv_def
      sizeof_word_def ld_header_def length_field_size_def del: session_run.simps)

text \<open>
  A frame of length zero on a secure session fails the check in \<^verbatim>\<open>recv_frames\<close>
  once the next byte is there: a peer can abort a build with assertions.
\<close>

theorem secure_zero_length_frame_aborts:
  assumes "se_protocol s = Some p" and "secure_is_established p" and "se_recv_buf s = []"
  shows "handle_recv (secure_ops S rnd :: (secure_protocol, 't::len word) protocol_ops) False s 0
    (secure_header (pic :: 't word) False 0 @ [b]) = Inl Check_failed"
proof -
  have len: "secure_frame_len TYPE('t word) (secure_header pic False 0 @ [b]) = secure_get_min_size TYPE('t word)"
    by (simp add: secure_frame_len_def secure_header_def serialize_bool_def enc_field_size_def
        length_field_size_def)
  have hl: "length (secure_header pic False 0) = secure_get_min_size TYPE('t word)"
    by (simp add: secure_header_def serialize_bool_def enc_field_size_def secure_get_min_size_def)
  have flag: "(secure_header pic False 0 @ [b]) ! sizeof_word TYPE('t word) = 0"
    by (simp add: secure_header_def serialize_bool_def nth_append)
  have "secure_decode False S p (secure_header pic False 0 @ [b]) =
      Inr (p, secure_get_min_size TYPE('t word), [],
        deserialize_loop 0 (sizeof_word TYPE('t word)) (secure_header pic False 0 @ [b]) (0 :: 't word))"
    using len hl flag by (subst secure_decode_whole) (simp_all add: Let_def)
  moreover have "0 < secure_get_min_size TYPE('t word)"
    by (simp add: secure_get_min_size_def enc_field_size_def)
  ultimately show ?thesis
    using assms by (simp add: handle_recv_def secure_ops_def recv_frames.simps)
qed

theorem secure_zero_length_frame_aborts_witness:
  "handle_recv (secure_ops toy_sodium id :: (secure_protocol, 16 word) protocol_ops) False
     (demo_session demo_secure) 0 [201, 0, 0, 0, 0, 0, 0, 9] = Inl Check_failed"
  using secure_zero_length_frame_aborts [of "demo_session demo_secure" demo_secure toy_sodium id "201 :: 16 word" 9]
    demo_secure_hyps(4)
  by (simp add: demo_session_def session_create_def secure_header_def serialize_bool_def sizeof_word_def
      length_field_size_def)

text \<open>
  A payload shorter than the topic cannot be sent over the plain protocol in a build with
  assertions: the topic is serialized with the payload's size as the size of its buffer.
\<close>

theorem plain_short_payload_aborts:
  assumes "se_open s" and "se_protocol s = Some p" and "plain_is_established p"
    and "data \<noteq> []" and "length data < sizeof_word TYPE('t::len word)" and "length data < max_send_size"
  shows "session_send (plain_ops :: (plain_protocol, 't word) protocol_ops) False s pic data enc = Inl Check_failed"
  using assms
  by (auto simp: session_send_def plain_ops_def plain_encode_def plain_is_established_def serialize_def
      play_check_def)

theorem plain_short_payload_aborts_witness:
  "session_send (plain_ops :: (plain_protocol, 16 word) protocol_ops) False (demo_session demo_plain) 7 [1] False
    = Inl Check_failed"
  using plain_short_payload_aborts [where 't = 16, of "demo_session demo_plain" demo_plain "[1]" 7 False]
  by (simp add: demo_session_def session_create_def demo_plain_def plain_is_established_def sizeof_word_def
      max_send_size_def)

end
