(* ===== verification/Endpoint.thy ===== *)
theory Endpoint
  imports Session
begin

text \<open>
  \<^verbatim>\<open>play/net/session_handler.hpp\<close> and \<^verbatim>\<open>pulse_listener.hpp\<close>: the interface
  through which a session reports to the server or client that owns it, and through which
  these report on to the pulse bound to them. A session is known by its address. The locale
  \<open>session_handler\<close> states what the three callbacks owe the pulse; the server and the
  client interpret it.
\<close>

section \<open>Outputs of an endpoint\<close>

text \<open>
  \<open>Handle_established\<close>, \<open>Handle_closed\<close> and \<open>Handle_receive\<close> are the virtual functions of a
  derived class, \<open>Pulse_established\<close>, \<open>Pulse_closed\<close> and \<open>Pulse_receive\<close> are the calls on
  the bound \<^verbatim>\<open>pulse_listener\<close> (its address first). \<open>Socket\<close> passes on what the session
  asks of its socket.
\<close>

datatype 't endpoint_out =
    Handle_established nat
  | Handle_closed nat nat
  | Handle_receive nat 't bytes
  | Pulse_established nat nat
  | Pulse_closed nat nat nat
  | Pulse_receive nat nat 't bytes
  | Async_accept nat
  | Async_connect nat
  | Socket nat "'t session_out"

text \<open>What the pulse hears, in order: a session output with the session's address.\<close>

fun pulse_calls :: "'t endpoint_out list \<Rightarrow> (nat \<times> 't session_out) list" where
  "pulse_calls [] = []"
| "pulse_calls (Pulse_established l a # out) = (a, On_established) # pulse_calls out"
| "pulse_calls (Pulse_closed l a ec # out) = (a, On_closed ec) # pulse_calls out"
| "pulse_calls (Pulse_receive l a t d # out) = (a, On_receive t d) # pulse_calls out"
| "pulse_calls (_ # out) = pulse_calls out"

text \<open>The calls a session makes on its handler, as opposed to socket operations.\<close>

fun is_report :: "'t session_out \<Rightarrow> bool" where
  "is_report (Async_send _) \<longleftrightarrow> False"
| "is_report Async_recv \<longleftrightarrow> False"
| "is_report Sock_close \<longleftrightarrow> False"
| "is_report _ \<longleftrightarrow> True"

text \<open>Hand the outputs of a session step to its handler, one after the other.\<close>

fun report :: "('s \<Rightarrow> nat \<Rightarrow> 's \<times> 't endpoint_out list) \<Rightarrow> ('s \<Rightarrow> nat \<Rightarrow> nat \<Rightarrow> 's \<times> 't endpoint_out list)
    \<Rightarrow> ('s \<Rightarrow> nat \<Rightarrow> 't \<Rightarrow> bytes \<Rightarrow> 's \<times> 't endpoint_out list) \<Rightarrow> 's \<Rightarrow> nat \<Rightarrow> 't session_out list
    \<Rightarrow> 's \<times> 't endpoint_out list" where
  "report est cls rcv s a [] = (s, [])"
| "report est cls rcv s a (x # xs) =
     (let (s1, o1) = (case x of
            On_established \<Rightarrow> est s a
          | On_closed ec \<Rightarrow> cls s a ec
          | On_receive t d \<Rightarrow> rcv s a t d
          | _ \<Rightarrow> (s, [Socket a x]));
          (s2, o2) = report est cls rcv s1 a xs
      in (s2, o1 @ o2))"

lemma pulse_calls_append [simp]: "pulse_calls (a @ b) = pulse_calls a @ pulse_calls b"
  by (induction a rule: pulse_calls.induct) simp_all

section \<open>The contract of a session handler\<close>

text \<open>
  A handler keeps its pulse, and each callback reaches the pulse exactly once when one is
  bound and not at all otherwise.
\<close>

locale session_handler =
  fixes pulse_of :: "'s \<Rightarrow> nat"
    and est :: "'s \<Rightarrow> nat \<Rightarrow> 's \<times> 't endpoint_out list"
    and cls :: "'s \<Rightarrow> nat \<Rightarrow> nat \<Rightarrow> 's \<times> 't endpoint_out list"
    and rcv :: "'s \<Rightarrow> nat \<Rightarrow> 't \<Rightarrow> bytes \<Rightarrow> 's \<times> 't endpoint_out list"
  assumes est_pulse: "est s a = (s', out) \<Longrightarrow> pulse_of s' = pulse_of s \<and>
        pulse_calls out = (if pulse_of s \<noteq> 0 then [(a, On_established)] else [])"
    and cls_pulse: "cls s a ec = (s', out) \<Longrightarrow> pulse_of s' = pulse_of s \<and>
        pulse_calls out = (if pulse_of s \<noteq> 0 then [(a, On_closed ec)] else [])"
    and rcv_pulse: "rcv s a t d = (s', out) \<Longrightarrow> pulse_of s' = pulse_of s \<and>
        pulse_calls out = (if pulse_of s \<noteq> 0 then [(a, On_receive t d)] else [])"
begin

lemma report_pulse:
  "report est cls rcv s a xs = (s', out) \<Longrightarrow> pulse_of s' = pulse_of s \<and>
     pulse_calls out = (if pulse_of s \<noteq> 0 then map (Pair a) (filter is_report xs) else [])"
proof (induction xs arbitrary: s out)
  case Nil
  then show ?case by simp
next
  case (Cons x xs)
  then show ?case
    by (cases x) (auto split: prod.splits dest: est_pulse cls_pulse rcv_pulse)
qed

end

text \<open>The frames among what the pulse hears of one session.\<close>

definition pulse_frames :: "nat \<Rightarrow> 't endpoint_out list \<Rightarrow> ('t \<times> bytes) list" where
  "pulse_frames a out = delivered (map snd (filter (\<lambda>(b, _). b = a) (pulse_calls out)))"

lemma delivered_filter_report [simp]: "delivered (filter is_report xs) = delivered xs"
  by (induction xs rule: delivered.induct) simp_all

lemma pulse_frames_reports:
  "pulse_calls out = map (Pair a) (filter is_report xs) \<Longrightarrow> pulse_frames a out = delivered xs"
  by (simp add: pulse_frames_def filter_map comp_def)

end
