(* ===== verification/Client.thy ===== *)
theory Client
  imports Endpoint Transport
begin

text \<open>
  \<^verbatim>\<open>play/net/client.hpp\<close> and \<^verbatim>\<open>client.ipp\<close>: connects to a server, retries a
  connect that fails, and passes session reports to the bound pulse. \<open>cl_session\<close> is the
  pointer \<^verbatim>\<open>session_\<close> (0 for null), session objects live in \<open>cl_store\<close>. Parsing an
  IP address is Boost's and is the parameter \<open>parse\<close>, whose \<^const>\<open>None\<close> is an exception.
  \<^verbatim>\<open>async_connect\<close> opens a closed socket (descriptor \<open>native\<close>) and, as documented,
  leaves it open when the connect fails.
\<close>

section \<open>State and operations\<close>

record 'p client =
  cl_addr :: string
  cl_port :: nat
  cl_endpoint :: "string \<times> nat"
  cl_session :: nat
  cl_pulse :: nat
  cl_store :: "nat \<rightharpoonup> 'p session"
  cl_next :: nat

type_synonym ('p, 't) client_res = "('p client \<times> 't endpoint_out list) res"

definition client_create :: "'p client" where
  "client_create = \<lparr>cl_addr = [], cl_port = 0, cl_endpoint = ([], 0), cl_session = 0, cl_pulse = 0,
     cl_store = Map.empty, cl_next = 1\<rparr>"

definition async_connect :: "'p client \<Rightarrow> nat \<Rightarrow> nat \<Rightarrow> ('p, 't) client_res" where
  "async_connect cl a native =
     (case cl_store cl a of
        None \<Rightarrow> Inl Undefined
      | Some s \<Rightarrow> Inr (cl\<lparr>cl_store := (cl_store cl)(a \<mapsto>
            (if se_open s then s else s\<lparr>se_open := True, se_native := native\<rparr>))\<rparr>, [Async_connect a]))"

definition client_connect :: "(string \<Rightarrow> string option) \<Rightarrow> 'p client \<Rightarrow> string \<Rightarrow> nat \<Rightarrow> nat
    \<Rightarrow> ('p client \<times> 't endpoint_out list \<times> bool) res" where
  "client_connect parse cl addr port native =
     (if (case cl_store cl (cl_session cl) of None \<Rightarrow> False | Some s \<Rightarrow> cl_session cl \<noteq> 0 \<and> se_open s)
      then Inr (cl, [], False)
      else let cl1 = cl\<lparr>cl_addr := addr, cl_port := port\<rparr> in
        (case parse addr of
           None \<Rightarrow> Inl (Thrown Std_exception)
         | Some ip \<Rightarrow>
             let a = cl_next cl1;
                 cl2 = cl1\<lparr>cl_endpoint := (ip, port), cl_session := a,
                   cl_store := (cl_store cl1)(a \<mapsto> session_create False), cl_next := Suc a\<rparr>
             in bind_res (async_connect cl2 a native) (\<lambda>(cl3, out). Inr (cl3, out, True))))"

text \<open>\<^verbatim>\<open>connect()\<close> with the address and port of the last call.\<close>

definition client_connect_again :: "bool \<Rightarrow> (string \<Rightarrow> string option) \<Rightarrow> 'p client \<Rightarrow> nat
    \<Rightarrow> ('p client \<times> 't endpoint_out list \<times> bool) res" where
  "client_connect_again nd parse cl native =
     play_check nd (cl_addr cl \<noteq> []) (play_check nd (cl_port cl > 0)
       (client_connect parse cl (cl_addr cl) (cl_port cl) native))"

definition client_close :: "'p client \<Rightarrow> ('p, 't) client_res" where
  "client_close cl =
     (case (if cl_session cl = 0 then None else cl_store cl (cl_session cl)) of
        None \<Rightarrow> Inl Undefined
      | Some s \<Rightarrow>
          if se_open s then
            (case session_close s of (s', out) \<Rightarrow>
               Inr (cl\<lparr>cl_store := (cl_store cl)(cl_session cl \<mapsto> s'), cl_session := 0\<rparr>,
                 map (Socket (cl_session cl)) out))
          else Inr (cl, []))"

definition client_bind_pulse :: "bool \<Rightarrow> 'p client \<Rightarrow> nat \<Rightarrow> 'p client res" where
  "client_bind_pulse nd cl pulse = play_check nd (pulse \<noteq> 0) (Inr (cl\<lparr>cl_pulse := pulse\<rparr>))"

definition client_on_established :: "'p client \<Rightarrow> nat \<Rightarrow> 'p client \<times> 't endpoint_out list" where
  "client_on_established cl a =
     (cl, Handle_established a # (if cl_pulse cl \<noteq> 0 then [Pulse_established (cl_pulse cl) a] else []))"

definition client_on_closed :: "'p client \<Rightarrow> nat \<Rightarrow> nat \<Rightarrow> 'p client \<times> 't endpoint_out list" where
  "client_on_closed cl a ec =
     (cl\<lparr>cl_session := 0\<rparr>,
      Handle_closed a ec # (if cl_pulse cl \<noteq> 0 then [Pulse_closed (cl_pulse cl) a ec] else []))"

definition client_on_receive :: "'p client \<Rightarrow> nat \<Rightarrow> 't \<Rightarrow> bytes \<Rightarrow> 'p client \<times> 't endpoint_out list" where
  "client_on_receive cl a t d =
     (cl, (if cl_pulse cl \<noteq> 0 then [Pulse_receive (cl_pulse cl) a t d] else []) @ [Handle_receive a t d])"

definition client_session :: "('p, 't) protocol_ops \<Rightarrow> bool \<Rightarrow> 'p client \<Rightarrow> nat \<Rightarrow> 't session_event
    \<Rightarrow> ('p, 't) client_res" where
  "client_session P nd cl a e =
     (case cl_store cl a of
        None \<Rightarrow> Inl Undefined
      | Some s \<Rightarrow> bind_res (session_step P nd s e) (\<lambda>(s', out).
          Inr (report client_on_established client_on_closed client_on_receive
            (cl\<lparr>cl_store := (cl_store cl)(a \<mapsto> s')\<rparr>) a out)))"

text \<open>The second check dereferences \<^verbatim>\<open>session_\<close> in every build.\<close>

definition reconnect :: "bool \<Rightarrow> 'p client \<Rightarrow> nat \<Rightarrow> ('p, 't) client_res" where
  "reconnect nd cl native =
     play_check nd (cl_session cl \<noteq> 0)
      (case (if cl_session cl = 0 then None else cl_store cl (cl_session cl)) of
         None \<Rightarrow> Inl Undefined
       | Some s \<Rightarrow> play_check nd (\<not> se_open s) (async_connect cl (cl_session cl) native))"

definition handle_connect :: "('p, 't) protocol_ops \<Rightarrow> bool \<Rightarrow> 'p client \<Rightarrow> nat \<Rightarrow> nat \<Rightarrow> string option
    \<Rightarrow> ('p, 't) client_res" where
  "handle_connect P nd cl ec native endpoint =
     (if ec = 0 then
        (if cl_session cl = 0 then Inl Undefined
         else client_session P nd cl (cl_session cl) (Ev_start endpoint))
      else reconnect nd cl native)"

section \<open>Lemmas\<close>

interpretation cl_handler: session_handler cl_pulse client_on_established client_on_closed client_on_receive
  by unfold_locales (auto simp: client_on_established_def client_on_closed_def client_on_receive_def)

lemma client_connect_new:
  assumes "client_connect parse cl addr port native = Inr (cl', out, True)"
  shows "cl_session cl' = cl_next cl \<and> cl_store cl' (cl_next cl) =
      Some ((session_create False)\<lparr>se_open := True, se_native := native\<rparr>) \<and> out = [Async_connect (cl_next cl)]"
  using assms
  by (auto simp: client_connect_def async_connect_def session_create_def Let_def split: option.splits if_splits)

section \<open>Properties\<close>

text \<open>A client that has started to connect, for the witnesses.\<close>

definition demo_client :: "plain_protocol client" where
  "demo_client = client_create\<lparr>cl_addr := ''127.0.0.1'', cl_port := 7000, cl_endpoint := (''127.0.0.1'', 7000),
     cl_session := 1, cl_store := [1 \<mapsto> (session_create False)\<lparr>se_open := True, se_native := 5\<rparr>],
     cl_next := 2\<rparr>"

lemma demo_client_connect:
  "client_connect Some client_create ''127.0.0.1'' 7000 5 = Inr (demo_client, [Async_connect 1], True)"
  by (simp add: client_connect_def client_create_def async_connect_def demo_client_def session_create_def
      numeral_2_eq_2 Let_def)

text \<open>
  C21. Every report of a session reaches the pulse bound to its client exactly once and in order,
  and nothing else does.
\<close>

theorem client_reports_reach_pulse:
  assumes "cl_store cl a = Some s" and "session_step P nd s e = Inr (s', out)" and "cl_pulse cl \<noteq> 0"
  shows "\<exists>cl' out'. client_session P nd cl a e = Inr (cl', out') \<and> cl_pulse cl' = cl_pulse cl \<and>
    pulse_calls out' = map (Pair a) (filter is_report out)"
proof -
  obtain cl' out' where r: "report client_on_established client_on_closed client_on_receive
      (cl\<lparr>cl_store := (cl_store cl)(a \<mapsto> s')\<rparr>) a out = (cl', out')" by (metis surj_pair)
  then show ?thesis
    using assms cl_handler.report_pulse [OF r] by (simp add: client_session_def)
qed

theorem client_reports_reach_pulse_witness:
  "\<exists>cl' out'. client_session (plain_ops :: (plain_protocol, 16 word) protocol_ops) False
      (demo_client\<lparr>cl_pulse := 9\<rparr>) 1 (Ev_start (Some ''peer'')) = Inr (cl', out') \<and>
    pulse_calls out' = [(1, On_established)]"
proof -
  let ?s = "(session_create False)\<lparr>se_open := True, se_native := 5\<rparr> :: plain_protocol session"
  have st: "cl_store (demo_client\<lparr>cl_pulse := 9\<rparr>) 1 = Some ?s" by (simp add: demo_client_def)
  obtain s' where "session_step (plain_ops :: (plain_protocol, 16 word) protocol_ops) False ?s
      (Ev_start (Some ''peer'')) = Inr (s', [Async_recv, On_established])"
    by (simp add: session_start_def session_create_def plain_ops_def plain_create_def plain_connected_def
        plain_is_established_def send_handshake_def start_recv_def session_is_established_def)
  from client_reports_reach_pulse [OF st this] show ?thesis by auto
qed

text \<open>
  A connect that fails is meant to be retried. The socket the first attempt opened is still
  open, so \<^verbatim>\<open>reconnect\<close> fails its own check in a build with assertions, and goes on
  with the same socket only in a build without.
\<close>

theorem failed_connect_retry:
  assumes "client_connect parse cl addr port native = Inr (cl', out, True)" and "ec \<noteq> 0" and "cl_next cl \<noteq> 0"
  shows "handle_connect P False cl' ec native' ep = Inl Check_failed \<and>
    handle_connect P True cl' ec native' ep = Inr (cl', [Async_connect (cl_session cl')])"
  using client_connect_new [OF assms(1)] assms(2,3)
  by (cases cl') (auto simp: handle_connect_def reconnect_def async_connect_def)

theorem failed_connect_retry_witness:
  "handle_connect (plain_ops :: (plain_protocol, 16 word) protocol_ops) False demo_client 111 6 None = Inl Check_failed"
  using failed_connect_retry [OF demo_client_connect, of 111 "plain_ops :: (plain_protocol, 16 word) protocol_ops" 6 None]
  by (simp add: client_create_def)

text \<open>
  \<^verbatim>\<open>close()\<close> on a client whose connection has ended, or which was closed before,
  dereferences the null session.
\<close>

theorem client_close_after_disconnect:
  assumes "client_on_closed cl a ec = (cl', out)"
  shows "client_close cl' = Inl Undefined"
  using assms by (auto simp: client_on_closed_def client_close_def)

theorem client_close_after_disconnect_witness:
  "client_close (demo_client\<lparr>cl_session := 0\<rparr>) = Inl Undefined"
  using client_close_after_disconnect [of demo_client 1 104 "demo_client\<lparr>cl_session := 0\<rparr>"
      "[Handle_closed 1 104]"]
  by (simp add: client_on_closed_def demo_client_def client_create_def)

text \<open>
  Closing a client that is still connecting: the cancelled connect reports an error, and its
  handler reconnects without a session, which fails a check or dereferences null.
\<close>

theorem client_close_while_connecting:
  assumes "client_connect parse cl addr port native = Inr (cl1, out1, True)" and "cl_next cl \<noteq> 0"
    and "client_close cl1 = Inr (cl2, out2)" and "ec \<noteq> 0"
  shows "handle_connect P nd cl2 ec native' ep = Inl (if nd then Undefined else Check_failed)"
  using client_connect_new [OF assms(1)] assms(2-)
  by (auto simp: client_close_def session_close_def handle_connect_def reconnect_def play_check_def)

theorem client_close_while_connecting_witness:
  "handle_connect (plain_ops :: (plain_protocol, 16 word) protocol_ops) False
     (demo_client\<lparr>cl_store := [1 \<mapsto> (session_create False)\<lparr>se_native := 5\<rparr>], cl_session := 0\<rparr>) 125 0 None
   = Inl Check_failed"
  using client_close_while_connecting [OF demo_client_connect, of "demo_client\<lparr>cl_store :=
      [1 \<mapsto> (session_create False)\<lparr>se_native := 5\<rparr>], cl_session := 0\<rparr>" "[Socket 1 Sock_close]" 125
      "plain_ops :: (plain_protocol, 16 word) protocol_ops" False 0 None]
  by (simp add: client_create_def client_close_def demo_client_def session_close_def session_create_def)

end
