(* ===== verification/Server.thy ===== *)
theory Server
  imports Endpoint Transport
begin

text \<open>
  \<^verbatim>\<open>play/net/server.hpp\<close> and \<^verbatim>\<open>server.ipp\<close>: accepts connections, keeps the map
  of sessions and passes session reports to the bound pulse. Session objects live in the
  store \<open>sv_store\<close> by address; \<open>sv_sessions\<close> is the map \<^verbatim>\<open>sessions_\<close> from handle to
  session. The session given to \<^verbatim>\<open>async_accept\<close> is \<open>sv_pending\<close> until the accept
  completes. The virtual functions of the class are empty here; that they are called is an
  output. Whether the acceptor can be opened and bound, the error code of an accept, the
  descriptor and the peer address are chosen by the environment.
\<close>

section \<open>State and operations\<close>

record 'p server =
  sv_acceptor :: bool
  sv_pulse :: nat
  sv_sessions :: "nat \<rightharpoonup> nat"
  sv_store :: "nat \<rightharpoonup> 'p session"
  sv_next :: nat
  sv_pending :: "nat option"

type_synonym ('p, 't) server_res = "('p server \<times> 't endpoint_out list) res"

definition server_create :: "'p server" where
  "server_create = \<lparr>sv_acceptor = False, sv_pulse = 0, sv_sessions = Map.empty, sv_store = Map.empty,
     sv_next = 1, sv_pending = None\<rparr>"

text \<open>\<^verbatim>\<open>acceptor_\<close> is dereferenced without a check.\<close>

definition start_accept :: "'p server \<Rightarrow> ('p, 't) server_res" where
  "start_accept sv =
     (let a = sv_next sv;
          sv' = sv\<lparr>sv_store := (sv_store sv)(a \<mapsto> session_create True), sv_next := Suc a\<rparr>
      in if sv_acceptor sv' then Inr (sv'\<lparr>sv_pending := Some a\<rparr>, [Async_accept a]) else Inl Undefined)"

definition server_start :: "'p server \<Rightarrow> bool \<Rightarrow> ('p server \<times> 't endpoint_out list \<times> bool) res" where
  "server_start sv setup_ok =
     (let sv1 = sv\<lparr>sv_acceptor := True\<rparr> in
      if setup_ok then bind_res (start_accept sv1) (\<lambda>(sv2, out). Inr (sv2, out, True))
      else Inr (sv1, [], False))"

definition get_session :: "'p server \<Rightarrow> nat \<Rightarrow> nat" where
  "get_session sv handle = (case sv_sessions sv handle of None \<Rightarrow> 0 | Some a \<Rightarrow> a)"

definition server_stop :: "'p server \<Rightarrow> 'p server" where
  "server_stop sv = sv\<lparr>sv_acceptor := False\<rparr>"

definition server_bind_pulse :: "bool \<Rightarrow> 'p server \<Rightarrow> nat \<Rightarrow> 'p server res" where
  "server_bind_pulse nd sv listener = play_check nd (listener \<noteq> 0) (Inr (sv\<lparr>sv_pulse := listener\<rparr>))"

definition server_on_established :: "'p server \<Rightarrow> nat \<Rightarrow> 'p server \<times> 't endpoint_out list" where
  "server_on_established sv a =
     (sv, Handle_established a # (if sv_pulse sv \<noteq> 0 then [Pulse_established (sv_pulse sv) a] else []))"

definition session_handle :: "('p session) option \<Rightarrow> nat" where
  "session_handle s = (case s of None \<Rightarrow> 0 | Some s \<Rightarrow> se_handle s)"

definition server_on_closed :: "'p server \<Rightarrow> nat \<Rightarrow> nat \<Rightarrow> 'p server \<times> 't endpoint_out list" where
  "server_on_closed sv a ec =
     (sv\<lparr>sv_sessions := (sv_sessions sv)(session_handle (sv_store sv a) := None)\<rparr>,
      Handle_closed a ec # (if sv_pulse sv \<noteq> 0 then [Pulse_closed (sv_pulse sv) a ec] else []))"

definition server_on_receive :: "'p server \<Rightarrow> nat \<Rightarrow> 't \<Rightarrow> bytes \<Rightarrow> 'p server \<times> 't endpoint_out list" where
  "server_on_receive sv a t d =
     (sv, (if sv_pulse sv \<noteq> 0 then [Pulse_receive (sv_pulse sv) a t d] else []) @ [Handle_receive a t d])"

text \<open>Run one step of a session of the server and hand its reports to the server.\<close>

definition server_session :: "('p, 't) protocol_ops \<Rightarrow> bool \<Rightarrow> 'p server \<Rightarrow> nat \<Rightarrow> 't session_event
    \<Rightarrow> ('p, 't) server_res" where
  "server_session P nd sv a e =
     (case sv_store sv a of
        None \<Rightarrow> Inl Undefined
      | Some s \<Rightarrow> bind_res (session_step P nd s e) (\<lambda>(s', out).
          Inr (report server_on_established server_on_closed server_on_receive
            (sv\<lparr>sv_store := (sv_store sv)(a \<mapsto> s')\<rparr>) a out)))"

text \<open>
  The completion of an accept. On success the acceptor has opened the socket of the session
  (descriptor \<open>native\<close>). \<^verbatim>\<open>insert\<close> keeps an entry that is already there.
\<close>

definition map_insert :: "('k \<rightharpoonup> 'v) \<Rightarrow> 'k \<Rightarrow> 'v \<Rightarrow> ('k \<rightharpoonup> 'v)" where
  "map_insert m k v = (if m k = None then m(k \<mapsto> v) else m)"

definition handle_accept :: "('p, 't) protocol_ops \<Rightarrow> bool \<Rightarrow> 'p server \<Rightarrow> nat \<Rightarrow> nat \<Rightarrow> string option
    \<Rightarrow> nat \<Rightarrow> ('p, 't) server_res" where
  "handle_accept P nd sv a native endpoint ec =
     bind_res
       (if ec = 0 then
          (case sv_store sv a of
             None \<Rightarrow> Inl Undefined
           | Some s \<Rightarrow>
               server_session P nd
                 (sv\<lparr>sv_sessions := map_insert (sv_sessions sv) (se_handle s) a,
                     sv_store := (sv_store sv)(a \<mapsto> s\<lparr>se_open := True, se_native := native\<rparr>)\<rparr>)
                 a (Ev_start endpoint))
        else Inr (sv, []))
       (\<lambda>(sv1, o1). bind_res (start_accept sv1) (\<lambda>(sv2, o2). Inr (sv2, o1 @ o2)))"

section \<open>The server as a state machine\<close>

datatype 't server_event =
    Sv_start bool
  | Sv_stop
  | Sv_bind nat
  | Sv_accepted nat "string option" nat
  | Sv_session nat "'t session_event"

text \<open>
  One event. An accept completes only for the session it was started with, and a session
  takes part only after its accept has completed.
\<close>

fun server_step :: "('p, 't) protocol_ops \<Rightarrow> bool \<Rightarrow> 'p server \<Rightarrow> 't server_event \<Rightarrow> ('p, 't) server_res" where
  "server_step P nd sv (Sv_start ok) = bind_res (server_start sv ok) (\<lambda>(sv', out, _). Inr (sv', out))"
| "server_step P nd sv Sv_stop = Inr (server_stop sv, [])"
| "server_step P nd sv (Sv_bind l) = bind_res (server_bind_pulse nd sv l) (\<lambda>sv'. Inr (sv', []))"
| "server_step P nd sv (Sv_accepted native ep ec) =
     (case sv_pending sv of
        None \<Rightarrow> Inr (sv, [])
      | Some a \<Rightarrow> handle_accept P nd (sv\<lparr>sv_pending := None\<rparr>) a native ep ec)"
| "server_step P nd sv (Sv_session a e) =
     (if sv_pending sv = Some a then Inr (sv, []) else server_session P nd sv a e)"

inductive server_reachable :: "('p, 't) protocol_ops \<Rightarrow> bool \<Rightarrow> 'p server \<Rightarrow> bool"
  for P :: "('p, 't) protocol_ops" and nd :: bool where
  init: "server_reachable P nd server_create"
| step: "server_reachable P nd sv \<Longrightarrow> server_step P nd sv e = Inr (sv', out) \<Longrightarrow> server_reachable P nd sv'"

fun server_sessions_run :: "('p, 't) protocol_ops \<Rightarrow> bool \<Rightarrow> 'p server \<Rightarrow> nat \<Rightarrow> 't session_event list
    \<Rightarrow> ('p, 't) server_res" where
  "server_sessions_run P nd sv a [] = Inr (sv, [])"
| "server_sessions_run P nd sv a (e # es) =
     bind_res (server_session P nd sv a e) (\<lambda>(sv1, o1).
       bind_res (server_sessions_run P nd sv1 a es) (\<lambda>(sv2, o2). Inr (sv2, o1 @ o2)))"

section \<open>Lemmas\<close>

interpretation sv_handler: session_handler sv_pulse server_on_established server_on_closed server_on_receive
  by unfold_locales (auto simp: server_on_established_def server_on_closed_def server_on_receive_def)

abbreviation server_report :: "'p server \<Rightarrow> nat \<Rightarrow> 't session_out list \<Rightarrow> 'p server \<times> 't endpoint_out list" where
  "server_report \<equiv> report server_on_established server_on_closed server_on_receive"

lemma server_callback_state:
  "fst (server_on_established sv a) = sv"
  "fst (server_on_closed sv a ec) = sv\<lparr>sv_sessions := (sv_sessions sv)(session_handle (sv_store sv a) := None)\<rparr>"
  "fst (server_on_receive sv a t d) = sv"
  by (simp_all add: server_on_established_def server_on_closed_def server_on_receive_def)

text \<open>What reports leave alone, and that they only remove sessions from the map.\<close>

lemma server_report_frame:
  "server_report sv a xs = (sv', out) \<Longrightarrow> sv_store sv' = sv_store sv \<and> sv_acceptor sv' = sv_acceptor sv \<and>
     sv_next sv' = sv_next sv \<and> sv_pending sv' = sv_pending sv \<and> sv_pulse sv' = sv_pulse sv \<and>
     (\<forall>h b. sv_sessions sv' h = Some b \<longrightarrow> sv_sessions sv h = Some b)"
proof (induction xs arbitrary: sv out)
  case Nil
  then show ?case by simp
next
  case (Cons x xs)
  define c where "c = (case x of On_established \<Rightarrow> server_on_established sv a
    | On_closed ec \<Rightarrow> server_on_closed sv a ec | On_receive t d \<Rightarrow> server_on_receive sv a t d
    | _ \<Rightarrow> (sv, [Socket a x]))"
  have s: "fst c = sv \<or> fst c = sv\<lparr>sv_sessions := (sv_sessions sv)(session_handle (sv_store sv a) := None)\<rparr>"
    by (cases x) (simp_all add: c_def server_callback_state)
  from Cons.prems obtain o2 where r: "server_report (fst c) a xs = (sv', o2)"
    by (auto simp: c_def [symmetric] Let_def split: prod.splits)
  from Cons.IH [OF r] s show ?case by (auto split: if_splits) (metis option.distinct(1))+
qed

lemma server_session_frame:
  assumes "server_session P nd sv a e = Inr (sv', out)"
  shows "sv_sessions sv' h = Some c \<Longrightarrow> sv_sessions sv h = Some c" "sv_pending sv' = sv_pending sv" "sv_next sv' = sv_next sv"
    "b \<noteq> a \<Longrightarrow> sv_store sv' b = sv_store sv b" "sv_acceptor sv' = sv_acceptor sv"
    "sv_store sv' a \<noteq> None"
  using assms
  by (auto simp: server_session_def res_simps split: option.splits dest!: server_report_frame)

text \<open>
  The store holds exactly the addresses given out, the session being accepted has not been
  started, and every key of the session map is 0.
\<close>

definition server_inv :: "'p server \<Rightarrow> bool" where
  "server_inv sv \<longleftrightarrow> (\<forall>h a. sv_sessions sv h = Some a \<longrightarrow> h = 0) \<and> 0 < sv_next sv \<and>
     (\<forall>a. sv_pending sv = Some a \<longrightarrow> (\<exists>s. sv_store sv a = Some s \<and> se_handle s = 0)) \<and>
     (\<forall>a \<in> dom (sv_store sv). a < sv_next sv)"

lemma server_inv_create: "server_inv server_create"
  by (simp add: server_inv_def server_create_def)

lemma start_accept_inv:
  "server_inv sv \<Longrightarrow> start_accept sv = Inr (sv', out) \<Longrightarrow> server_inv sv'"
  by (auto simp: server_inv_def start_accept_def session_create_def Let_def less_Suc_eq split: if_splits)

lemma server_session_inv:
  assumes "server_inv sv" and "server_session P nd sv a e = Inr (sv', out)" and "sv_pending sv \<noteq> Some a"
  shows "server_inv sv'"
proof -
  note f = server_session_frame [OF assms(2)]
  have "sv_store sv a \<noteq> None" using assms(2) by (auto simp: server_session_def split: option.splits)
  then have "dom (sv_store sv') = dom (sv_store sv)" using f(4,6) by (auto simp: domIff) metis+
  moreover have "sv_sessions sv' h = Some b \<Longrightarrow> sv_sessions sv h = Some b" for h b
    using server_session_frame(1) [OF assms(2)] .
  ultimately show ?thesis
    using assms f by (fastforce simp: server_inv_def)
qed

lemma handle_accept_inv:
  assumes inv: "server_inv sv" and s: "sv_store sv a = Some s" "se_handle s = 0" and p: "sv_pending sv = None"
    and h: "handle_accept P nd sv a native ep ec = Inr (sv', out)"
  shows "server_inv sv'"
proof -
  have "server_inv (sv\<lparr>sv_sessions := map_insert (sv_sessions sv) 0 a,
      sv_store := (sv_store sv)(a \<mapsto> s\<lparr>se_open := True, se_native := native\<rparr>)\<rparr>)"
    using inv s p by (auto simp: server_inv_def map_insert_def)
  with h s p inv show ?thesis
    by (auto simp: handle_accept_def res_simps split: if_splits
        intro: start_accept_inv dest: server_session_inv)
qed

lemma server_step_inv:
  assumes "server_inv sv" and "server_step P nd sv e = Inr (sv', out)"
  shows "server_inv sv'"
proof (cases e)
  case (Sv_accepted native ep ec)
  show ?thesis
  proof (cases "sv_pending sv")
    case (Some a)
    with assms(1) obtain s where "sv_store sv a = Some s" "se_handle s = 0" by (auto simp: server_inv_def)
    moreover have "server_inv (sv\<lparr>sv_pending := None\<rparr>)" using assms(1) by (simp add: server_inv_def)
    ultimately show ?thesis
      using assms(2) Sv_accepted Some handle_accept_inv [of "sv\<lparr>sv_pending := None\<rparr>" a s] by simp
  qed (use assms Sv_accepted in simp)
next
  case (Sv_start ok)
  have "server_inv (sv\<lparr>sv_acceptor := True\<rparr>)" using assms(1) by (simp add: server_inv_def)
  then show ?thesis
    using assms(2) Sv_start by (auto simp: server_start_def res_simps Let_def split: if_splits dest: start_accept_inv)
next
  case (Sv_session a ev)
  with assms show ?thesis by (auto split: if_splits dest: server_session_inv)
qed (use assms in \<open>auto simp: server_stop_def server_bind_pulse_def server_inv_def res_simps\<close>)

lemma server_reachable_inv: "server_reachable P nd sv \<Longrightarrow> server_inv sv"
  by (induction rule: server_reachable.induct) (auto intro: server_inv_create server_step_inv)

text \<open>Running a session inside its server is running the session, its reports reaching the pulse.\<close>

lemma server_sessions_run_session:
  assumes "session_run P nd s es = Inr (s', out)" and "sv_store sv a = Some s" and "sv_pulse sv \<noteq> 0"
  shows "\<exists>sv' out'. server_sessions_run P nd sv a es = Inr (sv', out') \<and> sv_store sv' a = Some s' \<and>
    pulse_calls out' = map (Pair a) (filter is_report out)"
  using assms
proof (induction es arbitrary: s sv out)
  case Nil
  then show ?case by simp
next
  case (Cons e es)
  from Cons.prems(1) obtain s1 o1 o2 where st: "session_step P nd s e = Inr (s1, o1)"
    and run: "session_run P nd s1 es = Inr (s', o2)" and out: "out = o1 @ o2"
    by (auto simp: then_do_eq_Inr)
  obtain sv1 r1 where rep: "server_report (sv\<lparr>sv_store := (sv_store sv)(a \<mapsto> s1)\<rparr>) a o1 = (sv1, r1)"
    by (metis surj_pair)
  have fr: "sv_store sv1 a = Some s1" "sv_pulse sv1 \<noteq> 0"
      "pulse_calls r1 = map (Pair a) (filter is_report o1)"
    using server_report_frame [OF rep] sv_handler.report_pulse [OF rep] Cons.prems(3) by auto
  obtain sv' out' where "server_sessions_run P nd sv1 a es = Inr (sv', out')" "sv_store sv' a = Some s'"
      "pulse_calls out' = map (Pair a) (filter is_report o2)"
    using Cons.IH [OF run fr(1,2)] by blast
  with st rep fr(3) Cons.prems(2) show ?case by (auto simp: server_session_def out)
qed

section \<open>Properties\<close>


definition demo_server :: "'p \<Rightarrow> 'p server" where
  "demo_server p = server_create\<lparr>sv_acceptor := True, sv_pulse := 9, sv_store := [1 \<mapsto> demo_session p],
     sv_sessions := [0 \<mapsto> 1], sv_next := 2\<rparr>"


text \<open>
  C35. \<^verbatim>\<open>handle_accept\<close> puts a session into the map before \<^verbatim>\<open>start()\<close> gives it its
  handle. In every state the server can reach, over any protocol, the only key of the map
  is therefore 0: \<^verbatim>\<open>get_session\<close> finds no session by its handle, and at most one
  session is in the map.
\<close>

theorem get_session_finds_no_handle:
  assumes "server_reachable P nd sv" and "0 < handle"
  shows "get_session sv handle = 0 \<and> card (dom (sv_sessions sv)) \<le> 1"
proof -
  have inv: "sv_sessions sv h = Some b \<Longrightarrow> h = 0" for h b
    using server_reachable_inv [OF assms(1)] by (auto simp: server_inv_def)
  then have "sv_sessions sv handle = None" using assms(2) by (metis option.exhaust not_less_zero)
  moreover have "dom (sv_sessions sv) \<subseteq> {0}" using inv by auto
  then have "card (dom (sv_sessions sv)) \<le> 1" using card_mono [of "{0 :: nat}"] by fastforce
  ultimately show ?thesis by (simp add: get_session_def)
qed

text \<open>A server whose first client has been accepted and has descriptor 5.\<close>

lemma demo_accept:
  "server_step (plain_ops :: (plain_protocol, 16 word) protocol_ops) False server_create (Sv_start True) =
     Inr (server_create\<lparr>sv_acceptor := True, sv_store := [1 \<mapsto> session_create True], sv_next := 2,
       sv_pending := Some 1\<rparr>, [Async_accept 1])"
  "server_step (plain_ops :: (plain_protocol, 16 word) protocol_ops) False
     (server_create\<lparr>sv_acceptor := True, sv_store := [1 \<mapsto> session_create True], sv_next := 2,
       sv_pending := Some 1\<rparr>) (Sv_accepted 5 (Some ''peer'') 0) =
     Inr (server_create\<lparr>sv_acceptor := True, sv_sessions := [0 \<mapsto> 1],
       sv_store := [1 \<mapsto> (session_create True)\<lparr>se_open := True, se_native := 5, se_handle := 5,
           se_remote_addr := ''peer'', se_protocol := Some \<lparr>pp_handle = 5, pp_accepted = True,
             pp_connected = False, pp_closed = False, pp_length_codec = Some \<lparr>ld_handle = 5\<rparr>\<rparr>\<rparr>,
         2 \<mapsto> session_create True], sv_next := 3, sv_pending := Some 2\<rparr>,
       [Socket 1 Async_recv, Handle_established 1, Async_accept 2])"
  by (simp_all add: server_start_def start_accept_def server_create_def handle_accept_def map_insert_def
      server_session_def session_start_def send_handshake_def start_recv_def session_is_established_def
      plain_ops_def plain_create_def plain_accepted_def plain_is_established_def server_on_established_def
      session_create_def numeral_2_eq_2 numeral_3_eq_3 Let_def)

theorem get_session_finds_no_handle_witness:
  "\<exists>sv :: plain_protocol server. map_option se_handle (sv_store sv 1) = Some 5 \<and> get_session sv 5 = 0 \<and>
     sv_sessions sv 0 = Some 1"
proof -
  obtain sv :: "plain_protocol server" where
    sv: "server_reachable (plain_ops :: (plain_protocol, 16 word) protocol_ops) False sv"
      "map_option se_handle (sv_store sv 1) = Some 5" "sv_sessions sv 0 = Some 1"
    using server_reachable.step [OF server_reachable.step [OF server_reachable.init demo_accept(1)] demo_accept(2)]
    by (fastforce simp: server_create_def)
  show ?thesis using sv get_session_finds_no_handle [OF sv(1), of 5] by auto
qed

text \<open>
  Closing a session does not take it out of the map: the session under key 0 stays there,
  and \<^verbatim>\<open>sessions_\<close> keeps it alive, when it or any other session with a handle closes.
\<close>

theorem closed_session_stays_in_map:
  assumes "server_reachable P nd sv" and "sv_store sv b = Some s" and "0 < se_handle s"
    and "server_on_closed sv b ec = (sv', out)"
  shows "sv_sessions sv' = sv_sessions sv"
proof -
  have "sv_sessions sv (se_handle s) = None"
    using server_reachable_inv [OF assms(1)] assms(3) by (auto simp: server_inv_def)
  then show ?thesis using assms(2,4) by (auto simp: server_on_closed_def session_handle_def)
qed

theorem closed_session_stays_in_map_witness:
  "\<exists>sv sv' :: plain_protocol server. \<exists>out :: 16 word endpoint_out list.
     server_on_closed sv 1 104 = (sv', out) \<and> sv_sessions sv' 0 = Some 1"
proof -
  obtain sv :: "plain_protocol server" and s where
    sv: "server_reachable (plain_ops :: (plain_protocol, 16 word) protocol_ops) False sv"
      "sv_store sv 1 = Some s" "0 < se_handle s" "sv_sessions sv 0 = Some 1"
    using server_reachable.step [OF server_reachable.step [OF server_reachable.init demo_accept(1)] demo_accept(2)]
    by (fastforce simp: server_create_def)
  obtain sv' and out :: "16 word endpoint_out list" where c: "server_on_closed sv 1 104 = (sv', out)"
    by (metis surj_pair)
  show ?thesis using closed_session_stays_in_map [OF sv(1-3) c] sv(4) c by metis
qed

text \<open>
  Stopping the server resets the acceptor; the accept it cancels completes with an error,
  and its handler starts the next accept on the null acceptor.
\<close>

theorem server_stop_then_accept_is_undefined:
  assumes "sv_pending sv = Some a" and "ec \<noteq> 0"
  shows "server_step P nd (server_stop sv) (Sv_accepted native ep ec) = Inl Undefined"
  using assms by (simp add: server_stop_def handle_accept_def start_accept_def Let_def)

theorem server_stop_then_accept_is_undefined_witness:
  "server_step (plain_ops :: (plain_protocol, 16 word) protocol_ops) False
     (server_stop ((demo_server demo_plain)\<lparr>sv_pending := Some 1\<rparr>)) (Sv_accepted 0 None 125) = Inl Undefined"
  using server_stop_then_accept_is_undefined [of "(demo_server demo_plain)\<lparr>sv_pending := Some 1\<rparr>" 1 125]
  by simp

end
