(* ===== verification/Ordered_Map.thy ===== *)
theory Ordered_Map
  imports Play_Prelude
begin

text \<open>
  \<^verbatim>\<open>std::map\<close> where the code walks it: an association list in key order. \<open>omap_set\<close>
  is \<^verbatim>\<open>m[k] = v\<close>, \<open>omap_insert\<close> is \<^verbatim>\<open>m.insert({k, v})\<close>, which keeps an entry
  that is there, \<open>omap_erase\<close> is \<^verbatim>\<open>m.erase(k)\<close>; \<^const>\<open>map_of\<close> is
  \<^verbatim>\<open>find\<close>. \<open>oset_insert\<close> is the same for a map whose value is determined by
  its key. \<open>collect_res\<close> concatenates the results of a call made for every element.
\<close>

section \<open>Definitions\<close>

fun omap_set :: "'k::linorder \<Rightarrow> 'v \<Rightarrow> ('k \<times> 'v) list \<Rightarrow> ('k \<times> 'v) list" where
  "omap_set k v [] = [(k, v)]"
| "omap_set k v ((k', v') # m) =
     (if k < k' then (k, v) # (k', v') # m
      else if k = k' then (k, v) # m
      else (k', v') # omap_set k v m)"

definition omap_insert :: "'k::linorder \<Rightarrow> 'v \<Rightarrow> ('k \<times> 'v) list \<Rightarrow> ('k \<times> 'v) list" where
  "omap_insert k v m = (case map_of m k of None \<Rightarrow> omap_set k v m | Some _ \<Rightarrow> m)"

definition omap_erase :: "'k \<Rightarrow> ('k \<times> 'v) list \<Rightarrow> ('k \<times> 'v) list" where
  "omap_erase k m = filter (\<lambda>(k', _). k' \<noteq> k) m"

definition omap_ok :: "('k::linorder \<times> 'v) list \<Rightarrow> bool" where
  "omap_ok m \<longleftrightarrow> sorted_wrt (<) (map fst m)"

fun oset_insert :: "'k::linorder \<Rightarrow> 'k list \<Rightarrow> 'k list" where
  "oset_insert k [] = [k]"
| "oset_insert k (k' # m) = (if k < k' then k # k' # m else if k = k' then k' # m else k' # oset_insert k m)"

definition oset_erase :: "'k \<Rightarrow> 'k list \<Rightarrow> 'k list" where
  "oset_erase k m = filter (\<lambda>k'. k' \<noteq> k) m"

fun collect_res :: "('a \<Rightarrow> 'b list res) \<Rightarrow> 'a list \<Rightarrow> 'b list res" where
  "collect_res f [] = Inr []"
| "collect_res f (x # xs) = bind_res (f x) (\<lambda>ys. bind_res (collect_res f xs) (\<lambda>zs. Inr (ys @ zs)))"

section \<open>Lemmas\<close>

lemma map_of_omap_set [simp]: "map_of (omap_set k v m) = (map_of m)(k \<mapsto> v)"
  by (induction k v m rule: omap_set.induct) (auto simp: fun_eq_iff)

lemma map_of_omap_insert [simp]:
  "map_of (omap_insert k v m) = (if map_of m k = None then (map_of m)(k \<mapsto> v) else map_of m)"
  by (auto simp: omap_insert_def split: option.split)

lemma map_of_omap_erase [simp]: "map_of (omap_erase k m) = (map_of m)(k := None)"
  by (induction m) (auto simp: omap_erase_def fun_eq_iff)

lemma fst_set_omap_set: "fst ` set (omap_set k v m) = insert k (fst ` set m)"
  by (induction k v m rule: omap_set.induct) auto

lemma omap_ok_Nil [simp]: "omap_ok []"
  by (simp add: omap_ok_def)

lemma omap_ok_set [simp]: "omap_ok m \<Longrightarrow> omap_ok (omap_set k v m)"
proof (induction k v m rule: omap_set.induct)
  case (2 k v k' v' m)
  then show ?case
    using fst_set_omap_set [of k v m] by (fastforce simp: omap_ok_def)
qed (simp add: omap_ok_def)

lemma omap_ok_insert [simp]: "omap_ok m \<Longrightarrow> omap_ok (omap_insert k v m)"
  by (simp add: omap_insert_def split: option.split)

lemma omap_ok_erase [simp]: "omap_ok m \<Longrightarrow> omap_ok (omap_erase k m)"
  by (induction m) (auto simp: omap_ok_def omap_erase_def)

lemma omap_ok_distinct: "omap_ok m \<Longrightarrow> distinct (map fst m)"
  by (auto simp: omap_ok_def strict_sorted_iff)

lemma set_oset_insert [simp]: "set (oset_insert k m) = insert k (set m)"
  by (induction k m rule: oset_insert.induct) auto

lemma set_oset_erase [simp]: "set (oset_erase k m) = set m - {k}"
  by (auto simp: oset_erase_def)

lemma oset_insert_sorted: "sorted_wrt (<) m \<Longrightarrow> sorted_wrt (<) (oset_insert k m)"
  by (induction k m rule: oset_insert.induct) auto

lemma collect_res_mem:
  "collect_res f xs = Inr ys \<Longrightarrow> y \<in> set ys \<longleftrightarrow> (\<exists>x \<in> set xs. \<exists>zs. f x = Inr zs \<and> y \<in> set zs)"
  by (induction xs arbitrary: ys) (auto simp: bind_res_eq_Inr)

lemma collect_res_fault: "x \<in> set xs \<Longrightarrow> f x = Inl e \<Longrightarrow> \<exists>e'. collect_res f xs = Inl e'"
proof (induction xs)
  case (Cons y ys)
  then show ?case by (cases "f y") (auto simp: bind_res_def split: sum.splits)
qed simp

lemma collect_res_Inr: "(\<And>x. x \<in> set xs \<Longrightarrow> f x = Inr (g x)) \<Longrightarrow> collect_res f xs = Inr (concat (map g xs))"
  by (induction xs) auto

end
