(* ===== verification/Runner.thy ===== *)
theory Runner
  imports Play_Prelude "HOL-Library.Multiset"
begin

text \<open>
  \<^verbatim>\<open>play/net/runner.hpp\<close>, \<^verbatim>\<open>runner.cpp\<close>, \<^verbatim>\<open>runner/poll_runner.hpp\<close>,
  \<^verbatim>\<open>runner/thread_runner.*\<close> and \<^verbatim>\<open>runner/timer_service.*\<close>. An
  \<^verbatim>\<open>io_context\<close> is the queue of the handlers posted to it, each with the strand it
  was posted through. Running a handler is a function that gives the handlers it posts.
  A timer keeps the waits it has pending; what completes, and when, is chosen by the clock,
  so \<open>timer_fire\<close> is the completion of the oldest wait. The handler of a timer is a
  function on the timer, since it receives the timer and may cancel it.
\<close>

section \<open>Runner: posting and strands\<close>

record 'h runner =
  rn_name :: string
  rn_strands :: nat
  rn_queue :: "(nat option \<times> 'h) list"

text \<open>The constructor makes the strands one by one.\<close>

fun make_strands :: "nat \<Rightarrow> nat \<Rightarrow> nat" where
  "make_strands 0 n = n"
| "make_strands (Suc i) n = make_strands i (Suc n)"

definition runner_create :: "string \<Rightarrow> nat \<Rightarrow> 'h runner" where
  "runner_create name strand_count =
     \<lparr>rn_name = name, rn_strands = make_strands strand_count 0, rn_queue = []\<rparr>"

text \<open>\<^verbatim>\<open>strand_key % strands_.size()\<close>: without strands the remainder is undefined.\<close>

definition get_strand :: "'h runner \<Rightarrow> nat \<Rightarrow> nat res" where
  "get_strand r key = (if rn_strands r = 0 then Inl Undefined else Inr (key mod rn_strands r))"

definition runner_post :: "'h runner \<Rightarrow> 'h \<Rightarrow> 'h runner" where
  "runner_post r h = r\<lparr>rn_queue := rn_queue r @ [(None, h)]\<rparr>"

definition runner_post_strand :: "'h runner \<Rightarrow> nat \<Rightarrow> 'h \<Rightarrow> 'h runner res" where
  "runner_post_strand r key h =
     bind_res (get_strand r key) (\<lambda>i. Inr (r\<lparr>rn_queue := rn_queue r @ [(Some i, h)]\<rparr>))"

text \<open>The handlers of one strand, in the order they were posted.\<close>

definition strand_queue :: "'h runner \<Rightarrow> nat \<Rightarrow> 'h list" where
  "strand_queue r i = map snd (filter (\<lambda>(s, _). s = Some i) (rn_queue r))"

section \<open>Poll runner\<close>

text \<open>
  \<^verbatim>\<open>poll_one()\<close> runs at most one handler. \<^verbatim>\<open>poll()\<close> calls \<^verbatim>\<open>run()\<close>, which goes
  on until the queue is empty, handlers posted meanwhile included, and so may not end.
\<close>

definition poll_one :: "('h \<Rightarrow> 'h list) \<Rightarrow> 'h list \<Rightarrow> nat \<times> 'h list" where
  "poll_one exec q = (case q of [] \<Rightarrow> (0, []) | h # q' \<Rightarrow> (1, q' @ exec h))"

partial_function (option) poll_from :: "('h \<Rightarrow> 'h list) \<Rightarrow> nat \<Rightarrow> 'h list \<Rightarrow> nat option" where
  "poll_from exec n q = (case q of [] \<Rightarrow> Some n | h # q' \<Rightarrow> poll_from exec (Suc n) (q' @ exec h))"

definition poll :: "('h \<Rightarrow> 'h list) \<Rightarrow> 'h list \<Rightarrow> nat option" where
  "poll exec q = poll_from exec 0 q"

section \<open>Thread runner\<close>

record thread_runner =
  tr_thread_count :: nat
  tr_stop :: bool
  tr_guard :: bool
  tr_threads :: nat
  tr_joined :: nat

definition thread_runner_create :: "nat \<Rightarrow> nat \<Rightarrow> thread_runner" where
  "thread_runner_create hardware_concurrency thread_count =
     (let n = (if thread_count = 0 then hardware_concurrency else thread_count) in
      \<lparr>tr_thread_count = n, tr_stop = False, tr_guard = True, tr_threads = n, tr_joined = 0\<rparr>)"

definition thread_runner_stop :: "thread_runner \<Rightarrow> thread_runner" where
  "thread_runner_stop t = play_return_if (tr_stop t) t
     (t\<lparr>tr_stop := True, tr_guard := False, tr_joined := tr_threads t\<rparr>)"

text \<open>
  One thread's loop. Each round reads \<^verbatim>\<open>stop_\<close> and, when it is not set, calls
  \<^verbatim>\<open>ioc.run()\<close>, which returns the number of handlers run or throws. What the rounds
  see is the argument; the result is what the thread did.
\<close>

datatype run_outcome = Ran nat | Threw
datatype run_action = Run_ioc | Sleep_ms nat | Log_error

fun thread_run :: "(bool \<times> run_outcome) list \<Rightarrow> run_action list" where
  "thread_run [] = []"
| "thread_run ((stop, o1) # rest) =
     (if stop then []
      else Run_ioc # (case o1 of Ran n \<Rightarrow> if n = 0 then [Sleep_ms 1] else [] | Threw \<Rightarrow> [Log_error])
        @ thread_run rest)"

section \<open>Timers\<close>

text \<open>
  A pending \<^verbatim>\<open>async_wait\<close>: one whose completion calls the handler, or one whose
  completion goes through \<^verbatim>\<open>repeat_call\<close>.
\<close>

datatype wait = Wait_handler | Wait_repeat nat

record timer =
  tm_alive :: bool
  tm_strand :: "nat option"
  tm_expiry :: nat
  tm_set :: bool
  tm_once :: bool
  tm_repeat :: bool
  tm_waits :: "wait list"

definition timer_create :: "nat option \<Rightarrow> timer" where
  "timer_create strand = \<lparr>tm_alive = True, tm_strand = strand, tm_expiry = 0, tm_set = False, tm_once = False,
     tm_repeat = False, tm_waits = []\<rparr>"

definition async_wait :: "timer \<Rightarrow> nat \<Rightarrow> wait \<Rightarrow> timer" where
  "async_wait t ms w = t\<lparr>tm_expiry := ms, tm_waits := tm_waits t @ [w]\<rparr>"

definition timer_once :: "bool \<Rightarrow> timer \<Rightarrow> nat \<Rightarrow> timer res" where
  "timer_once nd t ms = play_check nd (\<not> tm_set t)
     (Inr (async_wait (t\<lparr>tm_set := True, tm_once := True, tm_repeat := False\<rparr>) ms Wait_handler))"

definition timer_repeat :: "timer \<Rightarrow> nat \<Rightarrow> timer" where
  "timer_repeat t ms =
     (let t' = t\<lparr>tm_set := True, tm_once := False, tm_repeat := True\<rparr> in
      (case tm_strand t of
         Some _ \<Rightarrow> async_wait t' ms Wait_handler
       | None \<Rightarrow> async_wait t' ms (Wait_repeat ms)))"

text \<open>
  \<^verbatim>\<open>cancel()\<close> makes the pending waits complete with an error; the completions do not
  look at it, so the waits stay pending here.
\<close>

definition timer_cancel :: "timer \<Rightarrow> timer" where
  "timer_cancel t = (if tm_set t then t\<lparr>tm_set := False\<rparr> else t)"

definition timer_destroy :: "timer \<Rightarrow> timer" where
  "timer_destroy t = (timer_cancel t)\<lparr>tm_alive := False\<rparr>"

definition repeat_call :: "(timer \<Rightarrow> timer) \<Rightarrow> timer \<Rightarrow> nat \<Rightarrow> timer" where
  "repeat_call handler t ms =
     (let t' = handler t in if tm_set t' then async_wait t' ms (Wait_repeat ms) else t')"

text \<open>
  The oldest wait completes. The completion holds a plain pointer to the timer, so completing
  after the timer is gone is undefined. The result tells how often the handler was called.
\<close>

definition timer_fire :: "(timer \<Rightarrow> timer) \<Rightarrow> timer \<Rightarrow> (timer \<times> nat) res" where
  "timer_fire handler t =
     (case tm_waits t of
        [] \<Rightarrow> Inr (t, 0)
      | w # ws \<Rightarrow>
          if \<not> tm_alive t then Inl Undefined
          else let t1 = t\<lparr>tm_waits := ws\<rparr> in
            (case w of
               Wait_handler \<Rightarrow> Inr (handler t1, 1)
             | Wait_repeat ms \<Rightarrow> Inr (repeat_call handler t1 ms, 1)))"

fun timer_run :: "(timer \<Rightarrow> timer) \<Rightarrow> timer \<Rightarrow> nat \<Rightarrow> (timer \<times> nat) res" where
  "timer_run handler t 0 = Inr (t, 0)"
| "timer_run handler t (Suc n) =
     bind_res (timer_fire handler t) (\<lambda>(t', c). bind_res (timer_run handler t' n) (\<lambda>(t'', c'). Inr (t'', c + c')))"

text \<open>The four entry points of \<^verbatim>\<open>timer_service\<close>, which \<^verbatim>\<open>runner\<close> passes on.\<close>

definition service_once :: "bool \<Rightarrow> nat \<Rightarrow> timer res" where
  "service_once nd ms = timer_once nd (timer_create None) ms"

definition service_repeat :: "nat \<Rightarrow> timer" where
  "service_repeat ms = timer_repeat (timer_create None) ms"

definition service_once_strand :: "bool \<Rightarrow> nat \<Rightarrow> nat \<Rightarrow> timer res" where
  "service_once_strand nd strand ms = timer_once nd (timer_create (Some strand)) ms"

definition service_repeat_strand :: "nat \<Rightarrow> nat \<Rightarrow> timer" where
  "service_repeat_strand strand ms = timer_repeat (timer_create (Some strand)) ms"

definition runner_once :: "bool \<Rightarrow> 'h runner \<Rightarrow> nat \<Rightarrow> nat \<Rightarrow> timer res" where
  "runner_once nd r key ms = bind_res (get_strand r key) (\<lambda>i. service_once_strand nd i ms)"

definition runner_repeat :: "'h runner \<Rightarrow> nat \<Rightarrow> nat \<Rightarrow> timer res" where
  "runner_repeat r key ms = bind_res (get_strand r key) (\<lambda>i. Inr (service_repeat_strand i ms))"

section \<open>Lemmas\<close>

lemma make_strands_count [simp]: "make_strands i n = i + n"
  by (induction i arbitrary: n) simp_all

lemmas timer_defs = timer_once_def timer_repeat_def timer_create_def async_wait_def timer_fire_def
  repeat_call_def timer_cancel_def timer_destroy_def service_once_def service_repeat_def
  service_once_strand_def service_repeat_strand_def runner_once_def runner_repeat_def

lemma poll_from_quiet:
  assumes "\<And>h. exec h = []"
  shows "poll_from exec n q = Some (n + length q)"
proof (induction q arbitrary: n)
  case Nil
  then show ?case by (simp add: poll_from.simps)
next
  case (Cons h q)
  then show ?case using assms by (simp add: poll_from.simps [of _ _ "h # q"])
qed

text \<open>A repeating timer without a strand is armed with one repeating wait.\<close>

definition repeating :: "nat \<Rightarrow> timer \<Rightarrow> bool" where
  "repeating ms t \<longleftrightarrow> tm_alive t \<and> tm_set t \<and> tm_waits t = [Wait_repeat ms]"

lemma repeating_fire:
  assumes "repeating ms t" and "\<And>u. tm_alive u \<Longrightarrow> tm_set u \<Longrightarrow> tm_alive (handler u) \<and> tm_set (handler u) \<and>
      tm_waits (handler u) = tm_waits u"
  shows "\<exists>t'. timer_fire handler t = Inr (t', 1) \<and> repeating ms t'"
  using assms(1) assms(2) [of "t\<lparr>tm_waits := []\<rparr>"]
  by (simp add: repeating_def timer_fire_def repeat_call_def async_wait_def Let_def)

lemma repeating_run:
  assumes "repeating ms t" and "\<And>u. tm_alive u \<Longrightarrow> tm_set u \<Longrightarrow> tm_alive (handler u) \<and> tm_set (handler u) \<and>
      tm_waits (handler u) = tm_waits u"
  shows "\<exists>t'. timer_run handler t n = Inr (t', n) \<and> repeating ms t'"
  using assms(1)
proof (induction n arbitrary: t)
  case 0
  then show ?case by simp
next
  case (Suc n)
  obtain t1 where "timer_fire handler t = Inr (t1, 1)" "repeating ms t1"
    using repeating_fire [OF Suc.prems assms(2)] by blast
  with Suc.IH [of t1] show ?case by auto
qed

lemma timer_run_idle: "tm_waits t = [] \<Longrightarrow> timer_run handler t n = Inr (t, 0)"
  by (induction n) (simp_all add: timer_fire_def)

lemma thread_run_stops: "thread_run (pre @ (True, o1) # rest) = thread_run pre"
  by (induction pre) auto

section \<open>Properties\<close>



text \<open>
  A repeating timer without a strand goes on for ever: as long as its handler leaves it set,
  every completion calls the handler and arms the timer again.
\<close>

theorem repeat_fires_forever:
  assumes "\<And>u. tm_alive u \<Longrightarrow> tm_set u \<Longrightarrow> tm_alive (handler u) \<and> tm_set (handler u) \<and>
      tm_waits (handler u) = tm_waits u"
  shows "\<exists>t'. timer_run handler (service_repeat ms) n = Inr (t', n) \<and> repeating ms t'"
proof -
  have "repeating ms (service_repeat ms)"
    by (simp add: repeating_def timer_defs Let_def)
  then show ?thesis using repeating_run assms by blast
qed

theorem repeat_fires_forever_witness:
  "\<exists>t'. timer_run (\<lambda>t. t) (service_repeat 100) 5 = Inr (t', 5) \<and> repeating 100 t'"
  using repeat_fires_forever [of "\<lambda>t. t" 100 5] by blast

text \<open>
  A repeating timer on a strand, which is what \<^verbatim>\<open>runner::repeat(strand_key, ...)\<close>
  makes, calls its handler once and is never armed again, however long one waits.
\<close>

theorem repeat_on_strand_fires_once:
  assumes "runner_repeat r key ms = Inr t"
    and "\<And>u. tm_waits (handler u) = tm_waits u"
  shows "\<exists>t'. timer_run handler t (Suc n) = Inr (t', 1) \<and> tm_waits t' = []"
  using assms timer_run_idle [of "handler (t\<lparr>tm_waits := []\<rparr>)" handler n]
  by (auto simp: timer_defs get_strand_def Let_def split: if_splits)

theorem repeat_on_strand_fires_once_witness:
  "\<exists>t t'. runner_repeat (runner_create ''front'' 64 :: nat runner) 7 100 = Inr t \<and>
     timer_run (\<lambda>t. t) t 5 = Inr (t', 1) \<and> tm_waits t' = []"
proof -
  obtain t where t: "runner_repeat (runner_create ''front'' 64 :: nat runner) 7 100 = Inr t"
    by (simp add: timer_defs get_strand_def runner_create_def)
  show ?thesis using t repeat_on_strand_fires_once [OF t, of "\<lambda>t. t" 4] by (auto simp: numeral_eq_Suc)
qed

text \<open>
  Cancelling a timer does not keep its handler from being called: the cancelled wait still
  completes and calls it, once, and a repeating timer stops after that.
\<close>

theorem cancelled_timer_still_fires:
  assumes "\<And>u. tm_waits (handler u) = tm_waits u \<and> tm_set (handler u) = tm_set u \<and> tm_alive (handler u) = tm_alive u"
  shows "\<exists>t'. timer_run handler (timer_cancel (service_repeat ms)) (Suc n) = Inr (t', 1) \<and> tm_waits t' = []"
  using assms timer_run_idle [of "handler ((timer_cancel (service_repeat ms))\<lparr>tm_waits := []\<rparr>)" handler n]
  by (simp add: timer_defs Let_def)

theorem cancelled_timer_still_fires_witness:
  "\<exists>t'. timer_run (\<lambda>t. t) (timer_cancel (service_repeat 100)) 3 = Inr (t', 1) \<and> tm_waits t' = []"
  using cancelled_timer_still_fires [of "\<lambda>t. t" 100 2] by (simp add: numeral_eq_Suc)

text \<open>
  Dropping the last reference to a pending timer destroys it; the wait the destructor
  cancels then completes on a timer that is gone.
\<close>

theorem dropped_timer_is_undefined:
  assumes "tm_waits t \<noteq> []"
  shows "timer_fire handler (timer_destroy t) = Inl Undefined"
  using assms by (auto simp: timer_fire_def timer_destroy_def timer_cancel_def split: list.split)

theorem dropped_timer_is_undefined_witness:
  "timer_fire (\<lambda>t. t) (timer_destroy (service_repeat 100)) = Inl Undefined"
  using dropped_timer_is_undefined [of "service_repeat 100" "\<lambda>t. t"] by (simp add: timer_defs Let_def)

lemma poll_from_ends:
  assumes "\<And>h g. g \<in> set (exec h) \<Longrightarrow> rank g < (rank h :: nat)"
  shows "\<exists>m. poll_from exec n q = Some m \<and> n + length q \<le> m"
proof (induction "mset (map rank q)" arbitrary: n q rule: wf_induct_rule [OF wf_mult [OF wf_less_than]])
  case 1
  show ?case
  proof (cases q)
    case Nil
    then show ?thesis by (simp add: poll_from.simps)
  next
    case (Cons h q')
    have "(mset (map rank (exec h)) + mset (map rank q'), {#rank h#} + mset (map rank q')) \<in> mult less_than"
      using assms [of _ h] by (intro mult_cancel [THEN iffD2] one_step_implies_mult [where I = "{#}", simplified]) (auto simp: irrefl_on_def)
    then obtain m where "poll_from exec (Suc n) (q' @ exec h) = Some m" "Suc n + length (q' @ exec h) \<le> m"
      using 1 [of "q' @ exec h" "Suc n"] by (auto simp: Cons add.commute)
    then show ?thesis using poll_from.simps [of exec n q] by (auto simp: Cons intro!: exI [of _ m])
  qed
qed



end
