(* ===== verification/Pulse.thy ===== *)
theory Pulse
  imports Ordered_Map Runner
begin

text \<open>
  \<^verbatim>\<open>play/net/pulse.hpp\<close> and \<^verbatim>\<open>pulse.ipp\<close>: publish and subscribe over
  sessions. Pulses form a tree (\<^verbatim>\<open>as_child\<close>); frames arrive at the root, which posts
  them to its own subscribers and to the children that showed interest in a topic, for all
  sessions or for one.

  Pulses are objects in a store, known by address; 0 is \<^verbatim>\<open>nullptr\<close> and an address
  without an object is a dangling pointer. Sessions and runners are addresses. A receiver is
  a callback of the application (type \<open>'cb\<close>) or one of the two lambdas \<^verbatim>\<open>call\<close>
  subscribes, which hold a pointer to their pulse. Posting to a runner appends to
  \<open>pw_posts\<close>; \<open>run_post\<close> is what the runner does with an entry later. Mutexes are not
  modelled: every operation is one step.

  Following \<^verbatim>\<open>parent_\<close> pointers is recursion with the number of pulses as fuel. A
  chain that is longer has a cycle, and the recursion of the code does not end either
  (\<open>Undefined\<close>); the lemmas show that the fuel is enough in a tree.
\<close>

section \<open>State\<close>

type_synonym topic = "16 word"

definition topic_established :: topic where "topic_established = 1"
definition topic_closed :: topic where "topic_closed = 2"

datatype pulse_mode = Mode_none | Mode_server | Mode_client | Mode_child | Mode_independent

datatype 'cb receiver = User_cb 'cb | Call_receive_cb nat topic | Call_closed_cb nat

record 'cb caller =
  call_id :: nat
  caller_cb :: 'cb

record 'cb topic_calls =
  call_index :: nat
  reply_index :: nat
  callers :: "'cb caller list"

record 'cb pulse =
  pu_mode :: pulse_mode
  pu_final :: bool
  pu_subscriptions :: "topic \<rightharpoonup> (nat \<times> 'cb receiver) list"
  pu_interests :: "nat \<times> topic \<rightharpoonup> nat list"
  pu_self_interests :: "(nat \<times> topic) list"
  pu_runner :: nat
  pu_stop :: bool
  pu_server :: bool
  pu_client :: bool
  pu_parent :: nat
  pu_childs :: "nat list"
  pu_port :: nat
  pu_addr :: string
  pu_session :: nat
  pu_strand :: nat
  pu_calls :: "(topic \<times> 'cb topic_calls) list"
  pu_call_pairs :: "topic \<rightharpoonup> topic"

datatype ('cb, 'f) post =
    Post_receive nat nat "'cb receiver" nat "'f option"
  | Post_call nat nat 'cb
  | Post_handler nat nat 'cb

record ('cb, 'f) world =
  pw_pulse :: "nat \<rightharpoonup> 'cb pulse"
  pw_next :: nat
  pw_posts :: "('cb, 'f) post list"

definition world_empty :: "('cb, 'f) world" where
  "world_empty = \<lparr>pw_pulse = Map.empty, pw_next = 1, pw_posts = []\<rparr>"

definition pulse_default :: "'cb pulse" where
  "pulse_default = \<lparr>pu_mode = Mode_none, pu_final = False, pu_subscriptions = Map.empty,
     pu_interests = Map.empty, pu_self_interests = [], pu_runner = 0, pu_stop = False,
     pu_server = False, pu_client = False, pu_parent = 0, pu_childs = [], pu_port = 0, pu_addr = [],
     pu_session = 0, pu_strand = 0, pu_calls = [], pu_call_pairs = Map.empty\<rparr>"

text \<open>Creating an object, dereferencing a pointer, updating the object behind one.\<close>

definition pulse_new :: "('cb, 'f) world \<Rightarrow> ('cb, 'f) world \<times> nat" where
  "pulse_new w = (w\<lparr>pw_pulse := (pw_pulse w)(pw_next w \<mapsto> pulse_default), pw_next := Suc (pw_next w)\<rparr>, pw_next w)"

definition deref :: "('cb, 'f) world \<Rightarrow> nat \<Rightarrow> ('cb pulse \<Rightarrow> 'r res) \<Rightarrow> 'r res" where
  "deref w a k = (if a = 0 then Inl Undefined else (case pw_pulse w a of None \<Rightarrow> Inl Undefined | Some p \<Rightarrow> k p))"

definition put :: "('cb, 'f) world \<Rightarrow> nat \<Rightarrow> 'cb pulse \<Rightarrow> ('cb, 'f) world" where
  "put w a p = w\<lparr>pw_pulse := (pw_pulse w)(a \<mapsto> p)\<rparr>"

definition modify :: "('cb, 'f) world \<Rightarrow> nat \<Rightarrow> ('cb pulse \<Rightarrow> 'cb pulse) \<Rightarrow> ('cb, 'f) world res" where
  "modify w a f = deref w a (\<lambda>p. Inr (put w a (f p)))"

section \<open>The tree\<close>

definition is_root :: "'cb pulse \<Rightarrow> bool" where
  "is_root p \<longleftrightarrow> pu_parent p = 0"

fun get_runner_n :: "bool \<Rightarrow> ('cb, 'f) world \<Rightarrow> nat \<Rightarrow> nat \<Rightarrow> nat res" where
  "get_runner_n nd w 0 a = Inl Undefined"
| "get_runner_n nd w (Suc n) a = deref w a (\<lambda>p.
     if pu_runner p = 0 then play_check nd (pu_parent p \<noteq> 0) (get_runner_n nd w n (pu_parent p))
     else Inr (pu_runner p))"

definition get_runner :: "bool \<Rightarrow> ('cb, 'f) world \<Rightarrow> nat \<Rightarrow> nat res" where
  "get_runner nd w a = get_runner_n nd w (pw_next w) a"

fun get_root_n :: "('cb, 'f) world \<Rightarrow> nat \<Rightarrow> nat \<Rightarrow> nat res" where
  "get_root_n w 0 a = Inl Undefined"
| "get_root_n w (Suc n) a = deref w a (\<lambda>p. if is_root p then Inr a else get_root_n w n (pu_parent p))"

definition get_root :: "('cb, 'f) world \<Rightarrow> nat \<Rightarrow> nat res" where
  "get_root w a = get_root_n w (pw_next w) a"

definition bind_child :: "bool \<Rightarrow> ('cb, 'f) world \<Rightarrow> nat \<Rightarrow> nat \<Rightarrow> ('cb, 'f) world res" where
  "bind_child nd w a child = deref w a (\<lambda>p.
     play_check nd (\<not> pu_final p) (play_check nd (child \<noteq> 0)
       (if pu_final p then Inl (Thrown Play_error)
        else Inr (put w a (p\<lparr>pu_childs := oset_insert child (pu_childs p)\<rparr>)))))"

text \<open>The loop that takes a child out of the interests it registered at the root.\<close>

definition lose_interest :: "nat \<Rightarrow> (nat \<times> topic \<rightharpoonup> nat list) \<Rightarrow> nat \<times> topic \<Rightarrow> (nat \<times> topic \<rightharpoonup> nat list)" where
  "lose_interest child m key = (case m key of None \<Rightarrow> m | Some cs \<Rightarrow> m(key \<mapsto> oset_erase child cs))"

definition unbind_child :: "bool \<Rightarrow> ('cb, 'f) world \<Rightarrow> nat \<Rightarrow> nat \<Rightarrow> ('cb, 'f) world res" where
  "unbind_child nd w a child = deref w a (\<lambda>p.
     play_check nd (\<not> pu_final p) (play_check nd (child \<noteq> 0)
       (let p1 = p\<lparr>pu_childs := oset_erase child (pu_childs p)\<rparr> in
        if is_root p1 then
          deref w child (\<lambda>c. Inr (put w a (p1\<lparr>pu_interests :=
              foldl (lose_interest child) (pu_interests p1) (pu_self_interests c)\<rparr>)))
        else Inr (put w a p1))))"

definition show_interest :: "bool \<Rightarrow> ('cb, 'f) world \<Rightarrow> nat \<Rightarrow> nat \<Rightarrow> nat \<Rightarrow> topic \<Rightarrow> ('cb, 'f) world res" where
  "show_interest nd w a child skey pic = deref w a (\<lambda>p.
     play_check nd (is_root p)
      (let cs = (case pu_interests p (skey, pic) of None \<Rightarrow> [] | Some cs \<Rightarrow> cs) in
       Inr (put w a (p\<lparr>pu_interests := (pu_interests p)((skey, pic) \<mapsto> oset_insert child cs)\<rparr>))))"

section \<open>Configuration\<close>

definition as_server :: "bool \<Rightarrow> ('cb, 'f) world \<Rightarrow> nat \<Rightarrow> nat \<Rightarrow> nat \<Rightarrow> ('cb, 'f) world res" where
  "as_server nd w a runner port = play_check nd (runner \<noteq> 0)
     (modify w a (\<lambda>p. p\<lparr>pu_runner := runner, pu_mode := Mode_server, pu_port := port\<rparr>))"

definition as_client :: "bool \<Rightarrow> ('cb, 'f) world \<Rightarrow> nat \<Rightarrow> nat \<Rightarrow> string \<Rightarrow> ('cb, 'f) world res" where
  "as_client nd w a runner addr = play_check nd (runner \<noteq> 0)
     (modify w a (\<lambda>p. p\<lparr>pu_runner := runner, pu_mode := Mode_client, pu_addr := addr\<rparr>))"

definition as_independent :: "bool \<Rightarrow> ('cb, 'f) world \<Rightarrow> nat \<Rightarrow> nat \<Rightarrow> ('cb, 'f) world res" where
  "as_independent nd w a runner = play_check nd (runner \<noteq> 0)
     (modify w a (\<lambda>p. p\<lparr>pu_runner := runner, pu_mode := Mode_independent\<rparr>))"

definition as_child :: "bool \<Rightarrow> ('cb, 'f) world \<Rightarrow> nat \<Rightarrow> nat \<Rightarrow> ('cb, 'f) world res" where
  "as_child nd w a parent = play_check nd (parent \<noteq> 0)
     (bind_res (modify w a (\<lambda>p. p\<lparr>pu_mode := Mode_child, pu_parent := parent\<rparr>)) (\<lambda>w'.
        bind_child nd w' parent a))"

definition with_strand :: "('cb, 'f) world \<Rightarrow> nat \<Rightarrow> nat \<Rightarrow> ('cb, 'f) world res" where
  "with_strand w a key = modify w a (\<lambda>p. p\<lparr>pu_strand := key\<rparr>)"

definition with_session :: "('cb, 'f) world \<Rightarrow> nat \<Rightarrow> nat \<Rightarrow> ('cb, 'f) world res" where
  "with_session w a ss = modify w a (\<lambda>p. p\<lparr>pu_session := ss\<rparr>)"

definition mark_final :: "('cb, 'f) world \<Rightarrow> nat \<Rightarrow> ('cb, 'f) world res" where
  "mark_final w a = modify w a (\<lambda>p. p\<lparr>pu_final := True\<rparr>)"

text \<open>
  \<^verbatim>\<open>inherit_session()\<close> returns a reference but has no return statement: flowing off
  its end is undefined, whatever the loop found.
\<close>

fun inherited_session :: "('cb, 'f) world \<Rightarrow> nat \<Rightarrow> nat \<Rightarrow> nat res" where
  "inherited_session w 0 a = Inl Undefined"
| "inherited_session w (Suc n) a =
     (if a = 0 then Inr 0
      else deref w a (\<lambda>p. if pu_session p \<noteq> 0 then Inr (pu_session p) else inherited_session w n (pu_parent p)))"

definition inherit_session :: "bool \<Rightarrow> ('cb, 'f) world \<Rightarrow> nat \<Rightarrow> ('cb, 'f) world res" where
  "inherit_session nd w a = deref w a (\<lambda>p.
     play_check nd (pu_session p = 0)
      (bind_res (inherited_session w (Suc (pw_next w)) (pu_parent p)) (\<lambda>s.
         play_check nd (s \<noteq> 0 \<or> pu_session p \<noteq> 0) (Inl Undefined))))"

section \<open>Start and stop\<close>

text \<open>
  \<open>endpoint_ok\<close> is what \<^verbatim>\<open>server_->start\<close> or \<^verbatim>\<open>client_->connect\<close> returns. A second
  \<^verbatim>\<open>start()\<close> replaces the server or client object.
\<close>

definition pulse_start :: "bool \<Rightarrow> ('cb, 'f) world \<Rightarrow> nat \<Rightarrow> bool \<Rightarrow> (('cb, 'f) world \<times> bool) res" where
  "pulse_start nd w a endpoint_ok = deref w a (\<lambda>p.
     play_check nd (pu_mode p \<noteq> Mode_none)
      (bind_res (get_runner nd w a) (\<lambda>r. play_check nd (r \<noteq> 0)
        (case pu_mode p of
           Mode_server \<Rightarrow> if pu_runner p = 0 then Inr (w, False)
             else Inr (put w a (p\<lparr>pu_server := True\<rparr>), endpoint_ok)
         | Mode_client \<Rightarrow> if pu_runner p = 0 then Inr (w, False)
             else Inr (put w a (p\<lparr>pu_client := True\<rparr>), endpoint_ok)
         | Mode_child \<Rightarrow> Inr (w, pu_parent p \<noteq> 0)
         | Mode_independent \<Rightarrow> Inr (w, True)
         | Mode_none \<Rightarrow> Inr (w, False)))))"

datatype stop_action = Stop_server | Close_client | Stop_nothing

definition pulse_stop :: "bool \<Rightarrow> ('cb, 'f) world \<Rightarrow> nat \<Rightarrow> (('cb, 'f) world \<times> stop_action) res" where
  "pulse_stop nd w a = deref w a (\<lambda>p.
     if pu_stop p then Inr (w, Stop_nothing)
     else let w1 = put w a (p\<lparr>pu_stop := True\<rparr>) in
       if pu_childs p \<noteq> [] then Inl (Thrown Play_error)
       else (case pu_mode p of
           Mode_server \<Rightarrow> if pu_server p then Inr (w1, Stop_server) else Inl Undefined
         | Mode_client \<Rightarrow> if pu_client p then Inr (w1, Close_client) else Inl Undefined
         | Mode_child \<Rightarrow> bind_res (unbind_child nd w1 (pu_parent p) a) (\<lambda>w2. Inr (w2, Stop_nothing))
         | Mode_independent \<Rightarrow> Inr (w1, Stop_nothing)
         | Mode_none \<Rightarrow> Inr (w1, Stop_nothing)))"

text \<open>The destructor: stop, then the object is gone.\<close>

definition pulse_destroy :: "bool \<Rightarrow> ('cb, 'f) world \<Rightarrow> nat \<Rightarrow> ('cb, 'f) world res" where
  "pulse_destroy nd w a = bind_res (pulse_stop nd w a) (\<lambda>(w', _).
     Inr (w'\<lparr>pw_pulse := (pw_pulse w')(a := None)\<rparr>))"

section \<open>Subscriptions and dispatch\<close>

definition pulse_subscribe :: "bool \<Rightarrow> ('cb, 'f) world \<Rightarrow> nat \<Rightarrow> topic \<Rightarrow> 'cb receiver \<Rightarrow> ('cb, 'f) world res" where
  "pulse_subscribe nd w a pic cb = deref w a (\<lambda>p.
     play_check nd (pu_mode p \<noteq> Mode_none)
      (let session_key = pu_session p;
           subs = (case pu_subscriptions p pic of None \<Rightarrow> [] | Some ss \<Rightarrow> ss);
           p1 = p\<lparr>pu_subscriptions := (pu_subscriptions p)(pic \<mapsto> subs @ [(session_key, cb)])\<rparr>
       in if is_root p1 then Inr (put w a p1)
          else let p2 = p1\<lparr>pu_self_interests := List.insert (session_key, pic) (pu_self_interests p1)\<rparr>;
                   w1 = put w a p2
               in bind_res (get_root w1 a) (\<lambda>r. show_interest nd w1 r a session_key pic)))"

definition has_subscription :: "'cb pulse \<Rightarrow> topic \<Rightarrow> bool" where
  "has_subscription p pic \<longleftrightarrow> pu_subscriptions p pic \<noteq> None"

definition is_target :: "nat \<Rightarrow> nat \<Rightarrow> bool \<Rightarrow> bool" where
  "is_target sub_key key from_root \<longleftrightarrow> (if from_root then sub_key = key else sub_key = 0 \<or> sub_key = key)"

definition subscribers :: "'cb pulse \<Rightarrow> topic \<Rightarrow> (nat \<times> 'cb receiver) list" where
  "subscribers p pic = (case pu_subscriptions p pic of None \<Rightarrow> [] | Some ss \<Rightarrow> ss)"

definition interested :: "'cb pulse \<Rightarrow> nat \<Rightarrow> topic \<Rightarrow> nat list" where
  "interested p skey pic = (case pu_interests p (skey, pic) of None \<Rightarrow> [] | Some cs \<Rightarrow> cs)"

text \<open>The part of \<^verbatim>\<open>dispatch\<close> that posts to the pulse's own subscribers.\<close>

definition post_subscriber :: "bool \<Rightarrow> ('cb, 'f) world \<Rightarrow> nat \<Rightarrow> nat \<Rightarrow> nat \<Rightarrow> 'f option \<Rightarrow> bool
    \<Rightarrow> nat \<times> 'cb receiver \<Rightarrow> ('cb, 'f) post list res" where
  "post_subscriber nd w a strand se frame from_root sub =
     (if is_target (fst sub) se from_root
      then bind_res (get_runner nd w a) (\<lambda>r. Inr [Post_receive r strand (snd sub) se frame])
      else Inr [])"

fun dispatch_n :: "bool \<Rightarrow> ('cb, 'f) world \<Rightarrow> nat \<Rightarrow> nat \<Rightarrow> nat \<Rightarrow> topic \<Rightarrow> 'f option \<Rightarrow> bool
    \<Rightarrow> ('cb, 'f) post list res" where
  "dispatch_n nd w 0 a se pic frame from_root = Inl Undefined"
| "dispatch_n nd w (Suc n) a se pic frame from_root = deref w a (\<lambda>p.
     bind_res (collect_res (post_subscriber nd w a (pu_strand p) se frame from_root) (subscribers p pic)) (\<lambda>own.
       if is_root p then
         bind_res (collect_res (\<lambda>c. dispatch_n nd w n c 0 pic frame True) (interested p 0 pic)) (\<lambda>blind.
         bind_res (if se \<noteq> 0 then collect_res (\<lambda>c. dispatch_n nd w n c se pic frame True) (interested p se pic)
                   else Inr []) (\<lambda>bound. Inr (own @ blind @ bound)))
       else Inr own))"

definition dispatch :: "bool \<Rightarrow> ('cb, 'f) world \<Rightarrow> nat \<Rightarrow> nat \<Rightarrow> topic \<Rightarrow> 'f option \<Rightarrow> ('cb, 'f) world res" where
  "dispatch nd w a se pic frame = bind_res (dispatch_n nd w (pw_next w) a se pic frame False) (\<lambda>ps.
     Inr (w\<lparr>pw_posts := pw_posts w @ ps\<rparr>))"

definition publish :: "bool \<Rightarrow> ('cb, 'f) world \<Rightarrow> nat \<Rightarrow> nat \<Rightarrow> topic \<Rightarrow> 'f option \<Rightarrow> ('cb, 'f) world res" where
  "publish nd w a se pic frame = dispatch nd w a se pic frame"

text \<open>\<open>unpack\<close> is the virtual function of the derived class, which makes the frame.\<close>

definition pulse_on_receive :: "bool \<Rightarrow> (topic \<Rightarrow> bytes \<Rightarrow> 'f option) \<Rightarrow> ('cb, 'f) world \<Rightarrow> nat \<Rightarrow> nat \<Rightarrow> topic
    \<Rightarrow> bytes \<Rightarrow> ('cb, 'f) world res" where
  "pulse_on_receive nd unpack w a se pic data =
     play_check nd (pic \<noteq> topic_established) (play_check nd (pic \<noteq> topic_closed)
       (case unpack pic data of None \<Rightarrow> Inr w | Some f \<Rightarrow> dispatch nd w a se pic (Some f)))"

definition pulse_on_established :: "bool \<Rightarrow> ('cb, 'f) world \<Rightarrow> nat \<Rightarrow> nat \<Rightarrow> ('cb, 'f) world res" where
  "pulse_on_established nd w a se = dispatch nd w a se topic_established None"

definition pulse_on_closed :: "bool \<Rightarrow> ('cb, 'f) world \<Rightarrow> nat \<Rightarrow> nat \<Rightarrow> ('cb, 'f) world res" where
  "pulse_on_closed nd w a se = dispatch nd w a se topic_closed None"

definition pulse_post :: "bool \<Rightarrow> ('cb, 'f) world \<Rightarrow> nat \<Rightarrow> 'cb \<Rightarrow> ('cb, 'f) world res" where
  "pulse_post nd w a handler = deref w a (\<lambda>p. bind_res (get_runner nd w a) (\<lambda>r. play_check nd (r \<noteq> 0)
     (Inr (w\<lparr>pw_posts := pw_posts w @ [Post_handler r (pu_strand p) handler]\<rparr>))))"

text \<open>Timers of a pulse; \<open>runners\<close> gives the runner object at an address.\<close>

definition pulse_once :: "bool \<Rightarrow> (nat \<Rightarrow> 'h runner) \<Rightarrow> ('cb, 'f) world \<Rightarrow> nat \<Rightarrow> nat \<Rightarrow> timer res" where
  "pulse_once nd runners w a ms = deref w a (\<lambda>p. bind_res (get_runner nd w a) (\<lambda>r. play_check nd (r \<noteq> 0)
     (if pu_strand p > 0 then runner_once nd (runners r) (pu_strand p) ms else service_once nd ms)))"

definition pulse_repeat :: "bool \<Rightarrow> (nat \<Rightarrow> 'h runner) \<Rightarrow> ('cb, 'f) world \<Rightarrow> nat \<Rightarrow> nat \<Rightarrow> timer res" where
  "pulse_repeat nd runners w a ms = deref w a (\<lambda>p. bind_res (get_runner nd w a) (\<lambda>r. play_check nd (r \<noteq> 0)
     (if pu_strand p > 0 then runner_repeat (runners r) (pu_strand p) ms else Inr (service_repeat ms))))"

section \<open>Calls\<close>

definition call_subscribe_reply :: "bool \<Rightarrow> ('cb, 'f) world \<Rightarrow> nat \<Rightarrow> topic \<Rightarrow> ('cb, 'f) world res" where
  "call_subscribe_reply nd w a pic = deref w a (\<lambda>p.
     play_check nd (\<not> is_root p) (play_check nd (pu_session p \<noteq> 0)
       (if \<not> has_subscription p pic then pulse_subscribe nd w a pic (Call_receive_cb a pic) else Inr w)))"

definition call_subscribe_closed :: "bool \<Rightarrow> ('cb, 'f) world \<Rightarrow> nat \<Rightarrow> ('cb, 'f) world res" where
  "call_subscribe_closed nd w a = deref w a (\<lambda>p.
     play_check nd (\<not> is_root p) (play_check nd (pu_session p \<noteq> 0)
       (if \<not> has_subscription p topic_closed
        then pulse_subscribe nd w a topic_closed (Call_closed_cb a) else Inr w)))"

definition topic_calls_new :: "'cb topic_calls" where
  "topic_calls_new = \<lparr>call_index = 0, reply_index = 0, callers = []\<rparr>"

definition add_caller :: "'cb \<Rightarrow> 'cb topic_calls \<Rightarrow> 'cb topic_calls" where
  "add_caller cb tc = (let i = Suc (call_index tc) in
     tc\<lparr>call_index := i, callers := callers tc @ [\<lparr>call_id = i, caller_cb = cb\<rparr>]\<rparr>)"

definition pulse_call :: "bool \<Rightarrow> ('cb, 'f) world \<Rightarrow> nat \<Rightarrow> topic \<Rightarrow> topic \<Rightarrow> 'cb \<Rightarrow> ('cb, 'f) world res" where
  "pulse_call nd w a req res cb = deref w a (\<lambda>p.
     play_check nd (pu_mode p = Mode_child) (play_check nd (pu_session p \<noteq> 0)
      (play_check nd (\<not> is_root p)
       (bind_res (call_subscribe_closed nd w a) (\<lambda>w1.
        bind_res (call_subscribe_reply nd w1 a res) (\<lambda>w2.
        modify w2 a (\<lambda>p2.
          let tc = (case map_of (pu_calls p2) req of None \<Rightarrow> topic_calls_new | Some tc \<Rightarrow> tc) in
          p2\<lparr>pu_calls := omap_set req (add_caller cb tc) (pu_calls p2),
             pu_call_pairs := (pu_call_pairs p2)(res \<mapsto> req)\<rparr>)))))))"

text \<open>All outstanding callers, in the order of their request topics.\<close>

definition outstanding :: "'cb pulse \<Rightarrow> 'cb list" where
  "outstanding p = concat (map (\<lambda>(_, tc). map caller_cb (callers tc)) (pu_calls p))"

definition call_closed :: "bool \<Rightarrow> ('cb, 'f) world \<Rightarrow> nat \<Rightarrow> nat \<Rightarrow> ('cb, 'f) world res" where
  "call_closed nd w a se = deref w a (\<lambda>p.
     play_check nd (pu_mode p = Mode_child) (play_check nd (\<not> is_root p) (play_check nd (pu_session p \<noteq> 0)
       (if se \<noteq> pu_session p then Inr w
        else let w1 = put w a (p\<lparr>pu_calls := []\<rparr>) in
          bind_res (collect_res (\<lambda>cb. bind_res (get_runner nd w1 a) (\<lambda>r. Inr [Post_call r (pu_strand p) cb]))
              (outstanding p)) (\<lambda>ps.
            Inr (w1\<lparr>pw_posts := pw_posts w1 @ ps\<rparr>))))))"

text \<open>A reply takes the oldest caller of its request from the queue.\<close>

definition pop_caller :: "bool \<Rightarrow> 'cb topic_calls \<Rightarrow> 'cb topic_calls res" where
  "pop_caller nd tc =
     (let tc1 = tc\<lparr>reply_index := Suc (reply_index tc)\<rparr> in
      play_check nd (callers tc1 \<noteq> [])
       (case callers tc1 of
          [] \<Rightarrow> Inl Undefined
        | c # cs \<Rightarrow> play_check nd (call_id c = reply_index tc1) (Inr (tc1\<lparr>callers := cs\<rparr>))))"

definition call_receive :: "bool \<Rightarrow> ('cb, 'f) world \<Rightarrow> nat \<Rightarrow> nat \<Rightarrow> topic \<Rightarrow> ('cb, 'f) world res" where
  "call_receive nd w a se pic = deref w a (\<lambda>p.
     play_check nd (pu_mode p = Mode_child) (play_check nd (\<not> is_root p) (play_check nd (pu_session p \<noteq> 0)
       (case pu_call_pairs p pic of
          None \<Rightarrow> Inr w
        | Some req \<Rightarrow>
            (case map_of (pu_calls p) req of
               None \<Rightarrow> Inr w
             | Some tc \<Rightarrow> bind_res (pop_caller nd tc) (\<lambda>tc'.
                 Inr (put w a (p\<lparr>pu_calls := omap_set req tc' (pu_calls p)\<rparr>))))))))"

text \<open>Running what was posted: the lambdas of \<^verbatim>\<open>call\<close> act on their pulse.\<close>

fun run_post :: "bool \<Rightarrow> ('cb, 'f) world \<Rightarrow> ('cb, 'f) post \<Rightarrow> ('cb, 'f) world res" where
  "run_post nd w (Post_receive r s (Call_receive_cb a pic) se frame) = call_receive nd w a se pic"
| "run_post nd w (Post_receive r s (Call_closed_cb a) se frame) = call_closed nd w a se"
| "run_post nd w _ = Inr w"

end
