(* ===== verification/Pulse_Tree.thy ===== *)
theory Pulse_Tree
  imports Pulse
begin

text \<open>
  The tree of pulses and the delivery of frames. \<open>root_of\<close> is the parent chain as a
  relation, without fuel; \<open>pulses_ok\<close> is the invariant of a world in which pulses are
  configured before they are used and children are bound to older, configured pulses. It is
  kept by every operation, destruction of a pulse included as long as the parent of the pulse
  is a root, and it makes dispatching total.
\<close>

section \<open>Store\<close>

lemma deref_eq_Inr [res_simps]:
  "deref w a k = Inr y \<longleftrightarrow> a \<noteq> 0 \<and> (\<exists>p. pw_pulse w a = Some p \<and> k p = Inr y)"
  by (auto simp: deref_def split: option.splits)

lemma deref_live [simp]: "pw_pulse w a = Some p \<Longrightarrow> a \<noteq> 0 \<Longrightarrow> deref w a k = k p"
  by (simp add: deref_def)

lemma deref_dangling: "a = 0 \<or> pw_pulse w a = None \<Longrightarrow> deref w a k = Inl Undefined"
  by (auto simp: deref_def)

lemma put_simps [simp]:
  "pw_pulse (put w a p) b = (if b = a then Some p else pw_pulse w b)"
  "pw_next (put w a p) = pw_next w" "pw_posts (put w a p) = pw_posts w"
  by (simp_all add: put_def)

lemma modify_eq_Inr [res_simps]:
  "modify w a f = Inr w' \<longleftrightarrow> a \<noteq> 0 \<and> (\<exists>p. pw_pulse w a = Some p \<and> w' = put w a (f p))"
  by (auto simp: modify_def deref_eq_Inr)

section \<open>Roots\<close>

inductive root_of :: "('cb, 'f) world \<Rightarrow> nat \<Rightarrow> nat \<Rightarrow> bool" for w :: "('cb, 'f) world" where
  here: "pw_pulse w a = Some p \<Longrightarrow> pu_parent p = 0 \<Longrightarrow> root_of w a a"
| up: "pw_pulse w a = Some p \<Longrightarrow> pu_parent p \<noteq> 0 \<Longrightarrow> root_of w (pu_parent p) r \<Longrightarrow> root_of w a r"

inductive_cases root_ofE: "root_of w a r"

lemma root_of_unique: "root_of w a r \<Longrightarrow> root_of w a r' \<Longrightarrow> r = r'"
  by (induction rule: root_of.induct) (auto elim: root_ofE)

lemma root_of_live: "root_of w a r \<Longrightarrow> \<exists>q. pw_pulse w r = Some q \<and> pu_parent q = 0"
  by (induction rule: root_of.induct) auto

lemma get_root_n_root_of: "get_root_n w n a = Inr r \<Longrightarrow> root_of w a r"
  by (induction n arbitrary: a) (auto simp: res_simps is_root_def split: if_splits intro: root_of.intros)

text \<open>Only parents matter for the root.\<close>

lemma root_of_mono:
  assumes "root_of w a r" and "\<And>b p. pw_pulse w b = Some p \<Longrightarrow> \<exists>p'. pw_pulse w' b = Some p' \<and> pu_parent p' = pu_parent p"
  shows "root_of w' a r"
  using assms(1)
proof (induction rule: root_of.induct)
  case (here a p)
  with assms(2) [of a p] show ?case by (auto intro: root_of.here)
next
  case (up a p r)
  with assms(2) [of a p] show ?case by (auto intro: root_of.up)
qed

lemma root_of_put:
  assumes "pw_pulse w a = Some p" and "pu_parent p' = pu_parent p"
  shows "root_of (put w a p') b r \<longleftrightarrow> root_of w b r"
proof
  assume "root_of (put w a p') b r"
  then show "root_of w b r"
    by (rule root_of_mono) (use assms in \<open>auto split: if_splits\<close>)
next
  assume "root_of w b r"
  then show "root_of (put w a p') b r"
    by (rule root_of_mono) (use assms in auto)
qed

section \<open>The invariant\<close>

definition pulse_ok :: "('cb, 'f) world \<Rightarrow> nat \<Rightarrow> 'cb pulse \<Rightarrow> bool" where
  "pulse_ok w a p \<longleftrightarrow> 0 < a \<and> a < pw_next w \<and>
     (pu_mode p = Mode_none \<longrightarrow> pu_parent p = 0 \<and> pu_subscriptions p = Map.empty \<and>
        pu_interests p = Map.empty \<and> pu_childs p = []) \<and>
     (pu_mode p \<noteq> Mode_none \<and> pu_parent p = 0 \<longrightarrow> pu_runner p \<noteq> 0) \<and>
     (pu_parent p \<noteq> 0 \<longrightarrow> pu_parent p < a \<and>
        (\<exists>q. pw_pulse w (pu_parent p) = Some q \<and> pu_mode q \<noteq> Mode_none \<and> a \<in> set (pu_childs q))) \<and>
     (\<forall>k t. \<forall>c \<in> set (interested p k t).
        \<exists>pc. pw_pulse w c = Some pc \<and> pu_parent pc \<noteq> 0 \<and> root_of w c a \<and> (k, t) \<in> set (pu_self_interests pc))"

definition pulses_ok :: "('cb, 'f) world \<Rightarrow> bool" where
  "pulses_ok w \<longleftrightarrow> 0 < pw_next w \<and> (\<forall>a p. pw_pulse w a = Some p \<longrightarrow> pulse_ok w a p)"

lemma pulses_okD: "pulses_ok w \<Longrightarrow> pw_pulse w a = Some p \<Longrightarrow> pulse_ok w a p"
  by (simp add: pulses_ok_def)

lemma pulse_ok_interested:
  "pulse_ok w a p \<Longrightarrow> c \<in> set (interested p k t) \<Longrightarrow>
    \<exists>pc. pw_pulse w c = Some pc \<and> pu_parent pc \<noteq> 0 \<and> root_of w c a \<and> (k, t) \<in> set (pu_self_interests pc)"
  unfolding pulse_ok_def by blast

lemma pulses_ok_parent:
  assumes "pulses_ok w" and "pw_pulse w a = Some p" and "pu_parent p \<noteq> 0"
  shows "pu_parent p < a" "\<exists>q. pw_pulse w (pu_parent p) = Some q \<and> pu_mode q \<noteq> Mode_none"
  using pulses_okD [OF assms(1,2)] assms(3) by (auto simp: pulse_ok_def)

lemma pulses_ok_bounds: "pulses_ok w \<Longrightarrow> pw_pulse w a = Some p \<Longrightarrow> 0 < a \<and> a < pw_next w"
  using pulses_okD by (fastforce simp: pulse_ok_def)

text \<open>With children younger than their parents the fuel is enough: both walks reach the root.\<close>

lemma get_root_n_total:
  assumes "pulses_ok w"
  shows "pw_pulse w a = Some p \<Longrightarrow> a \<le> n \<Longrightarrow> \<exists>r. get_root_n w n a = Inr r"
proof (induction n arbitrary: a p)
  case 0
  then show ?case using pulses_ok_bounds [OF assms] by fastforce
next
  case (Suc n)
  have a: "a \<noteq> 0" using pulses_ok_bounds [OF assms Suc.prems(1)] by simp
  show ?case
  proof (cases "pu_parent p = 0")
    case True
    then show ?thesis using Suc.prems a by (simp add: is_root_def)
  next
    case False
    then show ?thesis
      using Suc.IH Suc.prems pulses_ok_parent [OF assms Suc.prems(1) False] a by (auto simp: is_root_def)
  qed
qed

lemma get_root_iff:
  assumes "pulses_ok w"
  shows "get_root w a = Inr r \<longleftrightarrow> root_of w a r"
proof
  assume "get_root w a = Inr r"
  then show "root_of w a r" by (simp add: get_root_def get_root_n_root_of)
next
  assume r: "root_of w a r"
  then obtain p where p: "pw_pulse w a = Some p" by (auto elim: root_ofE)
  obtain r' where "get_root_n w (pw_next w) a = Inr r'"
    using get_root_n_total [OF assms p, of "pw_next w"] pulses_ok_bounds [OF assms p] by auto
  moreover from this have "r' = r" using root_of_unique [OF r] get_root_n_root_of by metis
  ultimately show "get_root w a = Inr r" by (simp add: get_root_def)
qed

lemma get_runner_n_total:
  assumes "pulses_ok w"
  shows "pw_pulse w a = Some p \<Longrightarrow> pu_mode p \<noteq> Mode_none \<Longrightarrow> a \<le> n \<Longrightarrow> \<exists>r. r \<noteq> 0 \<and> get_runner_n nd w n a = Inr r"
proof (induction n arbitrary: a p)
  case 0
  then show ?case using pulses_ok_bounds [OF assms] by fastforce
next
  case (Suc n)
  have a: "a \<noteq> 0" using pulses_ok_bounds [OF assms Suc.prems(1)] by simp
  show ?case
  proof (cases "pu_parent p = 0 \<or> pu_runner p \<noteq> 0")
    case True
    then have "pu_runner p \<noteq> 0" using pulses_okD [OF assms Suc.prems(1)] Suc.prems(2) by (auto simp: pulse_ok_def)
    then show ?thesis using Suc.prems a by simp
  next
    case False
    then have f: "pu_parent p \<noteq> 0" "pu_runner p = 0" by auto
    show ?thesis
      using Suc.IH Suc.prems pulses_ok_parent [OF assms Suc.prems(1) f(1)] a f by fastforce
  qed
qed

lemma get_runner_total:
  assumes "pulses_ok w" and "pw_pulse w a = Some p" and "pu_mode p \<noteq> Mode_none"
  shows "\<exists>r. r \<noteq> 0 \<and> get_runner nd w a = Inr r"
  using get_runner_n_total [OF assms, of "pw_next w"] pulses_ok_bounds [OF assms(1,2)]
  by (auto simp: get_runner_def)

section \<open>Dispatch\<close>

lemma subscribers_none: "pulse_ok w a p \<Longrightarrow> pu_mode p = Mode_none \<Longrightarrow> subscribers p t = []"
  by (simp add: pulse_ok_def subscribers_def)

lemma post_own_total:
  assumes "pulses_ok w" and "pw_pulse w a = Some p"
  shows "\<exists>ps. collect_res (post_subscriber nd w a s se f fr) (subscribers p t) = Inr ps"
proof (cases "pu_mode p = Mode_none")
  case True
  then show ?thesis using subscribers_none [OF pulses_okD [OF assms]] by simp
next
  case False
  then obtain r where r: "get_runner nd w a = Inr r" using get_runner_total [OF assms] by blast
  have "post_subscriber nd w a s se f fr sub =
      Inr (if is_target (fst sub) se fr then [Post_receive r s (snd sub) se f] else [])" for sub
    by (simp add: post_subscriber_def r)
  then have "collect_res (post_subscriber nd w a s se f fr) (subscribers p t) = Inr (concat (map (\<lambda>sub.
      if is_target (fst sub) se fr then [Post_receive r s (snd sub) se f] else []) (subscribers p t)))"
    by (intro collect_res_Inr) simp
  then show ?thesis by blast
qed

text \<open>One level of fuel serves a pulse that is not a root, two serve a root.\<close>

lemma dispatch_child_total:
  assumes "pulses_ok w" and "pw_pulse w c = Some p" and "pu_parent p \<noteq> 0"
  shows "\<exists>ps. dispatch_n nd w (Suc n) c se t f fr = Inr ps"
proof -
  have "c \<noteq> 0" using pulses_ok_bounds [OF assms(1,2)] by simp
  then show ?thesis
    using post_own_total [OF assms(1,2), of nd "pu_strand p" se f fr t] assms
    by (auto simp: is_root_def)
qed

lemma collect_res_total: "(\<And>x. x \<in> set xs \<Longrightarrow> \<exists>y. f x = Inr y) \<Longrightarrow> \<exists>ys. collect_res f xs = Inr ys"
proof (induction xs)
  case (Cons x xs)
  obtain y ys where "f x = Inr y" "collect_res f xs = Inr ys" using Cons by fastforce
  then show ?case by simp
qed simp

lemma dispatch_n_total:
  assumes "pulses_ok w" and "pw_pulse w r = Some p"
  shows "\<exists>ps. dispatch_n nd w (Suc (Suc n)) r se t f fr = Inr ps"
proof -
  have "r \<noteq> 0" using pulses_ok_bounds [OF assms] by simp
  obtain own where own: "collect_res (post_subscriber nd w r (pu_strand p) se f fr) (subscribers p t) = Inr own"
    using post_own_total [OF assms] by blast
  have "\<exists>ps. collect_res (\<lambda>c. dispatch_n nd w (Suc n) c s t f True) (interested p k t) = Inr ps" for k s
  proof (rule collect_res_total)
    fix c assume "c \<in> set (interested p k t)"
    then obtain pc where "pw_pulse w c = Some pc" "pu_parent pc \<noteq> 0"
      using pulse_ok_interested [OF pulses_okD [OF assms]] by blast
    then show "\<exists>ps. dispatch_n nd w (Suc n) c s t f True = Inr ps"
      by (rule dispatch_child_total [OF assms(1)])
  qed
  then obtain blind bound where
    "collect_res (\<lambda>c. dispatch_n nd w (Suc n) c 0 t f True) (interested p 0 t) = Inr blind"
    "collect_res (\<lambda>c. dispatch_n nd w (Suc n) c se t f True) (interested p se t) = Inr bound"
    by metis
  with own assms(2) \<open>r \<noteq> 0\<close> show ?thesis by (simp del: dispatch_n.simps(2) add: dispatch_n.simps(2) [of _ _ "Suc n"])
qed

text \<open>Where a post comes from: a subscription of the pulse or of an interested child.\<close>

lemma dispatch_child_posts:
  assumes "dispatch_n nd w (Suc n) c se t f True = Inr ps" and "pw_pulse w c = Some p" and "pu_parent p \<noteq> 0"
  shows "Post_receive rn st cb s g \<in> set ps \<longleftrightarrow>
    get_runner nd w c = Inr rn \<and> st = pu_strand p \<and> s = se \<and> g = f \<and> (se, cb) \<in> set (subscribers p t)"
  using assms
  by (auto simp: res_simps is_root_def post_subscriber_def is_target_def collect_res_mem split: if_splits) force+

section \<open>Preservation\<close>

lemma pulses_okI: "0 < pw_next w \<Longrightarrow> (\<And>a p. pw_pulse w a = Some p \<Longrightarrow> pulse_ok w a p) \<Longrightarrow> pulses_ok w"
  by (simp add: pulses_ok_def)

lemma pulse_ok_mono:
  assumes "pulse_ok w b q" and "pw_next w \<le> pw_next w'"
    and "\<And>p. pw_pulse w (pu_parent q) = Some p \<Longrightarrow> pu_parent q \<noteq> 0 \<Longrightarrow> pu_mode p \<noteq> Mode_none \<Longrightarrow>
        b \<in> set (pu_childs p) \<Longrightarrow>
        \<exists>p'. pw_pulse w' (pu_parent q) = Some p' \<and> pu_mode p' \<noteq> Mode_none \<and> b \<in> set (pu_childs p')"
    and "\<And>k t c p. c \<in> set (interested q k t) \<Longrightarrow> pw_pulse w c = Some p \<Longrightarrow> pu_parent p \<noteq> 0 \<Longrightarrow> root_of w c b \<Longrightarrow>
        (k, t) \<in> set (pu_self_interests p) \<Longrightarrow>
        \<exists>p'. pw_pulse w' c = Some p' \<and> pu_parent p' \<noteq> 0 \<and> root_of w' c b \<and> (k, t) \<in> set (pu_self_interests p')"
  shows "pulse_ok w' b q"
  using assms unfolding pulse_ok_def by (meson less_le_trans)

text \<open>An update that keeps parent, children and own interests, and is itself in order.\<close>

lemma pulses_ok_put:
  assumes ok: "pulses_ok w" and a: "pw_pulse w a = Some p"
    and par: "pu_parent p' = pu_parent p" and mode: "pu_mode p \<noteq> Mode_none \<Longrightarrow> pu_mode p' \<noteq> Mode_none"
    and ch: "\<And>x. x \<in> set (pu_childs p) \<Longrightarrow> pw_pulse w x \<noteq> None \<Longrightarrow> x \<in> set (pu_childs p')"
    and self: "set (pu_self_interests p) \<subseteq> set (pu_self_interests p')"
    and new: "pulse_ok w a p'"
  shows "pulses_ok (put w a p')"
proof (rule pulses_okI)
  show "0 < pw_next (put w a p')" using ok by (simp add: pulses_ok_def)
  fix b q assume b: "pw_pulse (put w a p') b = Some q"
  then have "pulse_ok w b q" using new ok by (auto simp: pulses_okD split: if_splits)
  then show "pulse_ok (put w a p') b q"
  proof (rule pulse_ok_mono)
    fix p1 assume "pw_pulse w (pu_parent q) = Some p1" "pu_mode p1 \<noteq> Mode_none" "b \<in> set (pu_childs p1)"
    then show "\<exists>p2. pw_pulse (put w a p') (pu_parent q) = Some p2 \<and> pu_mode p2 \<noteq> Mode_none \<and> b \<in> set (pu_childs p2)"
      using a b mode ch [of b] by (cases "pu_parent q = a"; cases "b = a") auto
  next
    fix k t c p1
    assume "pw_pulse w c = Some p1" "pu_parent p1 \<noteq> 0" "root_of w c b" "(k, t) \<in> set (pu_self_interests p1)"
    then show "\<exists>p2. pw_pulse (put w a p') c = Some p2 \<and> pu_parent p2 \<noteq> 0 \<and> root_of (put w a p') c b \<and>
        (k, t) \<in> set (pu_self_interests p2)"
      using a par self root_of_put [OF a par, of c b] by (cases "c = a") auto
  qed simp
qed

text \<open>
  Updates of fields the invariant does not mention: session, strand, port, address, server,
  client, calls, the final and stop flags.
\<close>

lemma pulses_ok_put_other:
  assumes ok: "pulses_ok w" and a: "pw_pulse w a = Some p"
    and "pu_parent p' = pu_parent p" "pu_mode p' = pu_mode p" "pu_childs p' = pu_childs p"
    "pu_self_interests p' = pu_self_interests p" "pu_interests p' = pu_interests p"
    "pu_runner p' = pu_runner p" "pu_subscriptions p' = pu_subscriptions p"
  shows "pulses_ok (put w a p')"
proof -
  have "pulse_ok w a p'"
    using pulses_okD [OF ok a] assms(3-) by (simp add: pulse_ok_def interested_def)
  then show ?thesis using assms by (intro pulses_ok_put [OF ok a]) auto
qed

lemma pulses_ok_posts [simp]: "pulses_ok (w\<lparr>pw_posts := ps\<rparr>) = pulses_ok w"
proof -
  have mono: "root_of (w\<lparr>pw_posts := ps\<rparr>) a r = root_of w a r" for a r
    by (auto intro: root_of_mono [of "w\<lparr>pw_posts := ps\<rparr>"] root_of_mono [of w])
  show ?thesis by (simp add: pulses_ok_def pulse_ok_def mono)
qed

lemma pulse_new_ok: "pulses_ok w \<Longrightarrow> pulse_new w = (w', a) \<Longrightarrow> pulses_ok w'"
proof -
  assume ok: "pulses_ok w" and new: "pulse_new w = (w', a)"
  then have fresh: "pw_pulse w a = None" and w': "w' = w\<lparr>pw_pulse := (pw_pulse w)(a \<mapsto> pulse_default), pw_next := Suc a\<rparr>"
    and a: "a = pw_next w"
    using pulses_ok_bounds [OF ok] by (auto simp: pulse_new_def) (metis less_irrefl not_Some_eq)
  show ?thesis
  proof (rule pulses_okI)
    show "0 < pw_next w'" by (simp add: w')
    fix b q assume b: "pw_pulse w' b = Some q"
    show "pulse_ok w' b q"
    proof (cases "b = a")
      case True
      then show ?thesis
        using b ok by (auto simp: w' a pulse_ok_def pulse_default_def interested_def pulses_ok_def)
    next
      case False
      then have "pulse_ok w b q" using b ok by (simp add: w' pulses_okD)
      then show ?thesis
        by (rule pulse_ok_mono) (use fresh in \<open>auto simp: w' a intro!: root_of_mono [of w]\<close>)
    qed
  qed
qed

text \<open>A pulse that has not been configured takes a runner.\<close>

lemma pulses_ok_configure:
  assumes ok: "pulses_ok w" and a: "pw_pulse w a = Some p" and "pu_mode p = Mode_none"
    and "pu_parent p' = 0" "pu_mode p' \<noteq> Mode_none" "pu_runner p' \<noteq> 0" "pu_childs p' = pu_childs p"
    "pu_interests p' = pu_interests p" "pu_self_interests p' = pu_self_interests p"
  shows "pulses_ok (put w a p')"
proof (rule pulses_ok_put [OF ok a])
  have p: "pulse_ok w a p" by (rule pulses_okD [OF ok a])
  then show par: "pu_parent p' = pu_parent p" using assms(3,4) by (simp add: pulse_ok_def)
  show "pulse_ok w a p'"
    using p assms(3-) by (simp add: pulse_ok_def interested_def)
qed (use assms in auto)

lemma as_endpoint_ok:
  assumes "pulses_ok w" and "pw_pulse w a = Some p" and "pu_mode p = Mode_none" and "runner \<noteq> 0"
  shows "as_server nd w a runner port = Inr w' \<Longrightarrow> pulses_ok w'"
    and "as_client nd w a runner addr = Inr w' \<Longrightarrow> pulses_ok w'"
    and "as_independent nd w a runner = Inr w' \<Longrightarrow> pulses_ok w'"
proof -
  have "pu_parent p = 0" using pulses_okD [OF assms(1,2)] assms(3) by (simp add: pulse_ok_def)
  then show "as_server nd w a runner port = Inr w' \<Longrightarrow> pulses_ok w'"
    and "as_client nd w a runner addr = Inr w' \<Longrightarrow> pulses_ok w'"
    and "as_independent nd w a runner = Inr w' \<Longrightarrow> pulses_ok w'"
    using assms by (auto simp: as_server_def as_client_def as_independent_def res_simps
        intro!: pulses_ok_configure)
qed

definition same_wiring :: "'cb pulse \<Rightarrow> 'cb pulse \<Rightarrow> bool" where
  "same_wiring p' p \<longleftrightarrow> pu_parent p' = pu_parent p \<and> pu_mode p' = pu_mode p \<and> pu_childs p' = pu_childs p \<and>
     pu_self_interests p' = pu_self_interests p \<and> pu_interests p' = pu_interests p \<and>
     pu_runner p' = pu_runner p \<and> pu_subscriptions p' = pu_subscriptions p"

lemma pulses_ok_same: "pulses_ok w \<Longrightarrow> pw_pulse w a = Some p \<Longrightarrow> same_wiring p' p \<Longrightarrow> pulses_ok (put w a p')"
  by (rule pulses_ok_put_other [of w a p p']) (simp_all add: same_wiring_def)

lemma pulses_ok_modify:
  assumes "pulses_ok w" and "modify w a f = Inr w'" and "\<And>p. same_wiring (f p) p"
  shows "pulses_ok w'"
proof -
  obtain p where p: "pw_pulse w a = Some p" "w' = put w a (f p)" using assms(2) by (auto simp: modify_eq_Inr)
  show ?thesis unfolding p(2) by (rule pulses_ok_same [OF assms(1) p(1) assms(3)])
qed

lemma with_ok:
  assumes "pulses_ok w"
  shows "with_strand w a key = Inr w' \<Longrightarrow> pulses_ok w'"
    and "with_session w a ss = Inr w' \<Longrightarrow> pulses_ok w'"
    and "mark_final w a = Inr w' \<Longrightarrow> pulses_ok w'"
  unfolding with_strand_def with_session_def mark_final_def
  by (erule pulses_ok_modify [OF assms], simp add: same_wiring_def)+

lemma pulse_start_ok:
  assumes "pulses_ok w" and "pulse_start nd w a e = Inr (w', ok)"
  shows "pulses_ok w'"
proof -
  obtain p where p: "pw_pulse w a = Some p" "a \<noteq> 0"
    using assms(2) unfolding pulse_start_def deref_eq_Inr by blast
  then have "w' \<in> {w, put w a (p\<lparr>pu_server := True\<rparr>), put w a (p\<lparr>pu_client := True\<rparr>)}"
    using assms(2)
    by (cases "pu_mode p") (simp_all add: pulse_start_def bind_res_eq_Inr play_check_eq_Inr split: if_splits, blast+)
  then show ?thesis
    using assms(1) pulses_ok_same [OF assms(1) p(1)] by (auto simp: same_wiring_def)
qed

section \<open>Preservation: subscriptions, children, destruction\<close>

lemma interested_upd:
  "interested (p\<lparr>pu_interests := (pu_interests p)((k, t) \<mapsto> cs)\<rparr>) k' t' =
     (if (k', t') = (k, t) then cs else interested p k' t')"
  by (simp add: interested_def)

lemma root_of_mode:
  "root_of w a r \<Longrightarrow> pulses_ok w \<Longrightarrow> pw_pulse w a = Some p \<Longrightarrow> pu_mode p \<noteq> Mode_none \<Longrightarrow>
    \<exists>q. pw_pulse w r = Some q \<and> pu_mode q \<noteq> Mode_none"
proof (induction arbitrary: p rule: root_of.induct)
  case (here a p')
  then show ?case by simp
next
  case (up a p' r)
  then show ?case using pulses_ok_parent [OF up.prems(1) up.hyps(1,2)] by blast
qed

lemma show_interest_ok:
  assumes ok: "pulses_ok w" and c: "pw_pulse w c = Some pc" "pu_parent pc \<noteq> 0" "root_of w c r"
    "(k, t) \<in> set (pu_self_interests pc)"
    and s: "show_interest nd w r c k t = Inr w'"
  shows "pulses_ok w'"
proof -
  obtain q where q: "pw_pulse w r = Some q" "w' = put w r (q\<lparr>pu_interests :=
      (pu_interests q)((k, t) \<mapsto> oset_insert c (interested q k t))\<rparr>)"
    using s by (auto simp: show_interest_def res_simps Let_def interested_def)
  have root: "pu_parent q = 0" using root_of_live [OF c(3)] q(1) by simp
  have mode: "pu_mode q \<noteq> Mode_none"
    using root_of_mode [OF c(3) ok c(1)] pulses_okD [OF ok c(1)] c(2) q(1) by (auto simp: pulse_ok_def)
  have "pulse_ok w r (q\<lparr>pu_interests := (pu_interests q)((k, t) \<mapsto> oset_insert c (interested q k t))\<rparr>)"
    using pulses_okD [OF ok q(1)] mode root c unfolding pulse_ok_def interested_upd by (auto split: if_splits)
  then show ?thesis unfolding q(2) by (intro pulses_ok_put [OF ok q(1)]) auto
qed

lemma pulse_subscribe_ok:
  assumes ok: "pulses_ok w" and p: "pw_pulse w a = Some p" "pu_mode p \<noteq> Mode_none"
    and s: "pulse_subscribe nd w a t cb = Inr w'"
  shows "pulses_ok w'"
proof -
  define p1 where "p1 = p\<lparr>pu_subscriptions := (pu_subscriptions p)(t \<mapsto> subscribers p t @ [(pu_session p, cb)])\<rparr>"
  define p2 where "p2 = p1\<lparr>pu_self_interests := List.insert (pu_session p, t) (pu_self_interests p)\<rparr>"
  have wired: "pulses_ok (put w a p1)" "pulses_ok (put w a p2)"
    using pulses_okD [OF ok p(1)] p(2)
    by (intro pulses_ok_put [OF ok p(1)]; auto simp: p1_def p2_def pulse_ok_def interested_def)+
  show ?thesis
  proof (cases "pu_parent p = 0")
    case True
    then show ?thesis
      using s p wired(1)
      by (auto simp: pulse_subscribe_def res_simps Let_def is_root_def p1_def subscribers_def)
  next
    case False
    then obtain r where r: "get_root (put w a p2) a = Inr r" "show_interest nd (put w a p2) r a (pu_session p) t = Inr w'"
      using s p by (auto simp: pulse_subscribe_def res_simps Let_def is_root_def p1_def p2_def subscribers_def)
    have "root_of (put w a p2) a r" using r(1) get_root_iff [OF wired(2)] by blast
    then show ?thesis
      using False r(2) by (intro show_interest_ok [OF wired(2), of a p2]) (auto simp: p1_def p2_def)
  qed
qed

text \<open>Binding a fresh pulse to an older, configured one. Only its own root changes.\<close>

lemma root_of_put_fresh:
  assumes "root_of w c r" and "pw_pulse w a = Some p" and "pu_parent p = 0" and "r \<noteq> a"
  shows "root_of (put w a p') c r"
  using assms
proof (induction rule: root_of.induct)
  case (here c q)
  then show ?case by (auto intro: root_of.here)
next
  case (up c q r)
  then have "c \<noteq> a" by auto
  with up show ?case using root_of.up [of "put w a p'" c q r] by simp
qed

lemma as_child_ok:
  assumes ok: "pulses_ok w" and a: "pw_pulse w a = Some p" "pu_mode p = Mode_none"
    and b: "pw_pulse w b = Some q" "pu_mode q \<noteq> Mode_none" "b < a"
    and s: "as_child nd w a b = Inr w'"
  shows "pulses_ok w'"
proof -
  define p1 where "p1 = p\<lparr>pu_mode := Mode_child, pu_parent := b\<rparr>"
  define q1 where "q1 = q\<lparr>pu_childs := oset_insert a (pu_childs q)\<rparr>"
  have w': "w' = put (put w a p1) b q1"
    using s a b by (auto simp: as_child_def bind_child_def res_simps p1_def q1_def split: if_splits)
  have fresh: "pu_parent p = 0" "pu_childs p = []" "pu_interests p = Map.empty"
    using pulses_okD [OF ok a(1)] a(2) by (auto simp: pulse_ok_def)
  have par: "pu_parent q1 = pu_parent q" by (simp add: q1_def)
  have ba: "pw_pulse (put w a p1) b = Some q" using b by simp
  have roots: "root_of w' c r" if "root_of w c r" "r \<noteq> a" for c r
    unfolding w' using root_of_put [OF ba par] root_of_put_fresh [OF that(1) a(1) fresh(1) that(2)] by blast
  show ?thesis
  proof (rule pulses_okI)
    show "0 < pw_next w'" using ok by (simp add: w' pulses_ok_def)
    fix x y assume x: "pw_pulse w' x = Some y"
    show "pulse_ok w' x y"
    proof (cases "x = a")
      case True
      then have "y = p1" using x b by (simp add: w')
      then show ?thesis
        using True fresh b pulses_ok_bounds [OF ok a(1)] pulses_ok_bounds [OF ok b(1)]
        by (auto simp: pulse_ok_def p1_def w' interested_def q1_def)
    next
      case False
      have "pulse_ok w b q1"
        using pulses_okD [OF ok b(1)] b(2) by (simp add: q1_def pulse_ok_def interested_def)
      then have old: "pulse_ok w x y"
        using x False pulses_okD [OF ok] by (auto simp: w' split: if_splits)
      show ?thesis
      proof (rule pulse_ok_mono [OF old])
        fix z assume "pw_pulse w (pu_parent y) = Some z" "pu_mode z \<noteq> Mode_none" "x \<in> set (pu_childs z)"
        then show "\<exists>z'. pw_pulse w' (pu_parent y) = Some z' \<and> pu_mode z' \<noteq> Mode_none \<and> x \<in> set (pu_childs z')"
          using a b by (auto simp: w' q1_def)
      next
        fix k t c z
        assume z: "pw_pulse w c = Some z" "pu_parent z \<noteq> 0" "root_of w c x" "(k, t) \<in> set (pu_self_interests z)"
        then have "c \<noteq> a" using a fresh by auto
        with z roots [OF z(3) False] b
        show "\<exists>z'. pw_pulse w' c = Some z' \<and> pu_parent z' \<noteq> 0 \<and> root_of w' c x \<and> (k, t) \<in> set (pu_self_interests z')"
          by (auto simp: w' q1_def)
      qed (simp add: w')
    qed
  qed
qed

text \<open>Removing a pulse without children.\<close>

lemma no_child_of_leaf:
  assumes "pulses_ok w" and "pw_pulse w a = Some p" and "pu_childs p = []" and "pw_pulse w b = Some q"
  shows "pu_parent q \<noteq> a"
  using pulses_okD [OF assms(1,4)] pulses_ok_bounds [OF assms(1,2)] assms(2,3) by (auto simp: pulse_ok_def)

definition remove_pulse :: "('cb, 'f) world \<Rightarrow> nat \<Rightarrow> ('cb, 'f) world" where
  "remove_pulse w a = w\<lparr>pw_pulse := (pw_pulse w)(a := None)\<rparr>"

lemma root_of_remove:
  assumes "root_of w c r" and "c \<noteq> a" and "\<And>b q. pw_pulse w b = Some q \<Longrightarrow> pu_parent q \<noteq> a"
  shows "root_of (remove_pulse w a) c r"
  using assms(1,2)
proof (induction rule: root_of.induct)
  case (here c q)
  then show ?case by (auto intro: root_of.here simp: remove_pulse_def)
next
  case (up c q r)
  then show ?case using assms(3) [of c q] root_of.up [of "remove_pulse w a" c q r] by (simp add: remove_pulse_def)
qed

lemma pulses_ok_remove:
  assumes ok: "pulses_ok w" and a: "pw_pulse w a = Some p" "pu_childs p = []"
    and none: "\<And>b q k t. pw_pulse w b = Some q \<Longrightarrow> a \<notin> set (interested q k t)"
  shows "pulses_ok (remove_pulse w a)"
proof (rule pulses_okI)
  show "0 < pw_next (remove_pulse w a)" using ok by (simp add: remove_pulse_def pulses_ok_def)
  have leaf: "pw_pulse w b = Some q \<Longrightarrow> pu_parent q \<noteq> a" for b q
    by (rule no_child_of_leaf [OF ok a])
  fix x y assume "pw_pulse (remove_pulse w a) x = Some y"
  then have x: "pw_pulse w x = Some y" "x \<noteq> a" by (auto simp: remove_pulse_def split: if_splits)
  show "pulse_ok (remove_pulse w a) x y"
  proof (rule pulse_ok_mono [OF pulses_okD [OF ok x(1)]])
    fix z assume "pw_pulse w (pu_parent y) = Some z" "pu_mode z \<noteq> Mode_none" "x \<in> set (pu_childs z)"
    then show "\<exists>z'. pw_pulse (remove_pulse w a) (pu_parent y) = Some z' \<and> pu_mode z' \<noteq> Mode_none \<and> x \<in> set (pu_childs z')"
      using leaf [OF x(1)] by (auto simp: remove_pulse_def)
  next
    fix k t c z
    assume c: "c \<in> set (interested y k t)" and z: "pw_pulse w c = Some z" "pu_parent z \<noteq> 0" "root_of w c x"
      "(k, t) \<in> set (pu_self_interests z)"
    have "c \<noteq> a" using c none [OF x(1)] by blast
    with z root_of_remove [OF z(3) _ leaf]
    show "\<exists>z'. pw_pulse (remove_pulse w a) c = Some z' \<and> pu_parent z' \<noteq> 0 \<and> root_of (remove_pulse w a) c x \<and>
        (k, t) \<in> set (pu_self_interests z')"
      by (auto simp: remove_pulse_def)
  qed (simp add: remove_pulse_def)
qed

lemma lose_interests:
  "foldl (lose_interest c) m keys key = (if key \<in> set keys then map_option (oset_erase c) (m key) else m key)"
proof (induction keys arbitrary: m)
  case (Cons k keys)
  have "oset_erase c (oset_erase c cs) = oset_erase c cs" for cs by (simp add: oset_erase_def)
  then show ?case
    using Cons by (auto simp: lose_interest_def option.map_comp comp_def split: option.splits)
qed simp

lemma destroy_child_world:
  assumes "pw_pulse w a = Some p" "\<not> pu_stop p" "pu_mode p = Mode_child" "a \<noteq> 0" "pu_childs p = []"
    and "pu_parent p = b" "pw_pulse w b = Some q" "pu_parent q = 0" "b \<noteq> 0" "b \<noteq> a"
    and "pulse_destroy nd w a = Inr w'"
  shows "w' = put (remove_pulse (put w b (q\<lparr>pu_interests := foldl (lose_interest a) (pu_interests q) (pu_self_interests p)\<rparr>)) a)
    b (q\<lparr>pu_childs := oset_erase a (pu_childs q), pu_interests := foldl (lose_interest a) (pu_interests q) (pu_self_interests p)\<rparr>)"
  using assms
  by (auto simp: pulse_destroy_def pulse_stop_def unbind_child_def res_simps is_root_def remove_pulse_def put_def
      Let_def fun_upd_twist)

lemma interested_lost:
  "interested (q\<lparr>pu_interests := foldl (lose_interest a) (pu_interests q) keys\<rparr>) k t =
     (if (k, t) \<in> set keys then oset_erase a (interested q k t) else interested q k t)"
  by (simp add: interested_def lose_interests oset_erase_def split: option.split)

lemma pulse_destroy_child_ok:
  assumes ok: "pulses_ok w" and a: "pw_pulse w a = Some p" "\<not> pu_stop p" "pu_mode p = Mode_child" "pu_childs p = []"
    and b: "pu_parent p = b" "b \<noteq> 0" "pw_pulse w b = Some q" "pu_parent q = 0"
    and d: "pulse_destroy nd w a = Inr w'"
  shows "pulses_ok w'"
proof -
  define q1 where "q1 = q\<lparr>pu_interests := foldl (lose_interest a) (pu_interests q) (pu_self_interests p)\<rparr>"
  define w1 where "w1 = put w b q1"
  have ab: "b < a" "a \<noteq> 0" using pulses_ok_parent(1) [OF ok a(1)] b by auto
  have sub: "set (interested q1 k t) \<subseteq> set (interested q k t)" for k t
    by (auto simp: q1_def interested_lost)
  have mode: "pu_mode q \<noteq> Mode_none" using pulses_ok_parent(2) [OF ok a(1)] b by auto
  have okb: "pulse_ok w b q" by (rule pulses_okD [OF ok b(3)])
  have q1: "pulse_ok w b q1"
    unfolding pulse_ok_def
  proof (intro conjI allI ballI)
    fix k t c assume "c \<in> set (interested q1 k t)"
    then show "\<exists>pc. pw_pulse w c = Some pc \<and> pu_parent pc \<noteq> 0 \<and> root_of w c b \<and>
        (k, t) \<in> set (pu_self_interests pc)"
      using pulse_ok_interested [OF okb] sub by blast
  qed (use okb mode b(4) in \<open>auto simp: q1_def pulse_ok_def\<close>)
  have ok1: "pulses_ok w1"
    unfolding w1_def by (rule pulses_ok_put [OF ok b(3) _ _ _ _ q1]) (auto simp: q1_def)
  have gone: "a \<notin> set (interested y k t)" if "pw_pulse w1 x = Some y" for x y k t
  proof
    assume mem: "a \<in> set (interested y k t)"
    have a1: "pw_pulse w1 a = Some p" "pu_parent p \<noteq> 0" using a ab b by (simp_all add: w1_def)
    have "root_of w1 a b" using a1 ab b root_of.here [of w1 b q1] by (auto simp: w1_def q1_def intro: root_of.up)
    then have "x = b" using pulse_ok_interested [OF pulses_okD [OF ok1 that] mem] root_of_unique by blast
    then have y: "y = q1" using that by (simp add: w1_def)
    have "(k, t) \<in> set (pu_self_interests p)" using pulse_ok_interested [OF pulses_okD [OF ok1 that] mem] a1 by auto
    then show False using mem y by (simp add: q1_def interested_lost)
  qed
  have a1: "pw_pulse w1 a = Some p" using a ab by (simp add: w1_def)
  have ok2: "pulses_ok (remove_pulse w1 a)"
    by (rule pulses_ok_remove [OF ok1 a1 a(4) gone])
  have b2: "pw_pulse (remove_pulse w1 a) b = Some q1" using ab by (simp add: remove_pulse_def w1_def)
  let ?q2 = "q\<lparr>pu_childs := oset_erase a (pu_childs q),
      pu_interests := foldl (lose_interest a) (pu_interests q) (pu_self_interests p)\<rparr>"
  have "pulse_ok (remove_pulse w1 a) b ?q2"
    using pulses_okD [OF ok2 b2] mode by (simp add: pulse_ok_def q1_def interested_def)
  then have "pulses_ok (put (remove_pulse w1 a) b ?q2)"
    by (rule pulses_ok_put [OF ok2 b2, rotated -1]) (auto simp: q1_def remove_pulse_def split: if_splits)
  then show ?thesis
    using destroy_child_world [OF a(1-3) ab(2) a(4) b(1,3,4,2) _ d] ab(1) by (simp add: w1_def q1_def)
qed

lemma pulse_destroy_root_ok:
  assumes ok: "pulses_ok w" and a: "pw_pulse w a = Some p" "\<not> pu_stop p" "pu_parent p = 0"
    and m: "pu_mode p \<noteq> Mode_child" and d: "pulse_destroy nd w a = Inr w'"
  shows "pulses_ok w'"
proof -
  have w': "w' = remove_pulse w a" and leaf: "pu_childs p = []"
    using d a m pulses_ok_bounds [OF ok a(1)]
    by (auto simp: pulse_destroy_def pulse_stop_def res_simps remove_pulse_def put_def Let_def
        split: if_splits pulse_mode.splits)
  have "a \<notin> set (interested q k t)" if "pw_pulse w b = Some q" for b q k t
    using pulse_ok_interested [OF pulses_okD [OF ok that], of a k t] a by auto
  then show ?thesis unfolding w' by (rule pulses_ok_remove [OF ok a(1) leaf])
qed

lemma call_subscribe_ok:
  assumes "pulses_ok w" and "pw_pulse w a = Some p" and "pu_mode p \<noteq> Mode_none"
  shows "call_subscribe_closed nd w a = Inr w' \<Longrightarrow> pulses_ok w'"
    and "call_subscribe_reply nd w a t = Inr w' \<Longrightarrow> pulses_ok w'"
  using assms pulse_subscribe_ok [OF assms]
  by (auto simp: call_subscribe_closed_def call_subscribe_reply_def res_simps split: if_splits)

lemma pulse_subscribe_mode:
  assumes "pulse_subscribe nd w a t cb = Inr w'" and "pw_pulse w a = Some p"
  shows "\<exists>p'. pw_pulse w' a = Some p' \<and> pu_mode p' = pu_mode p"
  using assms by (auto simp: pulse_subscribe_def show_interest_def res_simps Let_def split: if_splits)

lemma call_subscribe_mode:
  assumes "pw_pulse w a = Some p"
  shows "call_subscribe_closed nd w a = Inr w' \<Longrightarrow> \<exists>p'. pw_pulse w' a = Some p' \<and> pu_mode p' = pu_mode p"
  using assms pulse_subscribe_mode
  by (fastforce simp: call_subscribe_closed_def res_simps split: if_splits)

lemma pulse_call_ok:
  assumes ok: "pulses_ok w" and p: "pw_pulse w a = Some p" "pu_mode p \<noteq> Mode_none"
    and c: "pulse_call nd w a req res cb = Inr w'"
  shows "pulses_ok w'"
proof -
  obtain w1 w2 where s: "call_subscribe_closed nd w a = Inr w1" "call_subscribe_reply nd w1 a res = Inr w2"
    and m: "modify w2 a (\<lambda>p2.
          let tc = (case map_of (pu_calls p2) req of None \<Rightarrow> topic_calls_new | Some tc \<Rightarrow> tc) in
          p2\<lparr>pu_calls := omap_set req (add_caller cb tc) (pu_calls p2),
             pu_call_pairs := (pu_call_pairs p2)(res \<mapsto> req)\<rparr>) = Inr w'"
    using c p unfolding pulse_call_def deref_eq_Inr play_check_eq_Inr bind_res_eq_Inr by blast
  obtain p1 where p1: "pw_pulse w1 a = Some p1" "pu_mode p1 \<noteq> Mode_none"
    using call_subscribe_mode [OF p(1) s(1)] p(2) by auto
  have "pulses_ok w2"
    using call_subscribe_ok(2) [OF call_subscribe_ok(1) [OF ok p s(1)] p1 s(2)] .
  then show ?thesis by (rule pulses_ok_modify [OF _ m]) (simp add: same_wiring_def Let_def)
qed

lemma call_answer_ok:
  assumes "pulses_ok w"
  shows "call_receive nd w a se t = Inr w' \<Longrightarrow> pulses_ok w'"
    and "call_closed nd w a se = Inr w' \<Longrightarrow> pulses_ok w'"
proof -
  assume "call_receive nd w a se t = Inr w'"
  then obtain p p' where "w' = w \<or> (pw_pulse w a = Some p \<and> w' = put w a p' \<and> same_wiring p' p)"
    unfolding call_receive_def deref_eq_Inr play_check_eq_Inr same_wiring_def
    by (fastforce simp: bind_res_eq_Inr split: option.splits)
  then show "pulses_ok w'" using assms pulses_ok_same by blast
next
  assume c: "call_closed nd w a se = Inr w'"
  then obtain p where p: "pw_pulse w a = Some p"
      "w' = w \<or> (\<exists>ps. w' = (put w a (p\<lparr>pu_calls := []\<rparr>))\<lparr>pw_posts := ps\<rparr>)"
    unfolding call_closed_def deref_eq_Inr play_check_eq_Inr Let_def
    by (fastforce simp: bind_res_eq_Inr split: if_splits)
  moreover have "pulses_ok (put w a (p\<lparr>pu_calls := []\<rparr>))"
    by (rule pulses_ok_same [OF assms p(1)]) (simp add: same_wiring_def)
  ultimately show "pulses_ok w'" using assms by auto
qed

end
