(* ===== verification/Pulse_Delivery.thy ===== *)
theory Pulse_Delivery
  imports Pulse_Tree
begin

text \<open>
  What publishing on a root delivers. The pulses of an application are a state machine
  (\<open>pulse_step\<close>); \<open>orderly\<close> is the discipline the repository's own code follows when it
  builds pulses: configure once, bind a child to an older configured pulse, subscribe after
  configuring, and destroy only pulses whose parent is the root. Over orderly steps the
  invariant of \<open>Pulse_Tree\<close> holds, publishing never faults, and who hears what is given by
  the subscriptions. The last section shows what a destroyed grandchild does.
\<close>

section \<open>The state machine\<close>

datatype ('cb, 'f) pulse_op =
    Op_new
  | Op_as_server nat nat nat
  | Op_as_client nat nat string
  | Op_as_independent nat nat
  | Op_as_child nat nat
  | Op_with_strand nat nat
  | Op_with_session nat nat
  | Op_mark_final nat
  | Op_start nat bool
  | Op_subscribe nat topic 'cb
  | Op_call nat topic topic 'cb
  | Op_publish nat nat topic "'f option"
  | Op_run "('cb, 'f) post"
  | Op_destroy nat

fun pulse_step :: "bool \<Rightarrow> ('cb, 'f) world \<Rightarrow> ('cb, 'f) pulse_op \<Rightarrow> ('cb, 'f) world res" where
  "pulse_step nd w Op_new = Inr (fst (pulse_new w))"
| "pulse_step nd w (Op_as_server a r port) = as_server nd w a r port"
| "pulse_step nd w (Op_as_client a r addr) = as_client nd w a r addr"
| "pulse_step nd w (Op_as_independent a r) = as_independent nd w a r"
| "pulse_step nd w (Op_as_child a b) = as_child nd w a b"
| "pulse_step nd w (Op_with_strand a key) = with_strand w a key"
| "pulse_step nd w (Op_with_session a ss) = with_session w a ss"
| "pulse_step nd w (Op_mark_final a) = mark_final w a"
| "pulse_step nd w (Op_start a ok) = bind_res (pulse_start nd w a ok) (\<lambda>(w', _). Inr w')"
| "pulse_step nd w (Op_subscribe a t cb) = pulse_subscribe nd w a t (User_cb cb)"
| "pulse_step nd w (Op_call a req res cb) = pulse_call nd w a req res cb"
| "pulse_step nd w (Op_publish a se t f) = publish nd w a se t f"
| "pulse_step nd w (Op_run p) = run_post nd w p"
| "pulse_step nd w (Op_destroy a) = pulse_destroy nd w a"

definition has_mode :: "('cb, 'f) world \<Rightarrow> nat \<Rightarrow> (pulse_mode \<Rightarrow> bool) \<Rightarrow> bool" where
  "has_mode w a P \<longleftrightarrow> (case pw_pulse w a of None \<Rightarrow> False | Some p \<Rightarrow> P (pu_mode p))"

fun orderly :: "('cb, 'f) world \<Rightarrow> ('cb, 'f) pulse_op \<Rightarrow> bool" where
  "orderly w (Op_as_server a r port) \<longleftrightarrow> has_mode w a (\<lambda>m. m = Mode_none) \<and> r \<noteq> 0"
| "orderly w (Op_as_client a r addr) \<longleftrightarrow> has_mode w a (\<lambda>m. m = Mode_none) \<and> r \<noteq> 0"
| "orderly w (Op_as_independent a r) \<longleftrightarrow> has_mode w a (\<lambda>m. m = Mode_none) \<and> r \<noteq> 0"
| "orderly w (Op_as_child a b) \<longleftrightarrow> has_mode w a (\<lambda>m. m = Mode_none) \<and> has_mode w b (\<lambda>m. m \<noteq> Mode_none) \<and> b < a"
| "orderly w (Op_subscribe a t cb) \<longleftrightarrow> has_mode w a (\<lambda>m. m \<noteq> Mode_none)"
| "orderly w (Op_call a req res cb) \<longleftrightarrow> has_mode w a (\<lambda>m. m \<noteq> Mode_none)"
| "orderly w (Op_destroy a) \<longleftrightarrow> (case pw_pulse w a of None \<Rightarrow> False | Some p \<Rightarrow> \<not> pu_stop p \<and>
     (if pu_mode p = Mode_child
      then (case pw_pulse w (pu_parent p) of None \<Rightarrow> False | Some q \<Rightarrow> pu_parent p \<noteq> 0 \<and> pu_parent q = 0)
      else pu_parent p = 0))"
| "orderly w _ \<longleftrightarrow> True"

inductive orderly_reachable :: "bool \<Rightarrow> ('cb, 'f) world \<Rightarrow> bool" for nd :: bool where
  start: "orderly_reachable nd world_empty"
| step: "orderly_reachable nd w \<Longrightarrow> orderly w op \<Longrightarrow> pulse_step nd w op = Inr w' \<Longrightarrow> orderly_reachable nd w'"

lemma run_post_ok: "pulses_ok w \<Longrightarrow> run_post nd w p = Inr w' \<Longrightarrow> pulses_ok w'"
  by (cases "(nd, w, p)" rule: run_post.cases) (auto dest: call_answer_ok)

lemma dispatch_ok: "pulses_ok w \<Longrightarrow> dispatch nd w a se t f = Inr w' \<Longrightarrow> pulses_ok w'"
  by (auto simp: dispatch_def bind_res_eq_Inr)

lemma destroy_ok:
  assumes "pulses_ok w" and "orderly w (Op_destroy a)" and "pulse_destroy nd w a = Inr w'"
  shows "pulses_ok w'"
proof -
  obtain p where p: "pw_pulse w a = Some p" "\<not> pu_stop p" using assms(2) by (auto split: option.splits)
  have leaf: "pu_childs p = []"
    using assms(3) p by (auto simp: pulse_destroy_def pulse_stop_def res_simps Let_def split: if_splits)
  show ?thesis
  proof (cases "pu_mode p = Mode_child")
    case True
    then obtain q where "pw_pulse w (pu_parent p) = Some q" "pu_parent p \<noteq> 0" "pu_parent q = 0"
      using assms(2) p by (auto split: option.splits)
    then show ?thesis using pulse_destroy_child_ok [OF assms(1) p True leaf _ _ _ _ assms(3)] by blast
  next
    case False
    then show ?thesis using pulse_destroy_root_ok [OF assms(1) p _ False assms(3)] assms(2) p by auto
  qed
qed

lemma orderly_step_ok:
  assumes "pulses_ok w" and "orderly w op" and "pulse_step nd w op = Inr w'"
  shows "pulses_ok w'"
proof (cases op)
  case Op_new
  then show ?thesis using assms pulse_new_ok [OF assms(1)] by (metis old.sum.inject(2) prod.collapse pulse_step.simps(1))
next
  case (Op_destroy a)
  then show ?thesis using assms destroy_ok by auto
next
  case (Op_as_child a b)
  then show ?thesis using assms as_child_ok [OF assms(1)] by (auto simp: has_mode_def split: option.splits)
next
  case (Op_start a ok)
  then show ?thesis using assms pulse_start_ok [OF assms(1)] by (auto simp: bind_res_eq_Inr)
next
  case (Op_run p)
  then show ?thesis using assms run_post_ok by auto
next
  case (Op_publish a se t f)
  then show ?thesis using assms dispatch_ok by (auto simp: publish_def)
qed (use assms as_endpoint_ok [OF assms(1)] with_ok [OF assms(1)] pulse_subscribe_ok [OF assms(1)]
      pulse_call_ok [OF assms(1)] in \<open>auto simp: has_mode_def split: option.splits\<close>)

lemma orderly_reachable_ok: "orderly_reachable nd w \<Longrightarrow> pulses_ok w"
proof (induction rule: orderly_reachable.induct)
  case start
  show ?case by (simp add: pulses_ok_def world_empty_def)
next
  case (step w op w')
  then show ?case by (rule_tac orderly_step_ok)
qed

section \<open>Who hears what\<close>

lemma fuel_two: "pulses_ok w \<Longrightarrow> pw_pulse w a = Some p \<Longrightarrow> \<exists>n. pw_next w = Suc (Suc n)"
  using pulses_ok_bounds [of w a p] by (metis Suc_pred less_nat_zero_code not_less_eq old.nat.exhaust)

lemma own_posts:
  assumes "collect_res (post_subscriber nd w a s se f fr) subs = Inr ps"
  shows "Post_receive rn st cb s' g \<in> set ps \<longleftrightarrow> get_runner nd w a = Inr rn \<and> st = s \<and> s' = se \<and> g = f \<and>
    (\<exists>k. is_target k se fr \<and> (k, cb) \<in> set subs)"
  using collect_res_mem [OF assms, of "Post_receive rn st cb s' g"]
  by (auto simp: post_subscriber_def bind_res_eq_Inr split: if_splits) force

lemma child_posts:
  assumes ok: "pulses_ok w" and p: "pw_pulse w r = Some q"
    and c: "collect_res (\<lambda>c. dispatch_n nd w (Suc n) c k t f True) (interested q k t) = Inr ps"
  shows "Post_receive rn st cb s g \<in> set ps \<longleftrightarrow> s = k \<and> g = f \<and> (\<exists>c pc. c \<in> set (interested q k t) \<and>
      pw_pulse w c = Some pc \<and> get_runner nd w c = Inr rn \<and> st = pu_strand pc \<and> (k, cb) \<in> set (subscribers pc t))"
proof -
  have child: "\<exists>pc. pw_pulse w c = Some pc \<and> pu_parent pc \<noteq> 0" if "c \<in> set (interested q k t)" for c
    using pulse_ok_interested [OF pulses_okD [OF ok p] that] by blast
  have "(\<exists>zs. dispatch_n nd w (Suc n) c k t f True = Inr zs \<and> Post_receive rn st cb s g \<in> set zs) \<longleftrightarrow>
      (\<exists>pc. pw_pulse w c = Some pc \<and> get_runner nd w c = Inr rn \<and> st = pu_strand pc \<and> s = k \<and> g = f \<and>
        (k, cb) \<in> set (subscribers pc t))" if mem: "c \<in> set (interested q k t)" for c
  proof -
    obtain pc where pc: "pw_pulse w c = Some pc" "pu_parent pc \<noteq> 0" using child [OF mem] by blast
    obtain zs where zs: "dispatch_n nd w (Suc n) c k t f True = Inr zs"
      using dispatch_child_total [OF ok pc] by blast
    show ?thesis using dispatch_child_posts [OF zs pc] pc zs by simp
  qed
  then show ?thesis using collect_res_mem [OF c] by auto
qed

lemma dispatch_root_posts:
  assumes ok: "pulses_ok w" and p: "pw_pulse w r = Some q" and root: "pu_parent q = 0"
    and d: "dispatch_n nd w (Suc (Suc n)) r se t f False = Inr ps"
  shows "Post_receive rn st cb s g \<in> set ps \<longleftrightarrow> g = f \<and> (\<exists>k. (k = 0 \<or> k = se) \<and>
     ((s = se \<and> get_runner nd w r = Inr rn \<and> st = pu_strand q \<and> (k, cb) \<in> set (subscribers q t)) \<or>
      (s = k \<and> (\<exists>c pc. c \<in> set (interested q k t) \<and> pw_pulse w c = Some pc \<and> get_runner nd w c = Inr rn \<and>
          st = pu_strand pc \<and> (k, cb) \<in> set (subscribers pc t)))))"
proof -
  have r: "r \<noteq> 0" using pulses_ok_bounds [OF ok p] by simp
  from d p root r obtain own blind bound where
    own: "collect_res (post_subscriber nd w r (pu_strand q) se f False) (subscribers q t) = Inr own"
    and blind: "collect_res (\<lambda>c. dispatch_n nd w (Suc n) c 0 t f True) (interested q 0 t) = Inr blind"
    and bound: "(if se \<noteq> 0 then collect_res (\<lambda>c. dispatch_n nd w (Suc n) c se t f True) (interested q se t)
        else Inr []) = Inr bound"
    and ps: "ps = own @ blind @ bound"
    unfolding dispatch_n.simps(2) [of nd w "Suc n"] deref_eq_Inr by (auto simp: bind_res_eq_Inr is_root_def)
  have b: "se \<noteq> 0 \<Longrightarrow> collect_res (\<lambda>c. dispatch_n nd w (Suc n) c se t f True) (interested q se t) = Inr bound"
    "se = 0 \<Longrightarrow> bound = []" using bound by auto
  show ?thesis
    unfolding ps
    using own_posts [OF own, of rn st cb s g] child_posts [OF ok p blind, of rn st cb s g]
      child_posts [OF ok p b(1), of rn st cb s g] b(2)
    by (cases "se = 0") (auto simp: is_target_def)
qed

section \<open>Subscribing\<close>

text \<open>The world after a child subscribes: its own entry, and the child in the root's interests.\<close>

lemma subscribe_child_world:
  assumes ok: "pulses_ok w" and p: "pw_pulse w a = Some p" "pu_mode p \<noteq> Mode_none" "pu_parent p \<noteq> 0"
    and r: "root_of w a r" and s: "pulse_subscribe nd w a t cb = Inr w'"
  shows "\<exists>q p'. pw_pulse w' r = Some q \<and> pu_parent q = 0 \<and> a \<in> set (interested q (pu_session p) t) \<and>
    pw_pulse w' a = Some p' \<and> pu_strand p' = pu_strand p \<and> pu_mode p' = pu_mode p \<and>
    (pu_session p, cb) \<in> set (subscribers p' t)"
proof -
  define p2 where "p2 = p\<lparr>pu_subscriptions := (pu_subscriptions p)(t \<mapsto> subscribers p t @ [(pu_session p, cb)]),
    pu_self_interests := List.insert (pu_session p, t) (pu_self_interests p)\<rparr>"
  obtain r' where r': "get_root (put w a p2) a = Inr r'" "show_interest nd (put w a p2) r' a (pu_session p) t = Inr w'"
    using s p by (auto simp: pulse_subscribe_def res_simps Let_def is_root_def p2_def subscribers_def)
  have "root_of w a r'"
    using get_root_n_root_of [OF r'(1) [unfolded get_root_def]] root_of_put [OF p(1), of p2] by (simp add: p2_def)
  then have rr: "r' = r" using r root_of_unique by metis
  obtain q where q: "pw_pulse w r = Some q" "pu_parent q = 0" using root_of_live [OF r] by blast
  then have ra: "r \<noteq> a" using p by auto
  then have "w' = put (put w a p2) r (q\<lparr>pu_interests :=
      (pu_interests q)((pu_session p, t) \<mapsto> oset_insert a (interested q (pu_session p) t))\<rparr>)"
    using r'(2) rr q by (auto simp: show_interest_def res_simps Let_def interested_def)
  then show ?thesis using q ra by (simp add: p2_def interested_def subscribers_def)
qed

lemma publish_delivers_all:
  assumes "orderly_reachable nd w" and "pw_pulse w r = Some q" and "pu_parent q = 0"
  shows "\<exists>ps. publish nd w r se t f = Inr (w\<lparr>pw_posts := pw_posts w @ ps\<rparr>) \<and>
    (\<forall>rn st cb s g. Post_receive rn st cb s g \<in> set ps \<longleftrightarrow> g = f \<and> (\<exists>k. (k = 0 \<or> k = se) \<and>
     ((s = se \<and> get_runner nd w r = Inr rn \<and> st = pu_strand q \<and> (k, cb) \<in> set (subscribers q t)) \<or>
      (s = k \<and> (\<exists>c pc. c \<in> set (interested q k t) \<and> pw_pulse w c = Some pc \<and> get_runner nd w c = Inr rn \<and>
          st = pu_strand pc \<and> (k, cb) \<in> set (subscribers pc t))))))"
proof -
  note ok = orderly_reachable_ok [OF assms(1)]
  obtain n where n: "pw_next w = Suc (Suc n)" using fuel_two [OF ok assms(2)] by blast
  obtain ps where ps: "dispatch_n nd w (Suc (Suc n)) r se t f False = Inr ps"
    using dispatch_n_total [OF ok assms(2)] by blast
  then have "publish nd w r se t f = Inr (w\<lparr>pw_posts := pw_posts w @ ps\<rparr>)"
    by (simp add: publish_def dispatch_def n del: dispatch_n.simps)
  then show ?thesis using dispatch_root_posts [OF ok assms(2,3) ps] by blast
qed

section \<open>Properties\<close>

text \<open>A root (1), a child of the root (2) and a grandchild (3), for the witnesses.\<close>

definition demo_ops :: "(nat, nat) pulse_op list" where
  "demo_ops = [Op_new, Op_as_independent 1 7, Op_new, Op_as_child 2 1, Op_with_session 2 40, Op_new,
     Op_as_child 3 2, Op_with_session 3 41]"

lemma demo_orderly:
  "\<exists>w. fold_res (pulse_step False) (world_empty :: (nat, nat) world) demo_ops = Inr w \<and>
     orderly_reachable False w \<and>
     pw_pulse w 1 = Some (pulse_default\<lparr>pu_mode := Mode_independent, pu_runner := 7, pu_childs := [2]\<rparr>) \<and>
     pw_pulse w 2 = Some (pulse_default\<lparr>pu_mode := Mode_child, pu_parent := 1, pu_childs := [3], pu_session := 40\<rparr>) \<and>
     pw_pulse w 3 = Some (pulse_default\<lparr>pu_mode := Mode_child, pu_parent := 2, pu_session := 41\<rparr>) \<and>
     pw_next w = 4 \<and> pw_posts w = []"
proof -
  have steps: "orderly_reachable False w" if "fold_res (\<lambda>w op. if orderly w op then pulse_step False w op else Inl Undefined)
      (world_empty :: (nat, nat) world) ops = Inr w" for ops w
  proof (rule fold_res_invariant [OF that])
    show "orderly_reachable False (world_empty :: (nat, nat) world)" by (rule orderly_reachable.start)
  qed (auto split: if_splits intro: orderly_reachable.step)
  note defs = demo_ops_def pulse_new_def world_empty_def pulse_default_def as_independent_def as_child_def
    with_session_def modify_def put_def bind_child_def has_mode_def numeral_2_eq_2 numeral_3_eq_3 numeral_eq_Suc
    deref_def
  show ?thesis
    using steps [of demo_ops] by (simp add: defs)
qed



text \<open>
  Subscribe, then publish: what a child subscribes to reaches it from the root. The frame of
  the child's session is posted to the new receiver on the child's strand.
\<close>

theorem subscribe_then_publish:
  assumes "orderly_reachable nd w" and "pw_pulse w a = Some p" and "pu_mode p \<noteq> Mode_none"
    and "pu_parent p \<noteq> 0" and "root_of w a r" and "pulse_subscribe nd w a t (User_cb cb) = Inr w'"
    and "pu_session p = 0 \<or> pu_session p = se"
  shows "\<exists>ps rn. publish nd w' r se t f = Inr (w'\<lparr>pw_posts := pw_posts w' @ ps\<rparr>) \<and>
    Post_receive rn (pu_strand p) (User_cb cb) (pu_session p) f \<in> set ps"
proof -
  note ok = orderly_reachable_ok [OF assms(1)]
  have reach: "orderly_reachable nd w'"
    using assms orderly_reachable.step [OF assms(1), of "Op_subscribe a t cb"] by (simp add: has_mode_def)
  obtain q p' where q: "pw_pulse w' r = Some q" "pu_parent q = 0" "a \<in> set (interested q (pu_session p) t)"
    and p': "pw_pulse w' a = Some p'" "pu_strand p' = pu_strand p" "pu_mode p' = pu_mode p"
      "(pu_session p, User_cb cb) \<in> set (subscribers p' t)"
    using subscribe_child_world [OF ok assms(2-6)] by blast
  obtain rn where "get_runner nd w' a = Inr rn"
    using get_runner_total [OF orderly_reachable_ok [OF reach] p'(1)] p'(3) assms(3) by auto
  with p' q(3) assms(7) show ?thesis
    using publish_delivers_all [OF reach q(1,2), of se t f] by metis
qed

theorem subscribe_then_publish_witness:
  "\<exists>(w :: (nat, nat) world) w' ps rn. fold_res (pulse_step False) world_empty demo_ops = Inr w \<and>
     pulse_subscribe False w 3 11 (User_cb 8) = Inr w' \<and>
     publish False w' 1 41 11 (Some 5) = Inr (w'\<lparr>pw_posts := pw_posts w' @ ps\<rparr>) \<and>
     Post_receive rn 0 (User_cb 8) 41 (Some 5) \<in> set ps"
proof -
  obtain w :: "(nat, nat) world" where w: "fold_res (pulse_step False) world_empty demo_ops = Inr w"
    "orderly_reachable False w"
    "pw_pulse w 1 = Some (pulse_default\<lparr>pu_mode := Mode_independent, pu_runner := 7, pu_childs := [2]\<rparr>)"
    "pw_pulse w 2 = Some (pulse_default\<lparr>pu_mode := Mode_child, pu_parent := 1, pu_childs := [3], pu_session := 40\<rparr>)"
    "pw_pulse w 3 = Some (pulse_default\<lparr>pu_mode := Mode_child, pu_parent := 2, pu_session := 41\<rparr>)"
    "pw_next w = 4"
    using demo_orderly by blast
  have root: "root_of w 3 1"
    using w root_of.up [OF w(5)] root_of.up [OF w(4)] root_of.here [OF w(3)] by (simp add: pulse_default_def)
  obtain w' where s: "pulse_subscribe False w 3 11 (User_cb 8) = Inr w'"
    using w by (simp add: pulse_subscribe_def deref_def put_def get_root_def show_interest_def is_root_def
        pulse_default_def numeral_eq_Suc)
  show ?thesis
    using subscribe_then_publish [OF w(2,5) _ _ root s, of 41 "Some 5"] w(1) s
    by (fastforce simp: pulse_default_def)
qed

section \<open>A destroyed grandchild\<close>

lemma destroy_grandchild_world:
  assumes "pulses_ok w" and "pw_pulse w g = Some p" "\<not> pu_stop p" "pu_mode p = Mode_child"
    and "pw_pulse w (pu_parent p) = Some q" "pu_parent p \<noteq> 0" "pu_parent q \<noteq> 0"
    and "pulse_destroy nd w g = Inr w'" and "r \<noteq> g" "r \<noteq> pu_parent p"
  shows "pw_pulse w' g = None \<and> pw_pulse w' r = pw_pulse w r \<and> pw_next w' = pw_next w"
  using assms pulses_ok_parent(1) [OF assms(1,2,6)] pulses_ok_bounds [OF assms(1,2)]
  by (auto simp: pulse_destroy_def pulse_stop_def unbind_child_def res_simps is_root_def Let_def split: if_splits)

lemma dispatch_dangling:
  assumes "pw_pulse w g = None" and "pw_pulse w r = Some q" and "pu_parent q = 0"
    and "g \<in> set (interested q k t)" and "k = 0 \<or> k = se"
  shows "\<exists>e. dispatch_n nd w n r se t f False = Inl e"
proof (cases n)
  case (Suc m)
  have "dispatch_n nd w m g s t f True = Inl Undefined" for s
    using assms(1) by (cases m) (simp_all add: deref_def)
  then have "\<exists>e. collect_res (\<lambda>c. dispatch_n nd w m c s t f True) (interested q k t) = Inl e" for s
    using collect_res_fault [OF assms(4), of "\<lambda>c. dispatch_n nd w m c s t f True"] by simp
  then have faults: "\<exists>e. collect_res (\<lambda>c. dispatch_n nd w m c k t f True) (interested q k t) = Inl e" .
  show ?thesis
  proof (rule ccontr)
    assume "\<nexists>e. dispatch_n nd w n r se t f False = Inl e"
    then obtain ps where "dispatch_n nd w n r se t f False = Inr ps" by (metis sumE)
    then show False
      using Suc assms faults by (auto simp: res_simps is_root_def split: if_splits)
  qed
qed simp

text \<open>
  C38. \<^verbatim>\<open>unbind_child\<close> takes back the interests of a pulse only when the parent it is
  called on is the root, while \<^verbatim>\<open>subscribe\<close> registers them at the root from any depth.
  Destroying a pulse whose parent is not the root therefore leaves its address in the root's
  interests, and the next frame of that topic faults on the dangling pointer.
\<close>

theorem destroyed_grandchild_faults:
  assumes "orderly_reachable nd w" and "pw_pulse w g = Some p" and "\<not> pu_stop p" and "pu_mode p = Mode_child"
    and "pu_parent p \<noteq> 0" and "pw_pulse w (pu_parent p) = Some b" and "pu_parent b \<noteq> 0"
    and "pw_pulse w r = Some q" and "pu_parent q = 0"
    and "g \<in> set (interested q k t)" and "k = 0 \<or> k = se"
    and "pulse_destroy nd w g = Inr w'"
  shows "\<exists>e. publish nd w' r se t f = Inl e"
proof -
  have ne: "r \<noteq> g" "r \<noteq> pu_parent p" using assms(2,5-9) by auto
  have "pw_pulse w' g = None" "pw_pulse w' r = Some q"
    using destroy_grandchild_world [OF orderly_reachable_ok [OF assms(1)] assms(2-4,6,5,7,12) ne] assms(8) by auto
  then show ?thesis
    using dispatch_dangling [OF _ _ assms(9-11), where w = w' and r = r and nd = nd and n = "pw_next w'" and f = f]
    by (auto simp: publish_def dispatch_def)
qed

theorem destroyed_grandchild_faults_witness:
  "\<exists>(w :: (nat, nat) world) w1 w2 e. fold_res (pulse_step False) world_empty demo_ops = Inr w \<and>
     pulse_subscribe False w 3 11 (User_cb 8) = Inr w1 \<and> pulse_destroy False w1 3 = Inr w2 \<and>
     publish False w2 1 41 11 (Some 5) = Inl e"
proof -
  obtain w :: "(nat, nat) world" where w: "fold_res (pulse_step False) world_empty demo_ops = Inr w"
    "orderly_reachable False w"
    "pw_pulse w 1 = Some (pulse_default\<lparr>pu_mode := Mode_independent, pu_runner := 7, pu_childs := [2]\<rparr>)"
    "pw_pulse w 2 = Some (pulse_default\<lparr>pu_mode := Mode_child, pu_parent := 1, pu_childs := [3], pu_session := 40\<rparr>)"
    "pw_pulse w 3 = Some (pulse_default\<lparr>pu_mode := Mode_child, pu_parent := 2, pu_session := 41\<rparr>)"
    "pw_next w = 4"
    using demo_orderly by blast
  obtain w1 p q b where s: "pulse_subscribe False w 3 11 (User_cb 8) = Inr w1"
    "pw_pulse w1 3 = Some p" "\<not> pu_stop p" "pu_mode p = Mode_child" "pu_parent p = 2"
    "pw_pulse w1 2 = Some b" "pu_parent b = 1" "pw_pulse w1 1 = Some q" "pu_parent q = 0" "3 \<in> set (interested q 41 11)"
    using w by (simp add: pulse_subscribe_def deref_def put_def get_root_def show_interest_def is_root_def
        interested_def pulse_default_def numeral_eq_Suc)
  have reach: "orderly_reachable False w1"
    using orderly_reachable.step [OF w(2), of "Op_subscribe 3 11 8" w1] s(1) w(5)
    by (simp add: has_mode_def pulse_default_def)
  obtain w2 where d: "pulse_destroy False w1 3 = Inr w2"
    using w s(1) by (auto simp: pulse_destroy_def pulse_stop_def unbind_child_def pulse_subscribe_def deref_def
        put_def get_root_def show_interest_def is_root_def pulse_default_def numeral_eq_Suc)
  show ?thesis
    using destroyed_grandchild_faults [OF reach s(2-4) _ _ _ s(8-10) _ d, of b 41 "Some 5"] s w(1) d by auto
qed

end
