(* ===== verification/Pulse_Calls.thy ===== *)
theory Pulse_Calls
  imports Pulse_Tree "HOL-Library.Multiset"
begin

text \<open>
  Calls over a session (\<^verbatim>\<open>pulse::call\<close> and what follows from it): every call waits in
  a queue of its request topic until a reply takes it out or the session closes and its
  callback is posted. The locale \<open>call_queue\<close> is the contract of such a queue;
  \<^verbatim>\<open>topic_calls\<close> interprets it.
\<close>

section \<open>The contract of a call queue\<close>

datatype 'cb call_event = Issue 'cb | Answer

fun issued :: "'cb call_event list \<Rightarrow> 'cb list" where
  "issued [] = []"
| "issued (Issue cb # es) = cb # issued es"
| "issued (Answer # es) = issued es"

fun answers :: "'cb call_event list \<Rightarrow> nat" where
  "answers [] = 0"
| "answers (Issue cb # es) = answers es"
| "answers (Answer # es) = Suc (answers es)"

text \<open>No reply comes before its call: with \<open>n\<close> calls waiting, replies never run ahead.\<close>

fun replies_follow :: "nat \<Rightarrow> 'cb call_event list \<Rightarrow> bool" where
  "replies_follow n [] \<longleftrightarrow> True"
| "replies_follow n (Issue cb # es) \<longleftrightarrow> replies_follow (Suc n) es"
| "replies_follow n (Answer # es) \<longleftrightarrow> 0 < n \<and> replies_follow (n - 1) es"

locale call_queue =
  fixes pending :: "'s \<Rightarrow> 'cb list"
    and issue :: "'cb \<Rightarrow> 's \<Rightarrow> 's"
    and answer :: "'s \<Rightarrow> 's res"
    and ok :: "'s \<Rightarrow> bool"
  assumes issue_pending: "pending (issue cb s) = pending s @ [cb]"
    and issue_ok: "ok s \<Longrightarrow> ok (issue cb s)"
    and answer_pending: "ok s \<Longrightarrow> pending s \<noteq> [] \<Longrightarrow> \<exists>s'. answer s = Inr s' \<and> ok s' \<and> pending s' = tl (pending s)"
begin

definition queue_step :: "'s \<Rightarrow> 'cb call_event \<Rightarrow> 's res" where
  "queue_step s e = (case e of Issue cb \<Rightarrow> Inr (issue cb s) | Answer \<Rightarrow> answer s)"

lemma queue_run:
  assumes "ok s" and "replies_follow (length (pending s)) es"
  shows "\<exists>s'. fold_res queue_step s es = Inr s' \<and> ok s' \<and> pending s' = drop (answers es) (pending s @ issued es)"
  using assms
proof (induction es arbitrary: s)
  case Nil
  then show ?case by simp
next
  case (Cons e es)
  show ?case
  proof (cases e)
    case (Issue cb)
    with Cons.IH [of "issue cb s"] Cons.prems show ?thesis
      by (simp add: queue_step_def issue_pending issue_ok)
  next
    case Answer
    with Cons.prems have ne: "pending s \<noteq> []" by auto
    then obtain s1 where s1: "answer s = Inr s1" "ok s1" "pending s1 = tl (pending s)"
      using answer_pending [OF Cons.prems(1)] by blast
    then have "replies_follow (length (pending s1)) es" using Cons.prems(2) Answer by simp
    from Cons.IH [OF s1(2) this] s1 ne Answer show ?thesis
      by (cases "pending s") (auto simp: queue_step_def)
  qed
qed

end

section \<open>The queue of one request topic\<close>

text \<open>The waiting callers carry the numbers after the last reply, up to the last call.\<close>

definition calls_ok :: "'cb topic_calls \<Rightarrow> bool" where
  "calls_ok tc \<longleftrightarrow> reply_index tc \<le> call_index tc \<and>
     map call_id (callers tc) = [Suc (reply_index tc) ..< Suc (call_index tc)]"

definition waiting :: "'cb topic_calls \<Rightarrow> 'cb list" where
  "waiting tc = map caller_cb (callers tc)"

lemma calls_ok_new: "calls_ok topic_calls_new" "waiting topic_calls_new = []"
  by (simp_all add: calls_ok_def waiting_def topic_calls_new_def)

lemma pop_caller_ok:
  assumes "calls_ok tc" and "waiting tc \<noteq> []"
  shows "\<exists>tc'. pop_caller nd tc = Inr tc' \<and> calls_ok tc' \<and> waiting tc' = tl (waiting tc)"
proof -
  obtain c cs where c: "callers tc = c # cs" using assms(2) by (cases "callers tc") (auto simp: waiting_def)
  have ids0: "call_id c # map call_id cs = [Suc (reply_index tc) ..< Suc (call_index tc)]"
    using assms(1) c by (simp add: calls_ok_def del: upt_Suc)
  then have lt: "reply_index tc < call_index tc" by (cases "reply_index tc < call_index tc") (auto simp del: upt_Suc)
  then have ids: "call_id c = Suc (reply_index tc)"
    "map call_id cs = [Suc (Suc (reply_index tc)) ..< Suc (call_index tc)]"
    using ids0 by (simp_all add: upt_conv_Cons del: upt_Suc)
  then show ?thesis using c lt by (simp add: pop_caller_def calls_ok_def waiting_def del: upt_Suc)
qed

interpretation tc_queue: call_queue waiting add_caller "pop_caller nd" calls_ok for nd
proof
  fix cb :: 'cb and s :: "'cb topic_calls"
  show "waiting (add_caller cb s) = waiting s @ [cb]" by (simp add: waiting_def add_caller_def Let_def)
  show "calls_ok s \<Longrightarrow> calls_ok (add_caller cb s)" by (simp add: calls_ok_def add_caller_def Let_def)
next
  fix s :: "'cb topic_calls"
  assume "calls_ok s" "waiting s \<noteq> []"
  then show "\<exists>s'. pop_caller nd s = Inr s' \<and> calls_ok s' \<and> waiting s' = tl (waiting s)" by (rule pop_caller_ok)
qed

definition topic_calls_step :: "bool \<Rightarrow> 'cb topic_calls \<Rightarrow> 'cb call_event \<Rightarrow> 'cb topic_calls res" where
  "topic_calls_step nd tc e = (case e of Issue cb \<Rightarrow> Inr (add_caller cb tc) | Answer \<Rightarrow> pop_caller nd tc)"

lemma topic_calls_step_queue: "topic_calls_step nd = tc_queue.queue_step nd"
  by (simp add: fun_eq_iff topic_calls_step_def tc_queue.queue_step_def)

section \<open>Subscriptions of a call\<close>

lemma subscribe_other_topics:
  assumes "pulse_subscribe nd w a t cb = Inr w'" and "pw_pulse w a = Some p"
  shows "\<exists>p'. pw_pulse w' a = Some p' \<and> pu_calls p' = pu_calls p \<and> pu_session p' = pu_session p \<and>
    pu_strand p' = pu_strand p \<and> pu_mode p' = pu_mode p \<and> pu_parent p' = pu_parent p \<and>
    (\<forall>u. u \<noteq> t \<longrightarrow> pu_subscriptions p' u = pu_subscriptions p u)"
  using assms by (auto simp: pulse_subscribe_def show_interest_def res_simps Let_def split: if_splits)

lemma call_subscribe_closed_effect:
  assumes "call_subscribe_closed nd w a = Inr w'" and "pw_pulse w a = Some p"
  shows "\<exists>p'. pw_pulse w' a = Some p' \<and> pu_calls p' = pu_calls p \<and> pu_session p' = pu_session p \<and>
    pu_strand p' = pu_strand p \<and> pu_mode p' = pu_mode p \<and> pu_parent p' = pu_parent p \<and>
    (\<forall>u. u \<noteq> topic_closed \<or> has_subscription p topic_closed \<longrightarrow> pu_subscriptions p' u = pu_subscriptions p u)"
  using assms subscribe_other_topics [of nd w a topic_closed "Call_closed_cb a" w' p]
  by (auto simp: call_subscribe_closed_def res_simps split: if_splits)

lemma call_subscribe_reply_effect:
  assumes "call_subscribe_reply nd w a t = Inr w'" and "pw_pulse w a = Some p"
  shows "\<exists>p'. pw_pulse w' a = Some p' \<and> pu_calls p' = pu_calls p \<and> pu_session p' = pu_session p \<and>
    pu_strand p' = pu_strand p \<and> pu_mode p' = pu_mode p \<and> pu_parent p' = pu_parent p \<and>
    (\<forall>u. u \<noteq> t \<or> has_subscription p t \<longrightarrow> pu_subscriptions p' u = pu_subscriptions p u)"
  using assms subscribe_other_topics [of nd w a t "Call_receive_cb a t" w' p]
  by (auto simp: call_subscribe_reply_def res_simps split: if_splits)

text \<open>The pulse after a call.\<close>

definition with_call :: "'cb pulse \<Rightarrow> topic \<Rightarrow> 'cb \<Rightarrow> (topic \<times> 'cb topic_calls) list" where
  "with_call p req cb = omap_set req (add_caller cb
     (case map_of (pu_calls p) req of None \<Rightarrow> topic_calls_new | Some tc \<Rightarrow> tc)) (pu_calls p)"

lemma pulse_call_effect:
  assumes "pulse_call nd w a req res cb = Inr w'" and p: "pw_pulse w a = Some p"
  shows "\<exists>p'. pw_pulse w' a = Some p' \<and> pu_calls p' = with_call p req cb \<and> pu_session p' = pu_session p \<and>
    pu_strand p' = pu_strand p \<and> pu_mode p' = pu_mode p \<and> pu_parent p' = pu_parent p \<and> pu_call_pairs p' res = Some req \<and>
    (has_subscription p topic_closed \<longrightarrow> has_subscription p res \<longrightarrow> pu_subscriptions p' = pu_subscriptions p)"
proof -
  obtain w1 w2 where s: "call_subscribe_closed nd w a = Inr w1" "call_subscribe_reply nd w1 a res = Inr w2"
    and m: "modify w2 a (\<lambda>p2.
          let tc = (case map_of (pu_calls p2) req of None \<Rightarrow> topic_calls_new | Some tc \<Rightarrow> tc) in
          p2\<lparr>pu_calls := omap_set req (add_caller cb tc) (pu_calls p2),
             pu_call_pairs := (pu_call_pairs p2)(res \<mapsto> req)\<rparr>) = Inr w'"
    using assms unfolding pulse_call_def deref_eq_Inr play_check_eq_Inr bind_res_eq_Inr by blast
  obtain p1 where p1: "pw_pulse w1 a = Some p1" "pu_calls p1 = pu_calls p" "pu_session p1 = pu_session p"
      "pu_strand p1 = pu_strand p" "pu_mode p1 = pu_mode p" "pu_parent p1 = pu_parent p"
      "\<forall>u. u \<noteq> topic_closed \<or> has_subscription p topic_closed \<longrightarrow> pu_subscriptions p1 u = pu_subscriptions p u"
    using call_subscribe_closed_effect [OF s(1) p] by blast
  obtain p2 where p2: "pw_pulse w2 a = Some p2" "pu_calls p2 = pu_calls p1" "pu_session p2 = pu_session p1"
      "pu_strand p2 = pu_strand p1" "pu_mode p2 = pu_mode p1" "pu_parent p2 = pu_parent p1"
      "\<forall>u. u \<noteq> res \<or> has_subscription p1 res \<longrightarrow> pu_subscriptions p2 u = pu_subscriptions p1 u"
    using call_subscribe_reply_effect [OF s(2) p1(1)] by blast
  have "pu_subscriptions p2 = pu_subscriptions p" if "has_subscription p topic_closed" "has_subscription p res"
    using that p1(7) p2(7) by (auto simp: has_subscription_def fun_eq_iff)
  then show ?thesis using m p1 p2 by (auto simp: modify_eq_Inr with_call_def Let_def)
qed

lemma mset_concat_omap_set:
  "omap_ok m \<Longrightarrow> mset (concat (map (\<lambda>(_, tc). waiting tc) (omap_set k v m))) + mset (case map_of m k of None \<Rightarrow> [] | Some tc \<Rightarrow> waiting tc)
    = mset (concat (map (\<lambda>(_, tc). waiting tc) m)) + mset (waiting v)"
proof (induction k v m rule: omap_set.induct)
  case (2 k v k' v' m)
  have "map_of m k = None" if "k < k'"
    using 2(2) that by (force simp: omap_ok_def map_of_eq_None_iff)
  moreover have "omap_ok m" using 2(2) by (simp add: omap_ok_def)
  ultimately show ?case using 2(1) by (auto simp: ac_simps)
qed simp

lemma mset_outstanding_with_call:
  assumes "omap_ok (pu_calls p)" and "pu_calls p' = with_call p req cb"
  shows "mset (outstanding p') = add_mset cb (mset (outstanding p))"
proof -
  have w: "(\<lambda>(_, tc). map caller_cb (callers tc)) = (\<lambda>(_ :: topic, tc :: 'a topic_calls). waiting tc)"
    by (simp add: waiting_def)
  show ?thesis
    using mset_concat_omap_set [OF assms(1), of req "add_caller cb (case map_of (pu_calls p) req of
        None \<Rightarrow> topic_calls_new | Some tc \<Rightarrow> tc)"] assms(2)
    by (cases "map_of (pu_calls p) req")
      (auto simp: outstanding_def with_call_def w tc_queue.issue_pending calls_ok_new)
qed

section \<open>Properties\<close>

text \<open>
  C7. Replies answer calls first in, first out: over any interleaving of calls and replies of a
  request topic in which no reply comes without a call, no check fails, each reply takes the
  oldest waiting caller, and the callers left are those whose reply is still to come.
\<close>

theorem calls_answered_in_order:
  assumes "replies_follow 0 es"
  shows "\<exists>tc. fold_res (topic_calls_step nd) topic_calls_new es = Inr tc \<and> calls_ok tc \<and>
    waiting tc = drop (answers es) (issued es)"
  using tc_queue.queue_run [of topic_calls_new es nd] assms
  by (simp add: topic_calls_step_queue calls_ok_new)

theorem calls_answered_in_order_witness:
  "\<exists>tc. fold_res (topic_calls_step False) topic_calls_new [Issue (1 :: nat), Issue 2, Answer, Issue 3] = Inr tc \<and>
     waiting tc = [2, 3]"
  using calls_answered_in_order [of "[Issue (1 :: nat), Issue 2, Answer, Issue 3]" False] by auto


text \<open>A child (2) of a root (1), with a session, for the witnesses.\<close>

definition demo_child :: "nat pulse" where
  "demo_child = pulse_default\<lparr>pu_mode := Mode_child, pu_parent := 1, pu_session := 40, pu_strand := 3\<rparr>"

definition demo_world :: "nat pulse \<Rightarrow> (nat, 'f) world" where
  "demo_world p = \<lparr>pw_pulse = [1 \<mapsto> pulse_default\<lparr>pu_mode := Mode_independent, pu_runner := 7, pu_childs := [2]\<rparr>, 2 \<mapsto> p],
     pw_next = 3, pw_posts = []\<rparr>"

lemmas demo_defs = demo_world_def demo_child_def pulse_default_def pulse_call_def call_subscribe_closed_def
  call_subscribe_reply_def pulse_subscribe_def show_interest_def get_root_def get_runner_def modify_def put_def
  deref_def is_root_def has_subscription_def topic_closed_def numeral_eq_Suc

lemma demo_call:
  "\<exists>w1 rn. pulse_call False (demo_world demo_child :: (nat, nat) world) 2 11 12 5 = Inr w1 \<and> get_runner False w1 2 = Inr rn"
  by (simp add: demo_defs)


text \<open>
  A reply nobody waits for: once a request topic has been used, a further reply with no
  caller waiting fails a check, or in a build without assertions reads the front of an empty
  queue.
\<close>

theorem unsolicited_reply_faults:
  assumes "pw_pulse w a = Some p" and "a \<noteq> 0" and "pu_mode p = Mode_child" and "pu_parent p \<noteq> 0"
    and "pu_session p \<noteq> 0" and "pu_call_pairs p res = Some req" and "map_of (pu_calls p) req = Some tc"
    and "waiting tc = []"
  shows "call_receive nd w a se res = Inl (if nd then Undefined else Check_failed)"
  using assms by (simp add: call_receive_def is_root_def pop_caller_def waiting_def play_check_def)

theorem unsolicited_reply_faults_witness:
  "call_receive False (demo_world (demo_child\<lparr>pu_calls := [(11, topic_calls_new)], pu_call_pairs := [12 \<mapsto> 11]\<rparr>) :: (nat, nat) world) 2 40 12
    = Inl Check_failed"
  using unsolicited_reply_faults [of "demo_world (demo_child\<lparr>pu_calls := [(11, topic_calls_new)],
      pu_call_pairs := [12 \<mapsto> 11]\<rparr>) :: (nat, nat) world" 2 "demo_child\<lparr>pu_calls := [(11, topic_calls_new)],
      pu_call_pairs := [12 \<mapsto> 11]\<rparr>" 12 11 topic_calls_new False 40]
  by (simp add: demo_world_def demo_child_def pulse_default_def calls_ok_new)

text \<open>
  A pulse that has subscribed to the reply topic and to the end of the session itself, as an
  application that wants to see the reply does before it calls, gets no receiver from
  \<^verbatim>\<open>call\<close>: its subscriptions are what they were, so neither the reply nor the end of the
  session will ever touch the call, which stays outstanding.
\<close>

theorem call_with_own_subscription_is_untracked:
  assumes "pulse_call nd w a req res cb = Inr w1" and "pw_pulse w a = Some p"
    and "has_subscription p res" and "has_subscription p topic_closed" and "omap_ok (pu_calls p)"
  shows "\<exists>p1. pw_pulse w1 a = Some p1 \<and> pu_subscriptions p1 = pu_subscriptions p \<and>
    mset (outstanding p1) = add_mset cb (mset (outstanding p))"
  using pulse_call_effect [OF assms(1,2)] mset_outstanding_with_call [OF assms(5)] assms(3,4) by blast

theorem call_with_own_subscription_is_untracked_witness:
  "\<exists>w1 p1. pulse_call False (demo_world (demo_child\<lparr>pu_subscriptions :=
        [12 \<mapsto> [(40, User_cb 1)], topic_closed \<mapsto> [(40, User_cb 2)]]\<rparr>) :: (nat, nat) world) 2 11 12 5 = Inr w1 \<and>
     pw_pulse w1 2 = Some p1 \<and> subscribers p1 12 = [(40, User_cb 1)] \<and> mset (outstanding p1) = {#5#}"
proof -
  let ?p = "demo_child\<lparr>pu_subscriptions := [12 \<mapsto> [(40, User_cb 1)], topic_closed \<mapsto> [(40, User_cb 2)]]\<rparr>"
  obtain w1 where c: "pulse_call False (demo_world ?p :: (nat, nat) world) 2 11 12 5 = Inr w1"
    by (simp add: demo_defs)
  have p: "pw_pulse (demo_world ?p :: (nat, nat) world) 2 = Some ?p" by (simp add: demo_world_def)
  show ?thesis
    using call_with_own_subscription_is_untracked [OF c p] c
    by (fastforce simp: has_subscription_def subscribers_def demo_child_def pulse_default_def outstanding_def topic_closed_def)
qed

end
