(* ===== verification/Pulse_Fb.thy ===== *)
theory Pulse_Fb
  imports Pulse_Calls Session Plain_Protocol
begin

text \<open>
  \<^verbatim>\<open>play/net/pulse_fb.hpp\<close> and \<^verbatim>\<open>pulse_fb.ipp\<close>: pulses whose frames are
  FlatBuffers objects. FlatBuffers is a parameter: \<open>fb_pack\<close> serializes an object,
  \<open>fb_verify\<close> and \<open>fb_unpack\<close> check and read a buffer. The registry of unpackers is one
  static map. Sessions are objects in a store, so that a send changes the session it goes
  through; \<open>fb_sent\<close> are the socket operations of the sends and \<open>fb_called\<close> the callbacks
  that were called at once.
\<close>

section \<open>Definitions\<close>

record ('o, 'f) flatbuffers =
  fb_pack :: "'o \<Rightarrow> bytes"
  fb_verify :: "bytes \<Rightarrow> bool"
  fb_unpack :: "bytes \<Rightarrow> 'f"

text \<open>What FlatBuffers documents: a packed object passes verification and unpacks to itself.\<close>

definition fb_roundtrip :: "('f, 'f) flatbuffers \<Rightarrow> bool" where
  "fb_roundtrip F \<longleftrightarrow> (\<forall>x. fb_verify F (fb_pack F x) \<and> fb_unpack F (fb_pack F x) = x)"

type_synonym 'f unpackers = "topic \<rightharpoonup> (bytes \<Rightarrow> 'f option)"

definition add_unpacker :: "'f unpackers \<Rightarrow> topic \<Rightarrow> (bytes \<Rightarrow> 'f option) \<Rightarrow> 'f unpackers" where
  "add_unpacker u pic fn = (case u pic of None \<Rightarrow> u(pic \<mapsto> fn) | Some _ \<Rightarrow> u)"

definition unpack_fn :: "('o, 'f) flatbuffers \<Rightarrow> bytes \<Rightarrow> 'f option" where
  "unpack_fn F data = (if fb_verify F data then Some (fb_unpack F data) else None)"

definition fb_unpack_frame :: "'f unpackers \<Rightarrow> topic \<Rightarrow> bytes \<Rightarrow> 'f option" where
  "fb_unpack_frame u pic data = (case u pic of None \<Rightarrow> None | Some fn \<Rightarrow> fn data)"

record ('p, 'cb, 'f) fb_world =
  fb_pulses :: "('cb, 'f) world"
  fb_sessions :: "nat \<rightharpoonup> 'p session"
  fb_sent :: "(nat \<times> topic session_out) list"
  fb_called :: "'cb list"

text \<open>The static \<^verbatim>\<open>send\<close>: the session pointer is not checked.\<close>

definition fb_send :: "('p, topic) protocol_ops \<Rightarrow> bool \<Rightarrow> ('o, 'f) flatbuffers \<Rightarrow> ('p, 'cb, 'f) fb_world
    \<Rightarrow> nat \<Rightarrow> topic \<Rightarrow> 'o \<Rightarrow> bool \<Rightarrow> (('p, 'cb, 'f) fb_world \<times> bool) res" where
  "fb_send P nd F w se pic obj encrypt =
     (if se = 0 then Inl Undefined
      else (case fb_sessions w se of
         None \<Rightarrow> Inl Undefined
       | Some s \<Rightarrow> bind_res (session_send P nd s pic (fb_pack F obj) encrypt) (\<lambda>(s', out, ok).
           Inr (w\<lparr>fb_sessions := (fb_sessions w)(se \<mapsto> s'), fb_sent := fb_sent w @ map (Pair se) out\<rparr>, ok))))"

text \<open>The member \<^verbatim>\<open>send\<close>, through the session of the pulse.\<close>

definition fb_pulse_send :: "('p, topic) protocol_ops \<Rightarrow> bool \<Rightarrow> ('o, 'f) flatbuffers \<Rightarrow> ('p, 'cb, 'f) fb_world
    \<Rightarrow> nat \<Rightarrow> topic \<Rightarrow> 'o \<Rightarrow> bool \<Rightarrow> (('p, 'cb, 'f) fb_world \<times> bool) res" where
  "fb_pulse_send P nd F w a pic obj encrypt = deref (fb_pulses w) a (\<lambda>p.
     play_check nd (pu_session p \<noteq> 0) (fb_send P nd F w (pu_session p) pic obj encrypt))"

definition fb_call :: "('p, topic) protocol_ops \<Rightarrow> bool \<Rightarrow> ('o, 'f) flatbuffers \<Rightarrow> ('p, 'cb, 'f) fb_world
    \<Rightarrow> nat \<Rightarrow> topic \<Rightarrow> topic \<Rightarrow> 'o \<Rightarrow> 'cb \<Rightarrow> bool \<Rightarrow> ('p, 'cb, 'f) fb_world res" where
  "fb_call P nd F w a req res obj cb encrypt = deref (fb_pulses w) a (\<lambda>p.
     play_check nd (pu_session p \<noteq> 0)
      (bind_res (fb_send P nd F w (pu_session p) req obj encrypt) (\<lambda>(w', ok).
         if ok then bind_res (pulse_call nd (fb_pulses w') a req res cb) (\<lambda>pw. Inr (w'\<lparr>fb_pulses := pw\<rparr>))
         else Inr (w'\<lparr>fb_called := fb_called w' @ [cb]\<rparr>))))"

text \<open>The overload without a reply topic.\<close>

definition fb_call_no_reply :: "('p, topic) protocol_ops \<Rightarrow> bool \<Rightarrow> ('o, 'f) flatbuffers \<Rightarrow> ('p, 'cb, 'f) fb_world
    \<Rightarrow> nat \<Rightarrow> topic \<Rightarrow> 'o \<Rightarrow> 'cb \<Rightarrow> bool \<Rightarrow> ('p, 'cb, 'f) fb_world res" where
  "fb_call_no_reply P nd F w a req obj cb encrypt = deref (fb_pulses w) a (\<lambda>p.
     play_check nd (pu_session p \<noteq> 0)
      (bind_res (fb_send P nd F w (pu_session p) req obj encrypt) (\<lambda>(w', ok).
         if ok then Inr w' else Inr (w'\<lparr>fb_called := fb_called w' @ [cb]\<rparr>))))"

section \<open>Lemmas\<close>

lemma unpack_packed: "fb_roundtrip F \<Longrightarrow> unpack_fn F (fb_pack F x) = Some x"
  by (simp add: fb_roundtrip_def unpack_fn_def)

lemma session_send_closed_false:
  "\<not> se_open s \<Longrightarrow> session_send P nd s pic data enc = Inr (s, [], False)"
  by (simp add: session_send_def)

section \<open>Properties\<close>

text \<open>
  The registry keeps the first unpacker of a topic, whatever is registered later, and an
  object packed for a registered topic unpacks to itself.
\<close>

theorem first_unpacker_wins:
  assumes "fb_roundtrip F" and "u pic = None"
  shows "fb_unpack_frame (add_unpacker (add_unpacker u pic (unpack_fn F)) pic other) pic (fb_pack F x) = Some x \<and>
    (pic' \<noteq> pic \<longrightarrow> add_unpacker (add_unpacker u pic (unpack_fn F)) pic other pic' = u pic')"
  using assms by (simp add: fb_unpack_frame_def add_unpacker_def unpack_packed)

definition toy_flatbuffers :: "(byte, byte) flatbuffers" where
  "toy_flatbuffers = \<lparr>fb_pack = (\<lambda>x. [x, x]), fb_verify = (\<lambda>d. length d = 2), fb_unpack = hd\<rparr>"

lemma toy_flatbuffers_ok: "fb_roundtrip toy_flatbuffers"
  by (simp add: fb_roundtrip_def toy_flatbuffers_def)

theorem first_unpacker_wins_witness:
  "fb_unpack_frame (add_unpacker (add_unpacker Map.empty 11 (unpack_fn toy_flatbuffers)) 11 (\<lambda>_. None)) 11 [9, 9] = Some 9"
  using first_unpacker_wins [OF toy_flatbuffers_ok, of Map.empty 11 "\<lambda>_. None" 9 12]
  by (simp add: toy_flatbuffers_def)

text \<open>
  Sending or calling through a pulse that has no session never works: it fails a check, or
  dereferences the null session in a build without assertions.
\<close>

theorem send_without_session_faults:
  assumes "pw_pulse (fb_pulses w) a = Some p" and "a \<noteq> 0" and "pu_session p = 0"
  shows "fb_pulse_send P nd F w a pic obj enc = Inl (if nd then Undefined else Check_failed) \<and>
    fb_call P nd F w a pic res obj cb enc = Inl (if nd then Undefined else Check_failed)"
  using assms by (simp add: fb_pulse_send_def fb_call_def fb_send_def play_check_def)

theorem send_without_session_faults_witness:
  "fb_pulse_send plain_ops False toy_flatbuffers \<lparr>fb_pulses = demo_world (demo_child\<lparr>pu_session := 0\<rparr>), fb_sessions = Map.empty,
     fb_sent = [], fb_called = []\<rparr> 2 11 9 False = Inl Check_failed"
  using send_without_session_faults [of "\<lparr>fb_pulses = demo_world (demo_child\<lparr>pu_session := 0\<rparr>), fb_sessions = Map.empty,
     fb_sent = [], fb_called = []\<rparr>" 2 "demo_child\<lparr>pu_session := 0\<rparr>" plain_ops False toy_flatbuffers 11 9 False]
  by (simp add: demo_world_def)

text \<open>
  A call over a session that is closed does not wait: its callback is called at once, exactly
  once, and nothing is left outstanding.
\<close>

theorem call_on_closed_session:
  assumes "pw_pulse (fb_pulses w) a = Some p" and "a \<noteq> 0" and "pu_session p \<noteq> 0"
    and "fb_sessions w (pu_session p) = Some s" and "\<not> se_open s"
  shows "\<exists>w'. fb_call P nd F w a req res obj cb enc = Inr w' \<and> fb_called w' = fb_called w @ [cb] \<and>
    fb_pulses w' = fb_pulses w \<and> fb_sent w' = fb_sent w"
  using assms by (simp add: fb_call_def fb_send_def session_send_closed_false)

theorem call_on_closed_session_witness:
  "\<exists>w'. fb_call plain_ops False toy_flatbuffers \<lparr>fb_pulses = demo_world demo_child, fb_sessions = [40 \<mapsto> session_create False],
      fb_sent = [], fb_called = []\<rparr> 2 11 12 9 5 False = Inr w' \<and> fb_called w' = [5]"
  using call_on_closed_session [of "\<lparr>fb_pulses = demo_world demo_child, fb_sessions = [40 \<mapsto> session_create False],
      fb_sent = [], fb_called = []\<rparr>" 2 demo_child "session_create False" plain_ops False toy_flatbuffers 11 12 9 5 False]
  by (auto simp: demo_world_def demo_child_def pulse_default_def session_create_def)

end
