(* ===== verification/End_To_End.thy ===== *)
theory End_To_End
  imports Server Pulse_Delivery Pulse_Fb
begin

text \<open>
  Objects from one process to the handlers of another: \<^verbatim>\<open>pulse_fb::send\<close> packs an object
  and hands it to a secure session, the peer's server passes the frames of its session to the
  pulse bound to it, the pulse unpacks them and posts them to the subscribers. The theories of
  the parts carry the proof; what is added here is the run of a session under
  \<^verbatim>\<open>pulse_fb\<close> and the pulse listening to a sequence of frames.
\<close>

section \<open>Definitions\<close>

text \<open>Sending through \<^verbatim>\<open>pulse_fb\<close>, with sends completing in between.\<close>

datatype 'o fb_event = Fb_send topic 'o bool | Fb_sent nat nat

fun fb_step :: "('p, topic) protocol_ops \<Rightarrow> bool \<Rightarrow> ('o, 'f) flatbuffers \<Rightarrow> nat \<Rightarrow> ('p, 'cb, 'f) fb_world \<Rightarrow> 'o fb_event
    \<Rightarrow> ('p, 'cb, 'f) fb_world res" where
  "fb_step P nd F se w (Fb_send t obj enc) = bind_res (fb_send P nd F w se t obj enc) (\<lambda>(w', _). Inr w')"
| "fb_step P nd F se w (Fb_sent ec len) =
     (case fb_sessions w se of
        None \<Rightarrow> Inl Undefined
      | Some s \<Rightarrow> bind_res (handle_send P nd s ec len) (\<lambda>(s', out).
          Inr (w\<lparr>fb_sessions := (fb_sessions w)(se \<mapsto> s'), fb_sent := fb_sent w @ map (Pair se) out\<rparr>)))"

fun session_event_of :: "('o, 'f) flatbuffers \<Rightarrow> 'o fb_event \<Rightarrow> topic session_event" where
  "session_event_of F (Fb_send t obj enc) = Ev_send t (fb_pack F obj) enc"
| "session_event_of F (Fb_sent ec len) = Ev_sent ec len"

fun sent_objects :: "'o fb_event list \<Rightarrow> (topic \<times> 'o) list" where
  "sent_objects [] = []"
| "sent_objects (Fb_send t obj enc # es) = (t, obj) # sent_objects es"
| "sent_objects (_ # es) = sent_objects es"

text \<open>The pulse hears frames one after the other.\<close>

definition hear_frames :: "bool \<Rightarrow> 'f unpackers \<Rightarrow> nat \<Rightarrow> nat \<Rightarrow> ('cb, 'f) world \<Rightarrow> (topic \<times> bytes) list \<Rightarrow> ('cb, 'f) world res" where
  "hear_frames nd U r se w frames = fold_res (\<lambda>w (t, d). pulse_on_receive nd (fb_unpack_frame U) w r se t d) w frames"

text \<open>What publishing a frame posts, as in \<open>Pulse_Delivery\<close>: the frame to every subscriber and to nobody else.\<close>

definition posts_to_subscribers :: "bool \<Rightarrow> ('cb, 'f) world \<Rightarrow> nat \<Rightarrow> nat \<Rightarrow> topic \<Rightarrow> 'f option \<Rightarrow> ('cb, 'f) post list \<Rightarrow> bool" where
  "posts_to_subscribers nd w r se t f ps \<longleftrightarrow> (\<exists>q. pw_pulse w r = Some q \<and>
     (\<forall>rn st cb s g. Post_receive rn st cb s g \<in> set ps \<longleftrightarrow> g = f \<and> (\<exists>k. (k = 0 \<or> k = se) \<and>
       ((s = se \<and> get_runner nd w r = Inr rn \<and> st = pu_strand q \<and> (k, cb) \<in> set (subscribers q t)) \<or>
        (s = k \<and> (\<exists>c pc. c \<in> set (interested q k t) \<and> pw_pulse w c = Some pc \<and> get_runner nd w c = Inr rn \<and>
            st = pu_strand pc \<and> (k, cb) \<in> set (subscribers pc t)))))))"

section \<open>Lemmas\<close>

lemma fb_run_session:
  assumes "fold_res (fb_step P nd F se) w es = Inr w'" and "se \<noteq> 0" and "fb_sessions w se = Some s"
  shows "\<exists>s' out. session_run P nd s (map (session_event_of F) es) = Inr (s', out) \<and> fb_sessions w' se = Some s' \<and>
    fb_sent w' = fb_sent w @ map (Pair se) out"
  using assms
proof (induction es arbitrary: w s)
  case (Cons e es)
  obtain w1 where w1: "fb_step P nd F se w e = Inr w1" "fold_res (fb_step P nd F se) w1 es = Inr w'"
    using Cons.prems(1) by (auto simp: bind_res_eq_Inr)
  have "\<exists>s1 o1. session_step P nd s (session_event_of F e) = Inr (s1, o1) \<and> fb_sessions w1 se = Some s1 \<and>
      fb_sent w1 = fb_sent w @ map (Pair se) o1"
    using w1(1) Cons.prems(2,3) by (cases e) (auto simp: fb_send_def bind_res_eq_Inr)
  then obtain s1 o1 where s1: "session_step P nd s (session_event_of F e) = Inr (s1, o1)" "fb_sessions w1 se = Some s1"
    "fb_sent w1 = fb_sent w @ map (Pair se) o1" by blast
  obtain s' out where "session_run P nd s1 (map (session_event_of F) es) = Inr (s', out)" "fb_sessions w' se = Some s'"
    "fb_sent w' = fb_sent w1 @ map (Pair se) out" using Cons.IH [OF w1(2) Cons.prems(2) s1(2)] by blast
  then show ?case using s1 by (auto simp: then_do_eq_Inr)
qed simp

lemma sent_messages_objects: "sent_messages (map (session_event_of F) es) = map (\<lambda>(t, obj). (t, fb_pack F obj)) (sent_objects es)"
  by (induction es rule: sent_objects.induct) simp_all

lemma get_runner_posts [simp]: "get_runner nd (w\<lparr>pw_posts := ps\<rparr>) a = get_runner nd w a"
proof -
  have "get_runner_n nd (w\<lparr>pw_posts := ps\<rparr>) n a = get_runner_n nd w n a" for n
    by (induction n arbitrary: a) (simp_all add: deref_def split: option.split)
  then show ?thesis by (simp add: get_runner_def)
qed

lemma posts_to_subscribers_posts [simp]:
  "posts_to_subscribers nd (w\<lparr>pw_posts := qs\<rparr>) r se t f ps = posts_to_subscribers nd w r se t f ps"
  by (simp add: posts_to_subscribers_def)

lemma hear_frame:
  assumes "pulses_ok w" and "pw_pulse w r = Some q" and "pu_parent q = 0" and "U t = Some (unpack_fn F)" and "fb_roundtrip F"
    and "t \<noteq> topic_established" and "t \<noteq> topic_closed"
  shows "\<exists>ps. pulse_on_receive nd (fb_unpack_frame U) w r se t (fb_pack F obj) = Inr (w\<lparr>pw_posts := pw_posts w @ ps\<rparr>) \<and>
    posts_to_subscribers nd w r se t (Some obj) ps"
proof -
  obtain n where n: "pw_next w = Suc (Suc n)" using fuel_two [OF assms(1,2)] by blast
  obtain ps where ps: "dispatch_n nd w (Suc (Suc n)) r se t (Some obj) False = Inr ps"
    using dispatch_n_total [OF assms(1,2)] by blast
  have "pulse_on_receive nd (fb_unpack_frame U) w r se t (fb_pack F obj) = Inr (w\<lparr>pw_posts := pw_posts w @ ps\<rparr>)"
    using ps assms(4-7) by (simp add: pulse_on_receive_def fb_unpack_frame_def unpack_packed dispatch_def n del: dispatch_n.simps)
  then show ?thesis using dispatch_root_posts [OF assms(1-3) ps] assms(2) by (auto simp: posts_to_subscribers_def)
qed

lemma hear_objects:
  assumes "pulses_ok w" and "pw_pulse w r = Some q" and "pu_parent q = 0" and "fb_roundtrip F"
    and "\<And>t obj. (t, obj) \<in> set objs \<Longrightarrow> U t = Some (unpack_fn F) \<and> t \<noteq> topic_established \<and> t \<noteq> topic_closed"
  shows "\<exists>pss. hear_frames nd U r se w (map (\<lambda>(t, obj). (t, fb_pack F obj)) objs) = Inr (w\<lparr>pw_posts := pw_posts w @ concat pss\<rparr>) \<and>
    list_all2 (\<lambda>(t, obj) ps. posts_to_subscribers nd w r se t (Some obj) ps) objs pss"
  using assms
proof (induction objs arbitrary: w)
  case Nil
  then show ?case by (auto simp: hear_frames_def)
next
  case (Cons x objs)
  obtain t obj where x: "x = (t, obj)" by (cases x)
  obtain ps where ps: "pulse_on_receive nd (fb_unpack_frame U) w r se t (fb_pack F obj) = Inr (w\<lparr>pw_posts := pw_posts w @ ps\<rparr>)"
    "posts_to_subscribers nd w r se t (Some obj) ps"
    using hear_frame [OF Cons.prems(1-3) _ Cons.prems(4), of U t nd se obj] Cons.prems(5) [of t obj] x by auto
  let ?w = "w\<lparr>pw_posts := pw_posts w @ ps\<rparr>"
  obtain pss where "hear_frames nd U r se ?w (map (\<lambda>(t, obj). (t, fb_pack F obj)) objs) = Inr (?w\<lparr>pw_posts := pw_posts ?w @ concat pss\<rparr>)"
    "list_all2 (\<lambda>(t, obj) ps. posts_to_subscribers nd ?w r se t (Some obj) ps) objs pss"
    using Cons.IH [of ?w] Cons.prems by auto
  then have "hear_frames nd U r se w (map (\<lambda>(t, obj). (t, fb_pack F obj)) (x # objs)) = Inr (w\<lparr>pw_posts := pw_posts w @ concat (ps # pss)\<rparr>)"
    "list_all2 (\<lambda>(t, obj) ps. posts_to_subscribers nd w r se t (Some obj) ps) (x # objs) (ps # pss)"
    using x ps by (simp_all add: hear_frames_def)
  then show ?case by blast
qed

lemma secure_frames_reach_pulse:
  fixes x :: "secure_protocol session"
  assumes "xor_involutive S" and "idle_open s p" and "secure_sync p q"
    and "se_protocol x = Some q" and "secure_is_established q" and "se_recv_buf x = []"
    and "list_all (sender_event (secure_ops S rnd) secure_sendable) es" and "full_sends (secure_ops S rnd) nd s es"
    and "session_run (secure_ops S rnd :: (secure_protocol, topic) protocol_ops) nd s es = Inr (s', out)"
    and "acc_buf s' = []" and "chunks \<noteq> []" and "concat chunks = sent_bytes out"
    and "sv_store sv a = Some x" and "sv_pulse sv \<noteq> 0"
  shows "\<exists>sv' out'. server_sessions_run (secure_ops S rnd) nd sv a (map (Ev_recv 0) chunks) = Inr (sv', out') \<and>
    pulse_frames a out' = sent_messages es"
proof -
  have "op_is_established (secure_ops S rnd :: (secure_protocol, topic) protocol_ops) q" using assms(5) by (simp add: secure_ops_def)
  then obtain r' out' where run: "session_run (secure_ops S rnd) nd x (map (Ev_recv 0) chunks) = Inr (r', out')"
    and del: "delivered out' = sent_messages es"
    using framed_transport.end_to_end [OF secure_transport [OF assms(1)] assms(2-4) _ assms(6-12)] by auto
  show ?thesis using server_sessions_run_session [OF run assms(13,14)] del pulse_frames_reports by fastforce
qed

section \<open>A small world\<close>

text \<open>
  For the witness: objects are numbers, packed in unary; the root of the pulses subscribes to
  one topic.
\<close>

definition unary_flatbuffers :: "(nat, nat) flatbuffers" where
  "unary_flatbuffers = \<lparr>fb_pack = (\<lambda>n. 1 # replicate n 1), fb_verify = (\<lambda>d. d \<noteq> []), fb_unpack = (\<lambda>d. length d - 1)\<rparr>"

lemma unary_flatbuffers_ok: "fb_roundtrip unary_flatbuffers"
  by (simp add: fb_roundtrip_def unary_flatbuffers_def)

lemma demo_listener:
  "\<exists>(w :: (nat, nat) world) q. orderly_reachable False w \<and> pw_pulse w 1 = Some q \<and> pu_parent q = 0 \<and>
     subscribers q 201 = [(0, User_cb 8)] \<and> pu_strand q = 0 \<and> get_runner False w 1 = Inr 7"
proof -
  obtain w :: "(nat, nat) world" where w: "orderly_reachable False w"
    "pw_pulse w 1 = Some (pulse_default\<lparr>pu_mode := Mode_independent, pu_runner := 7, pu_childs := [2]\<rparr>)" "pw_next w = 4"
    using demo_orderly by blast
  let ?q = "pulse_default\<lparr>pu_mode := Mode_independent, pu_runner := 7, pu_childs := [2], pu_subscriptions := [201 \<mapsto> [(0, User_cb 8)]]\<rparr>"
  have sub: "pulse_subscribe False w 1 201 (User_cb 8) = Inr (put w 1 ?q)"
    using w(2) by (simp add: pulse_subscribe_def pulse_default_def is_root_def Let_def)
  then have "orderly_reachable False (put w 1 ?q)"
    using w(2) orderly_reachable.step [OF w(1), of "Op_subscribe 1 201 8"] by (simp add: has_mode_def pulse_default_def)
  moreover have "get_runner False (put w 1 ?q) 1 = Inr 7" using w(3) by (simp add: get_runner_def deref_def put_def numeral_eq_Suc)
  ultimately show ?thesis by (intro exI [of _ "put w 1 ?q"] exI [of _ ?q]) (simp add: pulse_default_def subscribers_def)
qed

definition demo_sender :: "(secure_protocol, nat, nat) fb_world" where
  "demo_sender = \<lparr>fb_pulses = world_empty, fb_sessions = [40 \<mapsto> demo_session demo_secure], fb_sent = [], fb_called = []\<rparr>"

lemma demo_sends:
  "\<exists>w' s'. fold_res (fb_step (secure_ops toy_sodium id) False unary_flatbuffers 40) demo_sender [Fb_send 201 0 True, Fb_sent 0 8] = Inr w' \<and>
     fb_sessions w' 40 = Some s' \<and> acc_buf s' = [] \<and> concat [[201, 0, 1, 1, 0], [0, 0, 91]] = sent_bytes (map snd (fb_sent w')) \<and>
     map (session_event_of unary_flatbuffers) [Fb_send 201 0 True, Fb_sent 0 8] = demo_secure_traffic"
  by (simp add: demo_sender_def demo_session_def session_create_def demo_secure_def demo_handshake_def unary_flatbuffers_def
      demo_secure_traffic_def secure_ops_def max_send_size_def session_send_def secure_encode_def fb_send_def
      secure_is_established_def secure_header_def serialize_bool_def cipher_encode_buf_def toy_sodium_def
      sizeof_word_def enc_field_size_def length_field_size_def inc_tx_nonce_def start_send_def
      handle_send_def Let_def)

end
