(* ===== verification/App.thy ===== *)
theory App
  imports Pulse_Fb
begin

text \<open>
  \<^verbatim>\<open>play/app\<close>: actors and their acts, the services of an app, the container that
  finds actors by id, name, session and uuid, and the set of sessions an app broadcasts to.
  \<^verbatim>\<open>std::type_index\<close> keys are of a type \<open>'k\<close>. The template parameters
  \<^verbatim>\<open>HasName\<close>, \<^verbatim>\<open>HasSession\<close>, \<^verbatim>\<open>HasUuid\<close> of
  \<^verbatim>\<open>actor_container\<close> are the flags of \<open>container_config\<close>. Iterators into
  \<^verbatim>\<open>actors_\<close> are the key they point at, \<^const>\<open>None\<close> for \<^verbatim>\<open>end()\<close>.
\<close>

section \<open>Acts of an actor, services of an app\<close>

record ('k, 'a) actor =
  ac_id :: nat
  ac_acts :: "'k \<rightharpoonup> 'a"

definition actor_create :: "nat \<Rightarrow> ('k, 'a) actor" where
  "actor_create next_id = \<lparr>ac_id = next_id, ac_acts = Map.empty\<rparr>"

definition create_act :: "('k, 'a) actor \<Rightarrow> 'k \<Rightarrow> 'a \<Rightarrow> ('k, 'a) actor \<times> bool" where
  "create_act x k a = (case ac_acts x k of
     Some _ \<Rightarrow> (x, False) | None \<Rightarrow> (x\<lparr>ac_acts := (ac_acts x)(k \<mapsto> a)\<rparr>, True))"

definition get_act :: "('k, 'a) actor \<Rightarrow> 'k \<Rightarrow> 'a option" where
  "get_act x k = (case ac_acts x k of None \<Rightarrow> None | Some a \<Rightarrow> Some a)"

definition has_act :: "('k, 'a) actor \<Rightarrow> 'k \<Rightarrow> bool" where
  "has_act x k \<longleftrightarrow> ac_acts x k \<noteq> None"

text \<open>
  The base destructor calls \<^verbatim>\<open>stop()\<close>, which calls the pure virtual
  \<^verbatim>\<open>on_stop()\<close> after the derived object is gone.
\<close>

definition actor_destroy :: "('k, 'a) actor \<Rightarrow> unit res" where
  "actor_destroy x = Inl Undefined"

type_synonym ('k, 's) app_services = "('k::linorder \<times> 's) list"

definition create_service :: "('k::linorder, 's) app_services \<Rightarrow> 'k \<Rightarrow> 's \<Rightarrow> ('k, 's) app_services \<times> bool" where
  "create_service m k s = (omap_insert k s m, map_of m k = None)"

definition get_service :: "('k::linorder, 's) app_services \<Rightarrow> 'k \<Rightarrow> 's option" where
  "get_service m k = map_of m k"

definition app_for_each :: "('w \<Rightarrow> 's \<Rightarrow> 'w res) \<Rightarrow> 'w \<Rightarrow> ('k::linorder, 's) app_services \<Rightarrow> 'w res" where
  "app_for_each fn w m = fold_res fn w (map snd m)"

section \<open>Index\<close>

text \<open>An index maps a key to the key of the container; \<open>find\<close> gives the container's key.\<close>

definition index_link :: "('i \<rightharpoonup> 'k) \<Rightarrow> 'i \<Rightarrow> 'k \<Rightarrow> ('i \<rightharpoonup> 'k)" where
  "index_link ix i k = (case ix i of None \<Rightarrow> ix(i \<mapsto> k) | Some _ \<Rightarrow> ix)"

definition index_unlink :: "('i \<rightharpoonup> 'k) \<Rightarrow> 'i \<Rightarrow> ('i \<rightharpoonup> 'k)" where
  "index_unlink ix i = ix(i := None)"

definition index_find :: "('k \<rightharpoonup> 'v) \<Rightarrow> ('i \<rightharpoonup> 'k) \<Rightarrow> 'i \<Rightarrow> 'k option" where
  "index_find c ix i = (case ix i of None \<Rightarrow> None | Some k \<Rightarrow> if c k = None then None else Some k)"

section \<open>Actor container\<close>

record container_config =
  has_name :: bool
  has_session :: bool
  has_uuid :: bool

record 'u actor_info =
  ai_id :: nat
  ai_name :: string
  ai_session_key :: nat
  ai_uuid :: 'u

record 'u actor_container =
  co_actors :: "nat \<rightharpoonup> 'u actor_info"
  co_names :: "string \<rightharpoonup> nat"
  co_sessions :: "nat \<rightharpoonup> nat"
  co_uuids :: "'u \<rightharpoonup> nat"

datatype 'u container_key = By_id nat | By_name string | By_session nat | By_uuid 'u

definition container_create :: "'u actor_container" where
  "container_create = \<lparr>co_actors = Map.empty, co_names = Map.empty, co_sessions = Map.empty, co_uuids = Map.empty\<rparr>"

definition container_add :: "container_config \<Rightarrow> 'u actor_container \<Rightarrow> 'u actor_info \<Rightarrow> 'u actor_container \<times> bool" where
  "container_add cfg c a =
     (case co_actors c (ai_id a) of
        Some _ \<Rightarrow> (c, False)
      | None \<Rightarrow>
          (c\<lparr>co_actors := (co_actors c)(ai_id a \<mapsto> a),
             co_names := (if has_name cfg then index_link (co_names c) (ai_name a) (ai_id a) else co_names c),
             co_sessions := (if has_session cfg then index_link (co_sessions c) (ai_session_key a) (ai_id a) else co_sessions c),
             co_uuids := (if has_uuid cfg then index_link (co_uuids c) (ai_uuid a) (ai_id a) else co_uuids c)\<rparr>, True))"

fun container_iter :: "'u actor_container \<Rightarrow> 'u container_key \<Rightarrow> nat option" where
  "container_iter c (By_id i) = (if co_actors c i = None then None else Some i)"
| "container_iter c (By_name n) = index_find (co_actors c) (co_names c) n"
| "container_iter c (By_session s) = index_find (co_actors c) (co_sessions c) s"
| "container_iter c (By_uuid u) = index_find (co_actors c) (co_uuids c) u"

definition container_find :: "'u actor_container \<Rightarrow> 'u container_key \<Rightarrow> 'u actor_info option" where
  "container_find c key = (case container_iter c key of None \<Rightarrow> None | Some i \<Rightarrow> co_actors c i)"

text \<open>
  \<^verbatim>\<open>del\<close> erases the iterator and then reads the actor through it for every index the
  container has.
\<close>

definition container_del :: "container_config \<Rightarrow> 'u actor_container \<Rightarrow> 'u container_key \<Rightarrow> 'u actor_container res" where
  "container_del cfg c key =
     (case container_iter c key of
        None \<Rightarrow> Inr c
      | Some i \<Rightarrow>
          if has_name cfg \<or> has_session cfg \<or> has_uuid cfg then Inl Undefined
          else Inr (c\<lparr>co_actors := (co_actors c)(i := None)\<rparr>))"

text \<open>
  \<^verbatim>\<open>size()\<close>, and the ids in the order \<^verbatim>\<open>for_each\<close> visits the actors (a
  \<^verbatim>\<open>std::map\<close> by id).
\<close>

definition container_size :: "'u actor_container \<Rightarrow> nat" where
  "container_size c = card (dom (co_actors c))"

definition container_ids :: "'u actor_container \<Rightarrow> nat list" where
  "container_ids c = sorted_list_of_set (dom (co_actors c))"

text \<open>An index is right when every entry leads to an actor with that key.\<close>

definition index_ok :: "(nat \<rightharpoonup> 'u actor_info) \<Rightarrow> ('i \<rightharpoonup> nat) \<Rightarrow> ('u actor_info \<Rightarrow> 'i) \<Rightarrow> bool" where
  "index_ok actors ix f \<longleftrightarrow> (\<forall>k i. ix k = Some i \<longrightarrow> (\<exists>a. actors i = Some a \<and> f a = k))"

definition container_ok :: "'u actor_container \<Rightarrow> bool" where
  "container_ok c \<longleftrightarrow> (\<forall>i a. co_actors c i = Some a \<longrightarrow> ai_id a = i) \<and>
     index_ok (co_actors c) (co_names c) ai_name \<and> index_ok (co_actors c) (co_sessions c) ai_session_key \<and>
     index_ok (co_actors c) (co_uuids c) ai_uuid"

fun key_matches :: "'u container_key \<Rightarrow> 'u actor_info \<Rightarrow> bool" where
  "key_matches (By_id i) a \<longleftrightarrow> ai_id a = i"
| "key_matches (By_name n) a \<longleftrightarrow> ai_name a = n"
| "key_matches (By_session s) a \<longleftrightarrow> ai_session_key a = s"
| "key_matches (By_uuid u) a \<longleftrightarrow> ai_uuid a = u"

fun key_indexed :: "container_config \<Rightarrow> 'u container_key \<Rightarrow> bool" where
  "key_indexed cfg (By_id i) \<longleftrightarrow> True"
| "key_indexed cfg (By_name n) \<longleftrightarrow> has_name cfg"
| "key_indexed cfg (By_session s) \<longleftrightarrow> has_session cfg"
| "key_indexed cfg (By_uuid u) \<longleftrightarrow> has_uuid cfg"

section \<open>Session container\<close>

record session_container =
  sc_pulse :: nat
  sc_sessions :: "nat list"

definition sc_bind :: "bool \<Rightarrow> session_container \<Rightarrow> nat \<Rightarrow> session_container res" where
  "sc_bind nd sc pulse = play_check nd (pulse \<noteq> 0) (Inr (sc\<lparr>sc_pulse := pulse\<rparr>))"

definition sc_add :: "session_container \<Rightarrow> nat \<Rightarrow> session_container \<times> bool" where
  "sc_add sc se = (sc\<lparr>sc_sessions := oset_insert se (sc_sessions sc)\<rparr>, se \<notin> set (sc_sessions sc))"

definition sc_del :: "session_container \<Rightarrow> nat \<Rightarrow> session_container" where
  "sc_del sc se = sc\<lparr>sc_sessions := oset_erase se (sc_sessions sc)\<rparr>"

text \<open>\<^verbatim>\<open>result && send(...)\<close>: after a failure the rest is not sent.\<close>

fun sc_send_all :: "('w \<Rightarrow> nat \<Rightarrow> ('w \<times> bool) res) \<Rightarrow> 'w \<Rightarrow> bool \<Rightarrow> nat list \<Rightarrow> ('w \<times> bool) res" where
  "sc_send_all send w result [] = Inr (w, result)"
| "sc_send_all send w result (se # ss) =
     (if result then bind_res (send w se) (\<lambda>(w', ok). sc_send_all send w' ok ss)
      else sc_send_all send w False ss)"

definition sc_send :: "('p, topic) protocol_ops \<Rightarrow> bool \<Rightarrow> ('o, 'f) flatbuffers \<Rightarrow> ('p, 'cb, 'f) fb_world
    \<Rightarrow> session_container \<Rightarrow> topic \<Rightarrow> 'o \<Rightarrow> bool \<Rightarrow> (('p, 'cb, 'f) fb_world \<times> bool) res" where
  "sc_send P nd F w sc pic obj encrypt =
     sc_send_all (\<lambda>w se. fb_send P nd F w se pic obj encrypt) w True (sc_sessions sc)"

section \<open>Lemmas\<close>

lemma container_ok_create: "container_ok container_create"
  by (simp add: container_ok_def container_create_def index_ok_def)

lemma index_ok_upd: "index_ok actors ix f \<Longrightarrow> actors j = None \<Longrightarrow> index_ok (actors(j \<mapsto> a)) ix f"
  by (fastforce simp: index_ok_def)

lemma index_ok_link: "index_ok actors ix f \<Longrightarrow> actors j = None \<Longrightarrow> index_ok (actors(j \<mapsto> a)) (index_link ix (f a) j) f"
  by (fastforce simp: index_ok_def index_link_def split: option.splits)

lemma index_ok_find: "index_ok actors ix f \<Longrightarrow> index_find actors ix k = Some i \<Longrightarrow> actors i = Some x \<Longrightarrow> f x = k"
  by (fastforce simp: index_ok_def index_find_def split: option.splits if_splits)

lemma container_add_ok:
  assumes "container_ok c" and "container_add cfg c a = (c', b)"
  shows "container_ok c'"
proof (cases "co_actors c (ai_id a)")
  case None
  with assms show ?thesis
    by (auto simp: container_ok_def container_add_def index_ok_upd index_ok_link split: if_splits)
qed (use assms in \<open>auto simp: container_add_def\<close>)

lemma sc_send_all_append:
  "sc_send_all send w r (xs @ ys) = bind_res (sc_send_all send w r xs) (\<lambda>(w', r'). sc_send_all send w' r' ys)"
  by (induction xs arbitrary: w r) (auto simp: bind_res_def split: sum.split)

lemma sc_send_all_stopped: "sc_send_all send w False ss = Inr (w, False)"
  by (induction ss) simp_all

section \<open>Properties\<close>

text \<open>
  C23. Whatever is added, a find by id, name, session or uuid gives an actor that has that key; an
  actor just added is found by its id, and by its other keys when they were free; adding a
  second actor with an id in use changes nothing.
\<close>

theorem container_find_correct:
  assumes "fst (foldl (\<lambda>(c, b) a. container_add cfg c a) (container_create, True) as) = c"
    and "container_add cfg c a = (c', added)"
  shows "(container_find c key = Some x \<longrightarrow> key_matches key x) \<and>
    (added \<longleftrightarrow> co_actors c (ai_id a) = None) \<and> (\<not> added \<longrightarrow> c' = c) \<and>
    (added \<longrightarrow> key_matches key a \<longrightarrow> key_indexed cfg key \<longrightarrow> container_iter c key = None \<longrightarrow>
      (\<forall>n. key = By_name n \<longrightarrow> co_names c n = None) \<longrightarrow> (\<forall>s. key = By_session s \<longrightarrow> co_sessions c s = None) \<longrightarrow>
      (\<forall>u. key = By_uuid u \<longrightarrow> co_uuids c u = None) \<longrightarrow> container_find c' key = Some a)"
proof -
  have "container_ok (fst (foldl (\<lambda>(c, b) a. container_add cfg c a) (d, b) as))" if "container_ok d" for d b
    using that
  proof (induction as arbitrary: d b)
    case (Cons y ys)
    obtain d' b' where "container_add cfg d y = (d', b')" by (metis surj_pair)
    then show ?case using Cons.IH [of d' b'] container_add_ok [OF Cons.prems] by simp
  qed simp
  then have ok: "container_ok c" using assms(1) container_ok_create by blast
  have "container_find c key = Some x \<longrightarrow> key_matches key x"
    using ok by (cases key) (auto simp: container_find_def container_ok_def dest: index_ok_find split: option.splits if_splits)
  moreover have "key_matches key a \<Longrightarrow> key_indexed cfg key \<Longrightarrow> added \<Longrightarrow>
      \<forall>n. key = By_name n \<longrightarrow> co_names c n = None \<Longrightarrow> \<forall>s. key = By_session s \<longrightarrow> co_sessions c s = None \<Longrightarrow>
      \<forall>u. key = By_uuid u \<longrightarrow> co_uuids c u = None \<Longrightarrow> container_find c' key = Some a"
    using assms(2)
    by (cases key) (auto simp: container_add_def container_find_def index_find_def index_link_def split: option.splits)
  ultimately show ?thesis using assms(2) by (auto simp: container_add_def split: option.splits)
qed

theorem container_find_correct_witness:
  "container_find (fst (container_add \<lparr>has_name = True, has_session = False, has_uuid = False\<rparr>
     container_create \<lparr>ai_id = 3, ai_name = ''bob'', ai_session_key = 0, ai_uuid = ()\<rparr>)) (By_name ''bob'')
   = Some \<lparr>ai_id = 3, ai_name = ''bob'', ai_session_key = 0, ai_uuid = ()\<rparr>"
  using container_find_correct [of "\<lparr>has_name = True, has_session = False, has_uuid = False\<rparr>" "[]" container_create
      "\<lparr>ai_id = 3, ai_name = ''bob'', ai_session_key = 0, ai_uuid = ()\<rparr>"
      "fst (container_add \<lparr>has_name = True, has_session = False, has_uuid = False\<rparr> container_create
        \<lparr>ai_id = 3, ai_name = ''bob'', ai_session_key = 0, ai_uuid = ()\<rparr>)" True "By_name ''bob''"]
  by (simp add: container_create_def container_add_def index_link_def index_find_def)

text \<open>
  Deleting an actor that is there is undefined in every container with an index: the erased
  iterator is read again.
\<close>

theorem container_del_is_undefined:
  assumes "container_find c key = Some x" and "has_name cfg \<or> has_session cfg \<or> has_uuid cfg"
  shows "container_del cfg c key = Inl Undefined"
  using assms by (auto simp: container_find_def container_del_def split: option.splits)

theorem container_del_is_undefined_witness:
  "container_del \<lparr>has_name = True, has_session = False, has_uuid = False\<rparr>
     (fst (container_add \<lparr>has_name = True, has_session = False, has_uuid = False\<rparr> container_create
       \<lparr>ai_id = 3, ai_name = ''bob'', ai_session_key = 0, ai_uuid = ()\<rparr>)) (By_id 3) = Inl Undefined"
  using container_del_is_undefined [of "fst (container_add \<lparr>has_name = True, has_session = False, has_uuid = False\<rparr>
      container_create \<lparr>ai_id = 3, ai_name = ''bob'', ai_session_key = 0, ai_uuid = ()\<rparr>)" "By_id 3"
      "\<lparr>ai_id = 3, ai_name = ''bob'', ai_session_key = 0, ai_uuid = ()\<rparr>"
      "\<lparr>has_name = True, has_session = False, has_uuid = False\<rparr>"]
  by (simp add: container_create_def container_add_def container_find_def)

text \<open>
  A broadcast stops at the first session that fails: the sessions after it, in address order,
  are left out, and the result is false.
\<close>

theorem broadcast_stops_at_failure:
  assumes "sc_sessions sc = pre @ se # post"
    and "sc_send_all (\<lambda>w se. fb_send P nd F w se pic obj enc) w True pre = Inr (w1, True)"
    and "fb_send P nd F w1 se pic obj enc = Inr (w2, False)"
  shows "sc_send P nd F w sc pic obj enc = Inr (w2, False)"
  using assms by (simp add: sc_send_def sc_send_all_append sc_send_all_stopped)

theorem broadcast_stops_at_failure_witness:
  "\<exists>w2. sc_send plain_ops False toy_flatbuffers \<lparr>fb_pulses = world_empty :: (nat, byte) world,
      fb_sessions = [40 \<mapsto> session_create False, 41 \<mapsto> session_create False], fb_sent = [], fb_called = []\<rparr>
      \<lparr>sc_pulse = 1, sc_sessions = [40, 41]\<rparr> 11 9 False = Inr (w2, False)"
proof -
  let ?w = "\<lparr>fb_pulses = world_empty :: (nat, byte) world,
      fb_sessions = [40 \<mapsto> session_create False, 41 \<mapsto> session_create False], fb_sent = [], fb_called = []\<rparr>"
  have "fb_send plain_ops False toy_flatbuffers ?w 40 11 9 False = Inr (?w, False)"
    by (simp add: fb_send_def session_send_def session_create_def fun_upd_twist)
  then show ?thesis
    using broadcast_stops_at_failure [of "\<lparr>sc_pulse = 1, sc_sessions = [40, 41]\<rparr>" "[]" 40 "[41]" plain_ops False
        toy_flatbuffers 11 9 False ?w ?w ?w] by simp
qed

end
