(* ===== verification/String_Util.thy ===== *)
theory String_Util
  imports Play_Prelude
begin

text \<open>
  \<^verbatim>\<open>play/base/string_util.hpp\<close>, \<^verbatim>\<open>play/net/util/address.*\<close> and
  \<^verbatim>\<open>logger::dump_hex\<close> of \<^verbatim>\<open>play/base/logger.cpp\<close>: splitting strings, parsing
  \<^verbatim>\<open>ip:port\<close>, printing bytes. \<^verbatim>\<open>std::string::npos\<close> is \<^const>\<open>None\<close>.
  \<^verbatim>\<open>find_first_of\<close> looks for any character of the delimiter, while the loop steps over
  the length of the delimiter.
\<close>

section \<open>Splitting\<close>

function find_first_of :: "string \<Rightarrow> string \<Rightarrow> nat \<Rightarrow> nat option" where
  "find_first_of s d pos =
     (if pos < length s then (if s ! pos \<in> set d then Some pos else find_first_of s d (Suc pos)) else None)"
  by pat_completeness auto
termination
  by (relation "measure (\<lambda>(s, d, pos). length s - pos)") auto

declare find_first_of.simps [simp del]

lemma find_first_of_Some:
  "find_first_of s d pos = Some q \<Longrightarrow> pos \<le> q \<and> q < length s \<and> s ! q \<in> set d \<and> (\<forall>i. pos \<le> i \<longrightarrow> i < q \<longrightarrow> s ! i \<notin> set d)"
proof (induction s d pos rule: find_first_of.induct)
  case (1 s d pos)
  have "pos \<le> i \<longleftrightarrow> i = pos \<or> Suc pos \<le> i" for i by auto
  then show ?case
    using 1 find_first_of.simps [of s d pos] by (auto split: if_splits)
qed

lemma find_first_of_None: "find_first_of s d pos = None \<Longrightarrow> \<forall>i. pos \<le> i \<longrightarrow> i < length s \<longrightarrow> s ! i \<notin> set d"
proof (induction s d pos rule: find_first_of.induct)
  case (1 s d pos)
  have "pos \<le> i \<longleftrightarrow> i = pos \<or> Suc pos \<le> i" for i by auto
  then show ?case
    using 1 find_first_of.simps [of s d pos] by (auto split: if_splits)
qed

lemma find_first_of_empty [simp]: "find_first_of s [] pos = None"
  using find_first_of_Some [of s "[]" pos] by (cases "find_first_of s [] pos") auto

text \<open>The loop of \<^verbatim>\<open>split\<close>, its variables the arguments, and the piece after it.\<close>

function split_loop :: "string \<Rightarrow> string \<Rightarrow> nat \<Rightarrow> nat option \<Rightarrow> string list \<Rightarrow> nat \<times> string list" where
  "split_loop s d ppos None result = (ppos, result)"
| "split_loop s d ppos (Some cpos) result =
     (let result' = (if cpos > ppos then result @ [take (cpos - ppos) (drop ppos s)] else result);
          ppos' = cpos + length d
      in split_loop s d ppos' (find_first_of s d ppos') result')"
  by pat_completeness auto
termination
proof (relation "measure (\<lambda>(s, d, ppos, cpos, result). case cpos of None \<Rightarrow> 0 | Some c \<Rightarrow> Suc (length s - c))", goal_cases)
  case (2 s d ppos cpos result x xa)
  show ?case
  proof (cases "find_first_of s d (cpos + length d)")
    case (Some q)
    then have "q < length s" "cpos + length d \<le> q" "d \<noteq> []" using find_first_of_Some [OF Some] by auto
    then show ?thesis using Some 2 by (cases d) auto
  qed (use 2 in simp)
qed simp

definition split :: "string \<Rightarrow> string \<Rightarrow> string list" where
  "split s d =
     (if s = [] then []
      else case split_loop s d 0 (find_first_of s d 0) [] of (ppos, result) \<Rightarrow>
        if ppos < length s then result @ [drop ppos s] else result)"

section \<open>Addresses\<close>

text \<open>
  \<^verbatim>\<open>std::atoi\<close>: leading white space, a sign, digits up to the first character that is
  none. A value outside the range of \<^verbatim>\<open>int\<close> is undefined.
\<close>

definition atoi :: "string \<Rightarrow> int res" where
  "atoi s =
     (let t = dropWhile (\<lambda>c. c \<in> set [CHR '' '', CHR 0x09, CHR 0x0A, CHR 0x0B, CHR 0x0C, CHR 0x0D]) s;
          neg = (case t of c # _ \<Rightarrow> c = CHR ''-'' | [] \<Rightarrow> False);
          u = (case t of c # r \<Rightarrow> if c = CHR ''-'' \<or> c = CHR ''+'' then r else t | [] \<Rightarrow> []);
          v = digits_value (takeWhile is_digit u);
          i = (if neg then - v else v)
      in if - (2 ^ 31) \<le> i \<and> i < 2 ^ 31 then Inr i else Inl Undefined)"

definition address_parse :: "string \<Rightarrow> (string \<times> 16 word) res" where
  "address_parse ip_addr =
     (let vs = split ip_addr '':'' in
      if length vs < 2 then Inr ([], 0)
      else bind_res (atoi (vs ! 1)) (\<lambda>v. Inr (vs ! 0, word_of_int v)))"

section \<open>Hex dumps\<close>

definition hex_digit :: "nat \<Rightarrow> char" where
  "hex_digit n = ''0123456789abcdef'' ! n"

text \<open>\<^verbatim>\<open>std::setw(2) << std::hex\<close>: the fill character is a space.\<close>

definition hex_byte :: "byte \<Rightarrow> string" where
  "hex_byte b = (let n = unat b in
     (if n < 16 then [CHR '' '', hex_digit n] else [hex_digit (n div 16), hex_digit (n mod 16)]) @ ''|'')"

definition dump_hex :: "bytes \<Rightarrow> string" where
  "dump_hex data = concat (map hex_byte data)"

section \<open>Lemmas: splitting at one character\<close>

text \<open>The reference: all pieces between delimiters, empty ones included.\<close>

fun split_on :: "char \<Rightarrow> string \<Rightarrow> string list" where
  "split_on c [] = [[]]"
| "split_on c (x # xs) = (if x = c then [] # split_on c xs else (x # hd (split_on c xs)) # tl (split_on c xs))"

lemma split_on_ne [simp]: "split_on c xs \<noteq> []"
  by (induction xs) auto

lemma split_on_free: "c \<notin> set xs \<Longrightarrow> split_on c xs = [xs]"
  by (induction xs) auto

lemma split_on_append: "c \<notin> set xs \<Longrightarrow> split_on c (xs @ c # ys) = xs # split_on c ys"
  by (induction xs) auto

lemma split_loop_spec:
  assumes "split_loop s [c] ppos (find_first_of s [c] ppos) result = (p, r)"
  shows "(if p < length s then r @ [drop p s] else r) = result @ filter (\<lambda>x. x \<noteq> []) (split_on c (drop ppos s))"
  using assms
proof (induction "length s - ppos" arbitrary: ppos result rule: less_induct)
  case less
  show ?case
  proof (cases "find_first_of s [c] ppos")
    case None
    then have "c \<notin> set (drop ppos s)"
      using find_first_of_None [OF None] by (auto simp: in_set_conv_nth)
    then show ?thesis using less.prems None by (auto simp: split_on_free)
  next
    case (Some q)
    then have q: "ppos \<le> q" "q < length s" "s ! q = c" and free: "\<forall>i. ppos \<le> i \<longrightarrow> i < q \<longrightarrow> s ! i \<noteq> c"
      using find_first_of_Some [OF Some] by auto
    let ?piece = "take (q - ppos) (drop ppos s)"
    have piece: "c \<notin> set ?piece" using free q by (auto simp: in_set_conv_nth)
    have "drop ppos s = ?piece @ drop (q - ppos) (drop ppos s)" by (rule append_take_drop_id [symmetric])
    also have "drop (q - ppos) (drop ppos s) = c # drop (Suc q) s"
      using q Cons_nth_drop_Suc [OF q(2)] by simp
    finally have "split_on c (drop ppos s) = ?piece # split_on c (drop (Suc q) s)"
      using split_on_append [OF piece] by metis
    moreover have "?piece = [] \<longleftrightarrow> q = ppos" using q by auto
    ultimately show ?thesis
      using less.hyps [of "Suc q" "if q > ppos then result @ [?piece] else result"] less.prems Some q
      by (auto simp: Let_def split: if_splits)
  qed
qed

lemma split_char: "split s [c] = filter (\<lambda>x. x \<noteq> []) (split_on c s)"
proof -
  obtain p r where l: "split_loop s [c] 0 (find_first_of s [c] 0) [] = (p, r)" by (metis surj_pair)
  show ?thesis using split_loop_spec [OF l] by (simp add: split_def l)
qed

text \<open>Joining pieces with a delimiter, as paths and addresses are written.\<close>

fun join :: "char \<Rightarrow> string list \<Rightarrow> string" where
  "join c [] = []"
| "join c [x] = x"
| "join c (x # y # xs) = x @ c # join c (y # xs)"

lemma split_join: "(\<And>x. x \<in> set xs \<Longrightarrow> x \<noteq> [] \<and> c \<notin> set x) \<Longrightarrow> split (join c xs) [c] = xs"
  unfolding split_char
proof (induction c xs rule: join.induct)
  case (3 c x y xs)
  then show ?case by (simp add: split_on_append)
qed (simp_all add: split_on_free)

lemma takeWhile_digits: "list_all is_digit ds \<Longrightarrow> takeWhile is_digit ds = ds"
  by (simp add: list_all_iff takeWhile_eq_all_conv)

lemma digits_value_nonneg: "list_all is_digit ds \<Longrightarrow> 0 \<le> v \<Longrightarrow> 0 \<le> foldl (\<lambda>v c. 10 * v + digit_value c) v ds"
  by (induction ds arbitrary: v) (auto simp: is_digit_def digit_value_def)

lemma atoi_digits:
  assumes "list_all is_digit ds" and "ds \<noteq> []" and "digits_value ds < 2 ^ 31"
  shows "atoi ds = Inr (digits_value ds)"
proof -
  obtain c r where c: "ds = c # r" using assms(2) by (cases ds) auto
  have "is_digit c" using assms(1) c by simp
  then have "c \<notin> set [CHR '' '', CHR 0x09, CHR 0x0A, CHR 0x0B, CHR 0x0C, CHR 0x0D]" "c \<noteq> CHR ''-''" "c \<noteq> CHR ''+''"
    by (auto simp: is_digit_def)
  then have "atoi ds = (let v = digits_value (takeWhile is_digit ds) in
      if - (2 ^ 31) \<le> v \<and> v < 2 ^ 31 then Inr v else Inl Undefined)"
    unfolding atoi_def c by (simp add: Let_def)
  then show ?thesis
    using takeWhile_digits [OF assms(1)] assms(3) digits_value_nonneg [OF assms(1), of 0]
    by (simp add: Let_def digits_value_def)
qed

lemma hex_digit_inj: "n < 16 \<Longrightarrow> m < 16 \<Longrightarrow> hex_digit n = hex_digit m \<Longrightarrow> n = m"
  by (auto simp: hex_digit_def numeral_eq_Suc less_Suc_eq)

lemma hex_digit_not_space: "n < 16 \<Longrightarrow> hex_digit n \<noteq> CHR '' ''"
  by (auto simp: hex_digit_def numeral_eq_Suc less_Suc_eq)

lemma hex_byte_inj: "hex_byte a = hex_byte b \<Longrightarrow> a = b"
proof -
  assume eq: "hex_byte a = hex_byte b"
  have bound: "unat x div 16 < 16" "unat x mod 16 < 16" for x :: byte
    using unsigned_less [of x, where 'a = nat] by auto
  consider "unat a < 16" "unat b < 16" | "unat a < 16" "\<not> unat b < 16" | "\<not> unat a < 16" "unat b < 16"
    | "\<not> unat a < 16" "\<not> unat b < 16" by blast
  then have "unat a = unat b"
  proof cases
    case 1
    then show ?thesis using eq by (simp add: hex_byte_def Let_def hex_digit_inj)
  next
    case 2
    then show ?thesis using eq hex_digit_not_space [OF bound(1) [of b]] by (simp add: hex_byte_def Let_def)
  next
    case 3
    then show ?thesis using eq hex_digit_not_space [OF bound(1) [of a]] by (simp add: hex_byte_def Let_def)
  next
    case 4
    then have "hex_digit (unat a div 16) = hex_digit (unat b div 16)" "hex_digit (unat a mod 16) = hex_digit (unat b mod 16)"
      using eq by (simp_all add: hex_byte_def Let_def)
    then show ?thesis using hex_digit_inj bound by (metis div_mult_mod_eq)
  qed
  then show "a = b" by (simp add: unsigned_word_eqI)
qed

lemma length_hex_byte [simp]: "length (hex_byte b) = 3"
  by (simp add: hex_byte_def Let_def)

section \<open>Properties\<close>

text \<open>
  C31. Splitting at a one-character delimiter gives exactly the non-empty pieces between the
  delimiters, in order; the loop always ends.
\<close>

theorem split_pieces: "split s [c] = filter (\<lambda>x. x \<noteq> []) (split_on c s)"
  by (rule split_char)

text \<open>
  Splitting undoes joining: pieces that are not empty and do not contain the delimiter come
  back unchanged.
\<close>

theorem split_of_join:
  assumes "\<And>x. x \<in> set xs \<Longrightarrow> x \<noteq> [] \<and> c \<notin> set x"
  shows "split (join c xs) [c] = xs"
  using assms by (rule split_join)

theorem split_of_join_witness: "split ''a.bc.d'' ''.'' = [''a'', ''bc'', ''d'']"
proof -
  have "split (join (CHR ''.'') [''a'', ''bc'', ''d'']) ''.'' = [''a'', ''bc'', ''d'']"
    by (rule split_of_join) auto
  then show ?thesis by simp
qed

text \<open>
  A delimiter of more than one character is not matched as a whole: the first of its
  characters splits, and the characters after it are skipped whatever they are, so text is lost.
\<close>

theorem split_long_delimiter_loses_text:
  assumes "d1 \<noteq> d2" and "x \<notin> {d1, d2}" and "y \<notin> {d1, d2}" and "z \<notin> {d1, d2}"
  shows "split [x, d1, y, z] [d1, d2] = [[x], [z]]"
  using assms by (simp add: split_def find_first_of.simps Let_def)

theorem split_long_delimiter_loses_text_witness: "split ''a-bc'' ''->'' = [''a'', ''c'']"
  using split_long_delimiter_loses_text [of "CHR ''-''" "CHR ''>''" "CHR ''a''" "CHR ''b''" "CHR ''c''"] by simp

text \<open>
  An address of the form \<^verbatim>\<open>ip:port\<close> parses to its parts, the port reduced to 16
  bits.
\<close>

theorem address_parse_ip_port:
  assumes "ip \<noteq> []" and "CHR '':'' \<notin> set ip" and "ds \<noteq> []" and "list_all is_digit ds" and "digits_value ds < 2 ^ 31"
  shows "address_parse (ip @ '':'' @ ds) = Inr (ip, word_of_int (digits_value ds))"
proof -
  have "CHR '':'' \<notin> set ds" using assms(4) by (auto simp: list_all_iff is_digit_def)
  then have "split (join (CHR '':'') [ip, ds]) '':'' = [ip, ds]"
    using assms by (intro split_join) auto
  then show ?thesis using atoi_digits [OF assms(4,3,5)] by (simp add: address_parse_def)
qed

theorem address_parse_ip_port_witness: "address_parse ''127.0.0.1:7000'' = Inr (''127.0.0.1'', 7000)"
  using address_parse_ip_port [of "''127.0.0.1''" "''7000''"]
  by (simp add: is_digit_def digits_value_def digit_value_def)

text \<open>A hex dump has three characters per byte and determines the bytes.\<close>

theorem dump_hex_injective:
  assumes "dump_hex xs = dump_hex ys"
  shows "xs = ys \<and> length (dump_hex xs) = 3 * length xs"
proof -
  have len: "length (dump_hex zs) = 3 * length zs" for zs by (induction zs) (simp_all add: dump_hex_def)
  have "xs = ys" using assms
  proof (induction xs arbitrary: ys)
    case Nil
    then show ?case using len [of ys] len [of "[]"] by simp
  next
    case (Cons x xs)
    then obtain y ys' where ys: "ys = y # ys'" using len [of "x # xs"] len [of ys] by (cases ys) auto
    have "hex_byte x = hex_byte y" "dump_hex xs = dump_hex ys'"
      using Cons.prems ys by (auto simp: dump_hex_def append_eq_append_conv)
    then show ?case using Cons.IH hex_byte_inj ys by blast
  qed
  then show ?thesis using len by blast
qed

theorem dump_hex_injective_witness: "length (dump_hex [1, 171]) = 6 \<and> dump_hex [1, 171] = '' 1|ab|''"
  using dump_hex_injective [of "[1, 171]" "[1, 171]"]
  by (simp add: dump_hex_def hex_byte_def hex_digit_def)

end
