(* ===== verification/Act_Path.thy ===== *)
theory Act_Path
  imports String_Util
begin

text \<open>
  The paths of \<^verbatim>\<open>play/ensure/act_ensure.hpp\<close> and \<^verbatim>\<open>act_ensure.cpp\<close>
  (\<^verbatim>\<open>act_ensure::path\<close>). Acts of a bot form a tree and are named by paths, absolute ones
  with a leading slash. \<^verbatim>\<open>substr\<close> throws when its start is past the end; the
  \<^verbatim>\<open>back()\<close> of an empty vector is undefined.
\<close>

section \<open>Paths\<close>

abbreviation slash :: char where "slash \<equiv> CHR ''/''"

record act_path =
  full_path :: string
  parts :: "string list"
  act_name :: string

definition is_absolute_path :: "string \<Rightarrow> bool" where
  "is_absolute_path p \<longleftrightarrow> length p > 0 \<and> p ! 0 = slash"

definition is_relative_path :: "string \<Rightarrow> bool" where
  "is_relative_path p \<longleftrightarrow> length p > 0 \<and> p ! 0 \<noteq> slash"

definition get_last_act :: "bool \<Rightarrow> string \<Rightarrow> string res" where
  "get_last_act nd p = play_check nd (p \<noteq> [])
     (let ps = split p [slash] in if ps = [] then Inl Undefined else Inr (last ps))"

definition is_child_of :: "string \<Rightarrow> string \<Rightarrow> bool" where
  "is_child_of self_path p \<longleftrightarrow> take (length self_path) p = self_path"

text \<open>\<^verbatim>\<open>std::string::substr(pos)\<close>\<close>

definition substr_from :: "string \<Rightarrow> nat \<Rightarrow> string res" where
  "substr_from s pos = (if pos \<le> length s then Inr (drop pos s) else Inl (Thrown Std_exception))"

definition child_path_of :: "string \<Rightarrow> string \<Rightarrow> string res" where
  "child_path_of self_path p =
     (if is_child_of self_path p then substr_from p (length self_path + 1) else Inr [])"

definition path_setup :: "string \<Rightarrow> act_path res" where
  "path_setup p = (let ps = split p [slash] in
     if ps = [] then Inl (Thrown Play_error)
     else Inr \<lparr>full_path = p, parts = ps, act_name = last ps\<rparr>)"

definition get_first_act :: "string \<Rightarrow> string res" where
  "get_first_act p = (if p = [] then Inr [] else bind_res (path_setup p) (\<lambda>q. Inr (hd (parts q))))"

text \<open>The loop that joins all parts but the first and the last, each with a slash behind it.\<close>

definition pop_head_act :: "string \<Rightarrow> string res" where
  "pop_head_act p = bind_res (path_setup p) (\<lambda>q.
     if length (parts q) \<le> 1 then Inr []
     else Inr (concat (map (\<lambda>x. x @ [slash]) (butlast (tl (parts q)))) @ last (parts q)))"

definition child_path :: "string \<Rightarrow> string res" where
  "child_path p = pop_head_act p"

text \<open>
  \<^verbatim>\<open>build_path\<close>: the names of the ancestors, outermost first (the stack turns the walk
  up the parents around), then the act's own name.
\<close>

definition build_path :: "string list \<Rightarrow> string \<Rightarrow> act_path res" where
  "build_path ancestors name =
     path_setup ([slash] @ concat (map (\<lambda>x. x @ [slash]) ancestors) @ name)"

section \<open>Lemmas\<close>

text \<open>A name that can be part of a path: not empty and without a slash.\<close>

definition path_name :: "string \<Rightarrow> bool" where
  "path_name x \<longleftrightarrow> x \<noteq> [] \<and> slash \<notin> set x"

lemma join_slashes: "xs \<noteq> [] \<Longrightarrow> join c xs = concat (map (\<lambda>x. x @ [c]) (butlast xs)) @ last xs"
  by (induction c xs rule: join.induct) auto

lemma join_snoc: "join c (xs @ [x]) = concat (map (\<lambda>x. x @ [c]) xs) @ x"
  by (simp add: join_slashes)

lemma split_path: "list_all path_name xs \<Longrightarrow> split (join slash xs) [slash] = xs"
  by (rule split_join) (auto simp: list_all_iff path_name_def)

lemma split_absolute: "list_all path_name xs \<Longrightarrow> xs \<noteq> [] \<Longrightarrow> split (slash # join slash xs) [slash] = xs"
  using split_path [of xs] by (simp add: split_char)

lemma setup_path:
  "list_all path_name xs \<Longrightarrow> xs \<noteq> [] \<Longrightarrow>
     path_setup (join slash xs) = Inr \<lparr>full_path = join slash xs, parts = xs, act_name = last xs\<rparr>"
  by (simp add: path_setup_def split_path)

lemma join_ne: "list_all path_name xs \<Longrightarrow> xs \<noteq> [] \<Longrightarrow> join c xs \<noteq> []"
  by (cases xs rule: remdups_adj.cases) (auto simp: path_name_def)

lemma relative_join: "list_all path_name xs \<Longrightarrow> xs \<noteq> [] \<Longrightarrow> is_relative_path (join slash xs)"
  by (cases "(slash, xs)" rule: join.cases)
     (auto simp: is_relative_path_def path_name_def nth_append in_set_conv_nth length_greater_0_conv)

lemma first_act_join: "list_all path_name xs \<Longrightarrow> xs \<noteq> [] \<Longrightarrow> get_first_act (join slash xs) = Inr (hd xs)"
  by (simp add: get_first_act_def join_ne setup_path)

lemma last_act_join: "list_all path_name xs \<Longrightarrow> xs \<noteq> [] \<Longrightarrow> get_last_act nd (join slash xs) = Inr (last xs)"
  by (simp add: get_last_act_def join_ne split_path Let_def)

lemma pop_head_join:
  assumes "list_all path_name xs" and "xs \<noteq> []"
  shows "pop_head_act (join slash xs) = Inr (join slash (tl xs))"
proof (cases "tl xs = []")
  case True
  then show ?thesis using assms setup_path [of xs] by (cases xs) (auto simp: pop_head_act_def)
next
  case False
  then have "\<not> length xs \<le> 1" "last (tl xs) = last xs" by (cases xs; auto)+
  then show ?thesis using assms False by (simp add: pop_head_act_def setup_path join_slashes [of "tl xs"])
qed

lemma child_path_of_join:
  assumes "ys \<noteq> []" and "xs \<noteq> []"
  shows "is_child_of (slash # join slash xs) (slash # join slash (xs @ ys))" (is ?a)
    and "child_path_of (slash # join slash xs) (slash # join slash (xs @ ys)) = Inr (join slash ys)" (is ?b)
proof -
  have j: "join slash (xs @ ys) = join slash xs @ slash # join slash ys"
    using assms by (induction slash xs rule: join.induct) (cases ys; auto)+
  show ?a by (simp add: j is_child_of_def)
  then show ?b by (simp add: child_path_of_def substr_from_def j)
qed

lemma build_path_names:
  "list_all path_name (xs @ [x]) \<Longrightarrow>
     build_path xs x = Inr \<lparr>full_path = slash # join slash (xs @ [x]), parts = xs @ [x], act_name = x\<rparr>"
  using split_absolute [of "xs @ [x]"] by (simp add: build_path_def path_setup_def join_snoc)

section \<open>Properties\<close>

text \<open>
  C32. The path functions fit together: the path built for an act under its ancestors has the
  names as parts, a descendant's path is recognised as such and its relative path is the names
  below, and taking the first name and popping it walks a relative path from the top.
\<close>

theorem act_paths_fit:
  assumes "list_all path_name (xs @ ys)" and "xs \<noteq> []" and "ys \<noteq> []"
  shows "build_path (butlast xs) (last xs) = Inr \<lparr>full_path = slash # join slash xs, parts = xs, act_name = last xs\<rparr> \<and>
    is_child_of (slash # join slash xs) (slash # join slash (xs @ ys)) \<and>
    child_path_of (slash # join slash xs) (slash # join slash (xs @ ys)) = Inr (join slash ys) \<and>
    get_first_act (join slash ys) = Inr (hd ys) \<and> child_path (join slash ys) = Inr (join slash (tl ys)) \<and>
    get_last_act nd (join slash ys) = Inr (last ys)"
proof -
  have "list_all path_name (butlast xs @ [last xs])" "list_all path_name ys" using assms by auto
  then show ?thesis
    using build_path_names [of "butlast xs" "last xs"] child_path_of_join assms
    by (simp add: first_act_join last_act_join pop_head_join child_path_def)
qed

theorem act_paths_fit_witness:
  "build_path [''flow''] ''serial_1'' = Inr \<lparr>full_path = ''/flow/serial_1'', parts = [''flow'', ''serial_1''], act_name = ''serial_1''\<rparr> \<and>
   child_path_of ''/flow/serial_1'' ''/flow/serial_1/a/b'' = Inr ''a/b'' \<and> child_path ''a/b'' = Inr ''b''"
  using act_paths_fit [of "[''flow'', ''serial_1'']" "[''a'', ''b'']"] by (simp add: path_name_def)

text \<open>
  The test for a descendant compares prefixes of characters: an act whose name starts with
  the name of another counts as its descendant, and its relative path has lost the first
  character of the rest; the path of the act itself counts as well and has no relative path.
\<close>

theorem sibling_counts_as_child:
  assumes "rest \<noteq> []"
  shows "is_child_of p (p @ rest) \<and> child_path_of p (p @ rest) = Inr (tl rest) \<and>
    is_child_of p p \<and> child_path_of p p = Inl (Thrown Std_exception)"
  using assms by (cases rest) (auto simp: is_child_of_def child_path_of_def substr_from_def)

theorem sibling_counts_as_child_witness:
  "is_child_of ''/flow/serial_1'' ''/flow/serial_10'' \<and> child_path_of ''/flow/serial_1'' ''/flow/serial_10'' = Inr []"
  using sibling_counts_as_child [of "''0''" "''/flow/serial_1''"] by simp

end
