(* ===== verification/Base_Util.thy ===== *)
theory Base_Util
  imports String_Util
begin

text \<open>
  \<^verbatim>\<open>play/base/json_reader.hpp\<close>, \<^verbatim>\<open>object_pool.hpp\<close>,
  \<^verbatim>\<open>dynamic_snowflake.hpp\<close> and \<^verbatim>\<open>stop_watch.hpp\<close>. JSON values are those of
  nlohmann::json that the readers look at; \<^verbatim>\<open>get<Value>\<close> is a parameter, its
  \<^const>\<open>None\<close> the type error it throws. Clocks give milliseconds.
\<close>

section \<open>JSON paths\<close>

datatype json = J_null | J_bool bool | J_int int | J_string string | J_array "json list" | J_object "(string \<times> json) list"

definition json_contains :: "json \<Rightarrow> string \<Rightarrow> bool" where
  "json_contains j k = (case j of J_object m \<Rightarrow> map_of m k \<noteq> None | _ \<Rightarrow> False)"

definition json_at :: "json \<Rightarrow> string \<Rightarrow> json" where
  "json_at j k = (case j of J_object m \<Rightarrow> (case map_of m k of None \<Rightarrow> J_null | Some v \<Rightarrow> v) | _ \<Rightarrow> J_null)"

text \<open>
  The loop runs over all but the last element of the path. For an empty path
  \<^verbatim>\<open>vpath.size() - 1\<close> wraps to the largest \<^verbatim>\<open>size_t\<close> and the loop reads past the end.
\<close>

fun json_walk :: "json \<Rightarrow> string list \<Rightarrow> json option" where
  "json_walk j [] = Some j"
| "json_walk j (k # ks) = (if json_contains j k then json_walk (json_at j k) ks else None)"

definition json_read :: "json \<Rightarrow> string \<Rightarrow> json res" where
  "json_read j path =
     (let vpath = split path ''.'' in
      if vpath = [] then Inl Undefined
      else (case json_walk j (butlast vpath) of
              None \<Rightarrow> Inr J_null
            | Some jv \<Rightarrow> if json_contains jv (last vpath) then Inr (json_at jv (last vpath)) else Inr J_null))"

definition json_read_value :: "(json \<Rightarrow> 'v option) \<Rightarrow> json \<Rightarrow> string \<Rightarrow> 'v \<Rightarrow> 'v res" where
  "json_read_value get j path default_value =
     bind_res (json_read j path) (\<lambda>jr.
       if jr = J_null then Inr default_value
       else (case get jr of None \<Rightarrow> Inl (Thrown Json_exception) | Some v \<Rightarrow> Inr v))"

section \<open>Object pool\<close>

text \<open>
  Memory blocks are addresses. \<open>op_live\<close> holds the constructed objects, \<open>op_pool\<close> the
  released blocks, whose objects have been destroyed. \<open>op_size\<close> is \<^verbatim>\<open>pool_size_\<close>.
\<close>

record object_pool =
  op_pool :: "nat list"
  op_live :: "nat list"
  op_next :: nat
  op_alloc_count :: nat
  op_free_count :: nat
  op_size :: nat

definition pool_create :: object_pool where
  "pool_create = \<lparr>op_pool = [], op_live = [], op_next = 1, op_alloc_count = 0, op_free_count = 0, op_size = 0\<rparr>"

definition pool_construct :: "object_pool \<Rightarrow> object_pool \<times> nat" where
  "pool_construct pl =
     (let pl1 = pl\<lparr>op_alloc_count := Suc (op_alloc_count pl)\<rparr> in
      (case op_pool pl of
         [] \<Rightarrow> (pl1\<lparr>op_live := op_next pl # op_live pl, op_next := Suc (op_next pl)\<rparr>, op_next pl)
       | a # rest \<Rightarrow> (pl1\<lparr>op_live := a # op_live pl, op_pool := rest\<rparr>, a)))"

definition pool_release :: "object_pool \<Rightarrow> nat \<Rightarrow> object_pool" where
  "pool_release pl a = (let pool = op_pool pl @ [a] in
     pl\<lparr>op_free_count := Suc (op_free_count pl), op_pool := pool, op_size := length pool\<rparr>)"

text \<open>The deleter of a \<^verbatim>\<open>shared_ptr\<close>: destroy the object, give the block back.\<close>

definition pool_deleter :: "object_pool \<Rightarrow> nat \<Rightarrow> object_pool res" where
  "pool_deleter pl a =
     (if a \<in> set (op_live pl) then Inr (pool_release (pl\<lparr>op_live := remove1 a (op_live pl)\<rparr>) a)
      else Inl Undefined)"

text \<open>The destructor deletes every block of the pool, which destroys an object that is not there any more.\<close>

definition pool_destroy :: "object_pool \<Rightarrow> object_pool res" where
  "pool_destroy pl = (if op_pool pl = [] then Inr pl else Inl Undefined)"

definition pool_ok :: "object_pool \<Rightarrow> bool" where
  "pool_ok pl \<longleftrightarrow> distinct (op_pool pl @ op_live pl) \<and> (\<forall>a \<in> set (op_pool pl) \<union> set (op_live pl). a < op_next pl) \<and>
     op_alloc_count pl = op_free_count pl + length (op_live pl)"

datatype pool_event = Pool_construct | Pool_delete nat

fun pool_step :: "object_pool \<Rightarrow> pool_event \<Rightarrow> object_pool res" where
  "pool_step pl Pool_construct = Inr (fst (pool_construct pl))"
| "pool_step pl (Pool_delete a) = pool_deleter pl a"

section \<open>Ids\<close>

text \<open>\<open>elapsed\<close> are the milliseconds since the start, \<^verbatim>\<open>seq_\<close> is the counter.\<close>

definition snowflake_next :: "32 word \<Rightarrow> 64 word \<Rightarrow> 32 word \<times> 64 word" where
  "snowflake_next seq elapsed =
     (let half = push_bit 24 elapsed AND 0xFFFFFFFF; seq' = seq + 1 in (seq', half OR ucast seq'))"

fun snowflake_ids :: "32 word \<Rightarrow> 64 word list \<Rightarrow> 64 word list" where
  "snowflake_ids seq [] = []"
| "snowflake_ids seq (e # es) = (let (seq', i) = snowflake_next seq e in i # snowflake_ids seq' es)"

section \<open>Stop watch\<close>

record stop_watch =
  sw_start :: nat

definition get_elapsed :: "stop_watch \<Rightarrow> nat \<Rightarrow> nat" where
  "get_elapsed sw now = now - sw_start sw"

section \<open>Lemmas\<close>

lemma json_walk_butlast:
  "ks \<noteq> [] \<Longrightarrow> json_walk j ks = (case json_walk j (butlast ks) of None \<Rightarrow> None
     | Some jv \<Rightarrow> if json_contains jv (last ks) then Some (json_at jv (last ks)) else None)"
  by (induction j ks rule: json_walk.induct) (auto simp: last_ConsR split: option.split)

lemma json_read_walk:
  "split path ''.'' \<noteq> [] \<Longrightarrow> json_read j path = Inr (case json_walk j (split path ''.'') of None \<Rightarrow> J_null | Some v \<Rightarrow> v)"
  by (auto simp: json_read_def json_walk_butlast Let_def split: option.split)

lemma pool_ok_create: "pool_ok pool_create"
  by (simp add: pool_ok_def pool_create_def)

lemma pool_construct_ok:
  assumes "pool_ok pl" and "pool_construct pl = (pl', a)"
  shows "pool_ok pl' \<and> a \<notin> set (op_live pl) \<and> op_live pl' = a # op_live pl"
  using assms by (auto simp: pool_ok_def pool_construct_def Let_def less_Suc_eq split: list.splits)

lemma pool_deleter_ok: "pool_ok pl \<Longrightarrow> pool_deleter pl a = Inr pl' \<Longrightarrow> pool_ok pl'"
  using length_pos_if_in_set [of a "op_live pl"]
  by (auto simp: pool_ok_def pool_deleter_def pool_release_def Let_def length_remove1 split: if_splits)

lemma pool_step_ok: "pool_ok pl \<Longrightarrow> pool_step pl e = Inr pl' \<Longrightarrow> pool_ok pl'"
  by (cases e) (auto dest: pool_deleter_ok pool_construct_ok [OF _ surjective_pairing])

text \<open>The low 24 bits of an id are those of the counter.\<close>

lemma snowflake_low: "take_bit 24 (snd (snowflake_next seq e)) = ucast (take_bit 24 (seq + 1))"
  by (rule bit_word_eqI)
    (auto simp: snowflake_next_def Let_def bit_take_bit_iff bit_or_iff bit_and_iff bit_push_bit_iff
      bit_ucast_iff bit_numeral_rec)

lemma ucast_64_inj: "(ucast (x :: 32 word) :: 64 word) = ucast y \<Longrightarrow> x = y"
proof -
  assume eq: "(ucast x :: 64 word) = ucast y"
  have "unat (ucast z :: 64 word) = unat z" for z :: "32 word"
    using unsigned_less [of z, where 'a = nat] by (simp add: unsigned_ucast_eq take_bit_nat_eq_self)
  then have "unat x = unat y" using arg_cong [OF eq, of unat] by metis
  then show "x = y" by (rule unsigned_word_eqI)
qed

lemma snowflake_ids_nth:
  "i < length es \<Longrightarrow> snowflake_ids seq es ! i = snd (snowflake_next (seq + of_nat i) (es ! i))"
proof (induction es arbitrary: seq i)
  case (Cons e es)
  then show ?case
    by (cases i) (auto simp: snowflake_next_def Let_def ac_simps)
qed simp

lemma length_snowflake_ids [simp]: "length (snowflake_ids seq es) = length es"
  by (induction es arbitrary: seq) (auto simp: Let_def split: prod.split)

lemma add_mod_inj:
  fixes s i j m :: nat
  assumes "(s + i) mod m = (s + j) mod m" and "i < m" and "j < m"
  shows "i = j"
proof -
  have "i = j" if "i \<le> j" "(s + j) mod m = (s + i) mod m" "j < m" for i j :: nat
  proof -
    have "m dvd j - i" using that mod_eq_dvd_iff_nat [of "s + i" "s + j" m] by simp
    then show ?thesis using that by (metis dvd_imp_le diff_is_0_eq less_imp_diff_less not_less le_antisym zero_less_iff_neq_zero)
  qed
  then show ?thesis using assms by (metis nat_le_linear)
qed

lemma take_bit_counter_inj:
  assumes "i < 2 ^ 24" and "j < 2 ^ 24" and "take_bit 24 (seq + of_nat i :: 32 word) = take_bit 24 (seq + of_nat j)"
  shows "i = j"
proof -
  have "take_bit 24 (unat (seq + of_nat k :: 32 word)) = (unat seq + k) mod 2 ^ 24" for k
    by (simp add: unat_word_ariths unsigned_of_nat take_bit_eq_mod mod_simps mod_mod_cancel)
  then have "(unat seq + i) mod 2 ^ 24 = (unat seq + j) mod 2 ^ 24"
    using arg_cong [OF assms(3), of unat] by (simp add: unsigned_take_bit_eq)
  then show ?thesis using add_mod_inj assms(1,2) by blast
qed

section \<open>Properties\<close>

text \<open>
  Reading a dotted path follows the keys through nested objects and gives null where a key is
  missing; keys are not empty and contain no dot.
\<close>

theorem json_read_path:
  assumes "ks \<noteq> []" and "\<And>k. k \<in> set ks \<Longrightarrow> k \<noteq> [] \<and> CHR ''.'' \<notin> set k"
  shows "json_read j (join (CHR ''.'') ks) = Inr (case json_walk j ks of None \<Rightarrow> J_null | Some v \<Rightarrow> v)"
  using json_read_walk [of "join (CHR ''.'') ks" j] split_join [of ks "CHR ''.''"] assms by simp

theorem json_read_path_witness:
  "json_read (J_object [(''answer'', J_object [(''everything'', J_int 42)])]) ''answer.everything'' = Inr (J_int 42)"
proof -
  have "json_read (J_object [(''answer'', J_object [(''everything'', J_int 42)])])
      (join (CHR ''.'') [''answer'', ''everything'']) = Inr (case json_walk (J_object [(''answer'',
        J_object [(''everything'', J_int 42)])]) [''answer'', ''everything''] of None \<Rightarrow> J_null | Some v \<Rightarrow> v)"
    by (rule json_read_path) auto
  then show ?thesis by (simp add: json_contains_def json_at_def)
qed

text \<open>
  Ids are unique among any 16777216 calls in a row, whatever the clock does and wherever the
  counter stands.
\<close>

theorem snowflake_unique_in_window:
  assumes "length es \<le> 2 ^ 24"
  shows "distinct (snowflake_ids seq es)"
proof (subst distinct_conv_nth, intro allI impI)
  fix i j assume ij: "i < length (snowflake_ids seq es)" "j < length (snowflake_ids seq es)" "i \<noteq> j"
  show "snowflake_ids seq es ! i \<noteq> snowflake_ids seq es ! j"
  proof
    assume "snowflake_ids seq es ! i = snowflake_ids seq es ! j"
    then have "snd (snowflake_next (seq + of_nat i) (es ! i)) = snd (snowflake_next (seq + of_nat j) (es ! j))"
      using ij by (simp add: snowflake_ids_nth)
    then have "(ucast (take_bit 24 (seq + of_nat i + 1)) :: 64 word) = ucast (take_bit 24 (seq + of_nat j + 1))"
      by (metis snowflake_low)
    then have "take_bit 24 (seq + 1 + of_nat i) = take_bit 24 (seq + 1 + of_nat j :: 32 word)"
      using ucast_64_inj by (simp add: ac_simps)
    then have "i = j" by (rule take_bit_counter_inj [rotated 2]) (use ij assms in simp_all)
    then show False using ij by simp
  qed
qed

theorem snowflake_unique_in_window_witness: "distinct (snowflake_ids 0xFFFFFFFF [3, 3, 4])"
  by (rule snowflake_unique_in_window) simp

text \<open>
  Beyond that window ids repeat: of the elapsed time only eight bits reach the id, where they
  overlap the counter, so a call one millisecond later and 16777216 calls earlier has the same id.
\<close>

theorem snowflake_ids_collide:
  "snd (snowflake_next 0 1) = snd (snowflake_next (2 ^ 24) 0)"
  by (simp add: snowflake_next_def Let_def)



text \<open>
  Destroying a pool that holds a released block is undefined: the deleter has already run the
  destructor that \<^verbatim>\<open>delete\<close> runs again.
\<close>

theorem pool_destroy_after_release:
  assumes "pool_deleter pl a = Inr pl'"
  shows "pool_destroy pl' = Inl Undefined"
  using assms by (auto simp: pool_deleter_def pool_release_def pool_destroy_def Let_def split: if_splits)

theorem pool_destroy_after_release_witness:
  "pool_destroy (pool_release (pool_create\<lparr>op_alloc_count := 1\<rparr>) 1) = Inl Undefined"
  using pool_destroy_after_release [of "pool_create\<lparr>op_alloc_count := 1, op_live := [1]\<rparr>" 1
      "pool_release (pool_create\<lparr>op_alloc_count := 1\<rparr>) 1"]
  by (simp add: pool_deleter_def pool_create_def)

end
