(* ===== verification/Ensure.thy ===== *)
theory Ensure
  imports Act_Path Base_Util App
begin

text \<open>
  \<^verbatim>\<open>play/ensure\<close>: bots that run a flow of acts read from JSON. A bot owns its acts,
  objects in the store \<open>bt_acts\<close> known by address (0 is null). The classes of acts are the
  constructors of \<open>act_kind\<close>, and a virtual function is a case over them. Activating a
  composite act creates its children from the JSON; a leaf act signals success or failure,
  and its JSON says whether the parent then moves to the next act, jumps to a path or exits.

  Recursion over the tree of acts takes fuel; without fuel the result is \<open>Undefined\<close>, the
  stack overflow of an endless recursion. The theorems give the results outright, so that the
  fuel (\<open>flow_fuel\<close>) is enough in them. \<open>now\<close> is the clock in milliseconds.
\<close>

section \<open>JSON access\<close>

fun get_string :: "json \<Rightarrow> string option" where
  "get_string (J_string s) = Some s"
| "get_string _ = None"

fun get_int :: "json \<Rightarrow> int option" where
  "get_int (J_int i) = Some i"
| "get_int (J_bool b) = Some (of_bool b)"
| "get_int _ = None"

fun is_object :: "json \<Rightarrow> bool" where
  "is_object (J_object _) = True"
| "is_object _ = False"

text \<open>
  The constant \<^verbatim>\<open>operator[]\<close> asserts that the key is there and is undefined when it is
  not; the other one inserts a null. Both throw on a value that is not an object.
\<close>

definition json_index_const :: "bool \<Rightarrow> json \<Rightarrow> string \<Rightarrow> json res" where
  "json_index_const nd j k = (case j of
     J_object m \<Rightarrow> (case map_of m k of Some v \<Rightarrow> Inr v | None \<Rightarrow> play_check nd False (Inl Undefined))
   | _ \<Rightarrow> Inl (Thrown Json_exception))"

definition json_index :: "json \<Rightarrow> string \<Rightarrow> (json \<times> json) res" where
  "json_index j k = (case j of
     J_object m \<Rightarrow> (case map_of m k of Some v \<Rightarrow> Inr (j, v) | None \<Rightarrow> Inr (J_object (m @ [(k, J_null)]), J_null))
   | J_null \<Rightarrow> Inr (J_object [(k, J_null)], J_null)
   | _ \<Rightarrow> Inl (Thrown Json_exception))"

text \<open>What a range-based loop over a JSON value visits.\<close>

fun json_elements :: "json \<Rightarrow> json list" where
  "json_elements J_null = []"
| "json_elements (J_array xs) = xs"
| "json_elements (J_object m) = map snd m"
| "json_elements j = [j]"

section \<open>Acts and bots\<close>

datatype act_kind = K_act_ensure | K_serial | K_parallel | K_flow | K_message | K_wait_duration

record act =
  ae_kind :: act_kind
  ae_name :: string
  ae_parent :: nat
  ae_path :: act_path
  ae_json :: json
  ae_active :: bool
  ae_active_count :: nat
  ae_stop_watch :: stop_watch
  ae_duration :: int
  ae_acts :: "nat list"
  ae_current :: nat

record 'm bot =
  bt_name :: string
  bt_index :: nat
  bt_id :: nat
  bt_json :: json
  bt_flow :: nat
  bt_timer :: "timer option"
  bt_board :: "string \<rightharpoonup> 'm"
  bt_acts :: "nat \<rightharpoonup> act"
  bt_next :: nat
  bt_log :: "string list"

definition bot_create :: "nat \<Rightarrow> json \<Rightarrow> string \<Rightarrow> nat \<Rightarrow> 'm bot" where
  "bot_create next_id json name index = \<lparr>bt_name = name, bt_index = index, bt_id = next_id, bt_json = json,
     bt_flow = 0, bt_timer = None, bt_board = Map.empty, bt_acts = Map.empty, bt_next = 1, bt_log = []\<rparr>"

definition act_deref :: "'m bot \<Rightarrow> nat \<Rightarrow> (act \<Rightarrow> 'r res) \<Rightarrow> 'r res" where
  "act_deref b a k = (if a = 0 then Inl Undefined else (case bt_acts b a of None \<Rightarrow> Inl Undefined | Some x \<Rightarrow> k x))"

definition act_put :: "'m bot \<Rightarrow> nat \<Rightarrow> act \<Rightarrow> 'm bot" where
  "act_put b a x = b\<lparr>bt_acts := (bt_acts b)(a \<mapsto> x)\<rparr>"

definition flow_fuel :: "'m bot \<Rightarrow> nat" where
  "flow_fuel b = bt_next b + size (bt_json b) + 2"

section \<open>Blackboard\<close>

text \<open>\<^verbatim>\<open>set\<close> inserts, and so keeps an entry that is there.\<close>

definition board_set :: "(string \<rightharpoonup> 'm) \<Rightarrow> string \<Rightarrow> 'm \<Rightarrow> (string \<rightharpoonup> 'm)" where
  "board_set m k v = (case m k of None \<Rightarrow> m(k \<mapsto> v) | Some _ \<Rightarrow> m)"

definition board_get :: "(string \<rightharpoonup> 'm) \<Rightarrow> string \<Rightarrow> 'm option" where
  "board_get m k = (case m k of None \<Rightarrow> None | Some v \<Rightarrow> Some v)"

text \<open>\<^verbatim>\<open>get_obj\<close> returns a reference; without an entry it refers to a temporary.\<close>

definition board_get_obj :: "(string \<rightharpoonup> 'm) \<Rightarrow> string \<Rightarrow> 'm res" where
  "board_get_obj m k = (case m k of None \<Rightarrow> Inl Undefined | Some v \<Rightarrow> Inr v)"

section \<open>Factory and construction\<close>

type_synonym act_factory = "string \<rightharpoonup> act_kind"

definition add_creator :: "act_factory \<Rightarrow> string \<Rightarrow> act_kind \<Rightarrow> act_factory" where
  "add_creator F type k = (case F type of None \<Rightarrow> F(type \<mapsto> k) | Some _ \<Rightarrow> F)"

text \<open>The names on the way up from an act, the outermost first.\<close>

fun ancestor_names :: "'m bot \<Rightarrow> nat \<Rightarrow> nat \<Rightarrow> string list res" where
  "ancestor_names b 0 a = Inl Undefined"
| "ancestor_names b (Suc n) a =
     (if a = 0 then Inr []
      else act_deref b a (\<lambda>x. bind_res (ancestor_names b n (ae_parent x)) (\<lambda>ns. Inr (ns @ [ae_name x]))))"

text \<open>
  The constructor of every act. It calls \<^verbatim>\<open>on_load_json()\<close> while the object is still an
  \<^verbatim>\<open>act_ensure\<close>, which runs the empty base version: a duration in the JSON is not read
  and \<^verbatim>\<open>duration_\<close> keeps its initial 0.
\<close>

definition act_create :: "'m bot \<Rightarrow> act_kind \<Rightarrow> nat \<Rightarrow> json \<Rightarrow> string \<Rightarrow> nat \<Rightarrow> ('m bot \<times> nat) res" where
  "act_create b kind parent json name now =
     bind_res (ancestor_names b (bt_next b) parent) (\<lambda>ns. bind_res (build_path ns name) (\<lambda>p.
       Inr (b\<lparr>bt_acts := (bt_acts b)(bt_next b \<mapsto> \<lparr>ae_kind = kind, ae_name = name, ae_parent = parent, ae_path = p,
              ae_json = json, ae_active = False, ae_active_count = 0, ae_stop_watch = \<lparr>sw_start = now\<rparr>,
              ae_duration = 0, ae_acts = [], ae_current = 0\<rparr>), bt_next := Suc (bt_next b)\<rparr>, bt_next b)))"

text \<open>\<^verbatim>\<open>create\<close> gives null for a type that is not registered.\<close>

definition factory_create :: "act_factory \<Rightarrow> 'm bot \<Rightarrow> string \<Rightarrow> nat \<Rightarrow> json \<Rightarrow> string \<Rightarrow> nat \<Rightarrow> ('m bot \<times> nat) res" where
  "factory_create F b type parent json name now = (case F type of
     None \<Rightarrow> Inr (b, 0) | Some k \<Rightarrow> act_create b k parent json name now)"

fun load_acts_loop :: "act_factory \<Rightarrow> nat \<Rightarrow> 'm bot \<Rightarrow> nat \<Rightarrow> json list \<Rightarrow> ('m bot \<times> bool) res" where
  "load_acts_loop F now b a [] = Inr (b, True)"
| "load_acts_loop F now b a (jact # js) =
     bind_res (json_read_value get_string jact ''type'' []) (\<lambda>type.
     bind_res (json_read_value get_string jact ''name'' []) (\<lambda>name.
     bind_res (factory_create F b type a jact name now) (\<lambda>(b1, c).
       if c \<noteq> 0 then act_deref b1 a (\<lambda>x. load_acts_loop F now (act_put b1 a (x\<lparr>ae_acts := ae_acts x @ [c]\<rparr>)) a js)
       else Inr (b1, False))))"

definition load_acts :: "bool \<Rightarrow> act_factory \<Rightarrow> nat \<Rightarrow> 'm bot \<Rightarrow> nat \<Rightarrow> ('m bot \<times> bool) res" where
  "load_acts nd F now b a = act_deref b a (\<lambda>x.
     bind_res (json_index_const nd (ae_json x) ''flow'') (\<lambda>jflow.
       if jflow = J_null then Inr (b, False) else load_acts_loop F now b a (json_elements jflow)))"

section \<open>Activation\<close>

definition current_act :: "bool \<Rightarrow> act \<Rightarrow> nat res" where
  "current_act nd x = play_check nd (ae_current x < length (ae_acts x))
     (if ae_current x < length (ae_acts x) then Inr (ae_acts x ! ae_current x) else Inl Undefined)"

text \<open>Run over a list until a step returns false.\<close>

fun while_ok :: "('s \<Rightarrow> 'x \<Rightarrow> ('s \<times> bool) res) \<Rightarrow> 's \<Rightarrow> 'x list \<Rightarrow> ('s \<times> bool) res" where
  "while_ok f s [] = Inr (s, True)"
| "while_ok f s (x # xs) = bind_res (f s x) (\<lambda>(s', rc). if rc then while_ok f s' xs else Inr (s', False))"

definition message_on_activate :: "'m bot \<Rightarrow> act \<Rightarrow> ('m bot \<times> bool) res" where
  "message_on_activate b x = bind_res (json_read_value get_string (ae_json x) ''message'' []) (\<lambda>m.
     Inr (b\<lparr>bt_log := bt_log b @ [m]\<rparr>, True))"

text \<open>
  The virtual functions of the composite classes; what they call on their acts is an argument.
  A serial act checks that it starts with its first act and activates the current one, a
  parallel act activates all until one fails.
\<close>

definition serial_on_activate :: "bool \<Rightarrow> act_factory \<Rightarrow> nat \<Rightarrow> ('m bot \<Rightarrow> nat \<Rightarrow> ('m bot \<times> bool) res) \<Rightarrow> 'm bot \<Rightarrow> nat
    \<Rightarrow> ('m bot \<times> bool) res" where
  "serial_on_activate nd F now activate_act b a = bind_res (load_acts nd F now b a) (\<lambda>(b1, ok).
     if ok then act_deref b1 a (\<lambda>x1. bind_res (current_act nd x1) (\<lambda>c.
       play_check nd (ae_acts x1 \<noteq> [] \<and> c = ae_acts x1 ! 0) (activate_act b1 c)))
     else Inr (b1, False))"

definition parallel_on_activate :: "bool \<Rightarrow> act_factory \<Rightarrow> nat \<Rightarrow> ('m bot \<Rightarrow> nat \<Rightarrow> ('m bot \<times> bool) res) \<Rightarrow> 'm bot \<Rightarrow> nat
    \<Rightarrow> ('m bot \<times> bool) res" where
  "parallel_on_activate nd F now activate_act b a = bind_res (load_acts nd F now b a) (\<lambda>(b1, ok).
     if ok then act_deref b1 a (\<lambda>x1. while_ok activate_act b1 (ae_acts x1)) else Inr (b1, False))"

fun activate :: "bool \<Rightarrow> act_factory \<Rightarrow> nat \<Rightarrow> nat \<Rightarrow> 'm bot \<Rightarrow> nat \<Rightarrow> ('m bot \<times> bool) res" where
  "activate nd F now 0 b a = Inl Undefined"
| "activate nd F now (Suc n) b a = act_deref b a (\<lambda>x.
     if ae_active x then Inr (b, True)
     else bind_res
       (case ae_kind x of
          K_message \<Rightarrow> message_on_activate b x
        | K_serial \<Rightarrow> serial_on_activate nd F now (activate nd F now n) b a
        | K_flow \<Rightarrow> serial_on_activate nd F now (activate nd F now n) b a
        | K_parallel \<Rightarrow> parallel_on_activate nd F now (activate nd F now n) b a
        | _ \<Rightarrow> Inr (b, True))
       (\<lambda>(b2, rc). act_deref b2 a (\<lambda>x2.
          Inr (act_put b2 a (x2\<lparr>ae_active := rc, ae_active_count := (if rc then Suc (ae_active_count x2) else ae_active_count x2)\<rparr>), rc))))"

definition serial_on_deactivate :: "bool \<Rightarrow> ('m bot \<Rightarrow> nat \<Rightarrow> 'm bot res) \<Rightarrow> 'm bot \<Rightarrow> act \<Rightarrow> 'm bot res" where
  "serial_on_deactivate nd deactivate_act b x = bind_res (current_act nd x) (deactivate_act b)"

definition parallel_on_deactivate :: "('m bot \<Rightarrow> nat \<Rightarrow> 'm bot res) \<Rightarrow> 'm bot \<Rightarrow> act \<Rightarrow> 'm bot res" where
  "parallel_on_deactivate deactivate_act b x = fold_res deactivate_act b (ae_acts x)"

fun deactivate :: "bool \<Rightarrow> nat \<Rightarrow> 'm bot \<Rightarrow> nat \<Rightarrow> 'm bot res" where
  "deactivate nd 0 b a = Inl Undefined"
| "deactivate nd (Suc n) b a = act_deref b a (\<lambda>x.
     if ae_active x then
       bind_res
         (case ae_kind x of
            K_serial \<Rightarrow> serial_on_deactivate nd (deactivate nd n) b x
          | K_flow \<Rightarrow> serial_on_deactivate nd (deactivate nd n) b x
          | K_parallel \<Rightarrow> parallel_on_deactivate (deactivate nd n) b x
          | _ \<Rightarrow> Inr b)
         (\<lambda>b1. act_deref b1 a (\<lambda>x1. Inr (act_put b1 a (x1\<lparr>ae_active := False\<rparr>))))
     else Inr b)"

section \<open>Moving through the flow\<close>

fun find_act :: "'m bot \<Rightarrow> nat list \<Rightarrow> string \<Rightarrow> nat \<Rightarrow> (nat \<times> nat) option res" where
  "find_act b [] name i = Inr None"
| "find_act b (c # cs) name i = act_deref b c (\<lambda>y. if ae_name y = name then Inr (Some (i, c)) else find_act b cs name (Suc i))"

definition move_to :: "bool \<Rightarrow> act_factory \<Rightarrow> nat \<Rightarrow> nat \<Rightarrow> 'm bot \<Rightarrow> nat \<Rightarrow> nat \<Rightarrow> 'm bot res" where
  "move_to nd F now n b a i = act_deref b a (\<lambda>x.
     let x1 = x\<lparr>ae_current := i\<rparr>; b1 = act_put b a x1 in
     bind_res (current_act nd x1) (\<lambda>c. bind_res (activate nd F now n b1 c) (\<lambda>(b2, _). Inr b2)))"

definition serial_jump_child :: "bool \<Rightarrow> act_factory \<Rightarrow> nat \<Rightarrow> nat \<Rightarrow> 'm bot \<Rightarrow> nat \<Rightarrow> string \<Rightarrow> 'm bot res" where
  "serial_jump_child nd F now n b a path =
     bind_res (get_first_act path) (\<lambda>first_act. act_deref b a (\<lambda>x.
     bind_res (find_act b (ae_acts x) first_act 0) (\<lambda>ia. case ia of
         None \<Rightarrow> Inr b
       | Some (i, _) \<Rightarrow> bind_res (current_act nd x) (\<lambda>c.
           bind_res (deactivate nd n b c) (\<lambda>b1. move_to nd F now n b1 a i)))))"

text \<open>
  \<^verbatim>\<open>jump\<close>: a leaf asks its parent; a serial act moves to the first act of the relative
  path; a parallel act passes the rest of the path to that act. \<open>up\<close> is the jump of the
  parent, or nothing at the root, and \<open>jump_act\<close> the jump of another act.
\<close>

definition serial_jump :: "bool \<Rightarrow> act_factory \<Rightarrow> nat \<Rightarrow> nat \<Rightarrow> 'm bot res \<Rightarrow> 'm bot \<Rightarrow> nat \<Rightarrow> act \<Rightarrow> string \<Rightarrow> 'm bot res" where
  "serial_jump nd F now n up b a x path =
     (if path = [] then Inr b
      else if is_relative_path path then serial_jump_child nd F now n b a path
      else if is_child_of (full_path (ae_path x)) path
        then bind_res (child_path_of (full_path (ae_path x)) path) (serial_jump_child nd F now n b a)
      else up)"

definition parallel_jump_child :: "bool \<Rightarrow> ('m bot \<Rightarrow> nat \<Rightarrow> string \<Rightarrow> 'm bot res) \<Rightarrow> 'm bot \<Rightarrow> act \<Rightarrow> string \<Rightarrow> 'm bot res" where
  "parallel_jump_child nd jump_act b x pa = play_check nd (is_relative_path pa)
     (bind_res (get_first_act pa) (\<lambda>first_act. bind_res (find_act b (ae_acts x) first_act 0) (\<lambda>ia. case ia of
         None \<Rightarrow> Inr b
       | Some (_, c) \<Rightarrow> bind_res (pop_head_act pa) (jump_act b c))))"

definition parallel_jump :: "bool \<Rightarrow> ('m bot \<Rightarrow> nat \<Rightarrow> string \<Rightarrow> 'm bot res) \<Rightarrow> 'm bot res \<Rightarrow> 'm bot \<Rightarrow> act \<Rightarrow> string \<Rightarrow> 'm bot res" where
  "parallel_jump nd jump_act up b x path =
     (if is_relative_path path then parallel_jump_child nd jump_act b x path
      else if is_child_of (full_path (ae_path x)) path
        then bind_res (child_path_of (full_path (ae_path x)) path) (parallel_jump_child nd jump_act b x)
      else up)"

fun jump :: "bool \<Rightarrow> act_factory \<Rightarrow> nat \<Rightarrow> nat \<Rightarrow> 'm bot \<Rightarrow> nat \<Rightarrow> string \<Rightarrow> 'm bot res" where
  "jump nd F now 0 b a path = Inl Undefined"
| "jump nd F now (Suc n) b a path = act_deref b a (\<lambda>x.
     let up = (if ae_parent x \<noteq> 0 then jump nd F now n b (ae_parent x) path else Inr b)
     in case ae_kind x of
          K_serial \<Rightarrow> serial_jump nd F now n up b a x path
        | K_flow \<Rightarrow> serial_jump nd F now n up b a x path
        | K_parallel \<Rightarrow> parallel_jump nd (jump nd F now n) up b x path
        | _ \<Rightarrow> up)"

definition serial_next :: "bool \<Rightarrow> act_factory \<Rightarrow> nat \<Rightarrow> nat \<Rightarrow> 'm bot \<Rightarrow> nat \<Rightarrow> 'm bot res" where
  "serial_next nd F now n b a = act_deref b a (\<lambda>x. bind_res (current_act nd x) (\<lambda>c.
     bind_res (deactivate nd n b c) (\<lambda>b1. act_deref b1 a (\<lambda>x1.
       if Suc (ae_current x1) \<ge> length (ae_acts x1) then Inr b1
       else move_to nd F now n b1 a (Suc (ae_current x1))))))"

definition parallel_next :: "bool \<Rightarrow> 'm bot \<Rightarrow> 'm bot res" where
  "parallel_next nd b = play_check nd False (Inr b)"

fun act_next :: "bool \<Rightarrow> act_factory \<Rightarrow> nat \<Rightarrow> nat \<Rightarrow> 'm bot \<Rightarrow> nat \<Rightarrow> 'm bot res" where
  "act_next nd F now 0 b a = Inl Undefined"
| "act_next nd F now (Suc n) b a = act_deref b a (\<lambda>x. case ae_kind x of
     K_serial \<Rightarrow> serial_next nd F now n b a
   | K_flow \<Rightarrow> serial_next nd F now n b a
   | K_parallel \<Rightarrow> parallel_next nd b
   | _ \<Rightarrow> if ae_parent x \<noteq> 0 then act_next nd F now n b (ae_parent x) else Inr b)"

text \<open>The bot's \<^verbatim>\<open>on_stop()\<close>, which the flow's \<^verbatim>\<open>exit()\<close> reaches through \<^verbatim>\<open>stop()\<close>.\<close>

definition bot_on_stop :: "bool \<Rightarrow> nat \<Rightarrow> 'm bot \<Rightarrow> 'm bot res" where
  "bot_on_stop nd n b = (let b1 = b\<lparr>bt_timer := map_option timer_cancel (bt_timer b)\<rparr> in
     if bt_flow b1 = 0 then Inl Undefined else deactivate nd n b1 (bt_flow b1))"

fun act_exit :: "bool \<Rightarrow> nat \<Rightarrow> 'm bot \<Rightarrow> nat \<Rightarrow> 'm bot res" where
  "act_exit nd 0 b a = Inl Undefined"
| "act_exit nd (Suc n) b a = act_deref b a (\<lambda>x. case ae_kind x of
     K_flow \<Rightarrow> bot_on_stop nd n b
   | _ \<Rightarrow> if ae_parent x \<noteq> 0 then act_exit nd n b (ae_parent x) else Inr b)"

definition signal :: "bool \<Rightarrow> act_factory \<Rightarrow> nat \<Rightarrow> nat \<Rightarrow> 'm bot \<Rightarrow> nat \<Rightarrow> string \<Rightarrow> 'm bot res" where
  "signal nd F now n b a sig = act_deref b a (\<lambda>x.
     bind_res (json_index (ae_json x) ''slots'') (\<lambda>(json, jslots).
       let b1 = act_put b a (x\<lparr>ae_json := json\<rparr>) in
       if is_object jslots then
         bind_res (json_read_value Some jslots sig J_null) (\<lambda>jsig.
           if is_object jsig then
             bind_res (json_read_value get_string jsig ''cmd'' []) (\<lambda>cmd.
               if cmd = ''jump'' then bind_res (json_read_value get_string jsig ''target'' []) (jump nd F now n b1 a)
               else if cmd = ''next'' then act_next nd F now n b1 a
               else if cmd = ''exit'' then act_exit nd n b1 a
               else Inr b1)
           else Inr b1)
       else Inr b1))"

text \<open>
  \<^verbatim>\<open>on_update()\<close> of each class. The elapsed time is compared with the duration as
  unsigned numbers. The loop of a parallel act is over the vector of its acts, which must not
  change meanwhile.
\<close>

definition message_on_update :: "bool \<Rightarrow> act_factory \<Rightarrow> nat \<Rightarrow> nat \<Rightarrow> 'm bot \<Rightarrow> nat \<Rightarrow> 'm bot res" where
  "message_on_update nd F now n b a = signal nd F now n b a ''success''"

definition wait_on_update :: "bool \<Rightarrow> act_factory \<Rightarrow> nat \<Rightarrow> nat \<Rightarrow> 'm bot \<Rightarrow> nat \<Rightarrow> act \<Rightarrow> 'm bot res" where
  "wait_on_update nd F now n b a x =
     (if get_elapsed (ae_stop_watch x) now \<ge> nat (ae_duration x mod 2 ^ 64) then signal nd F now n b a ''success'' else Inr b)"

definition serial_on_update :: "bool \<Rightarrow> ('m bot \<Rightarrow> nat \<Rightarrow> 'm bot res) \<Rightarrow> 'm bot \<Rightarrow> act \<Rightarrow> 'm bot res" where
  "serial_on_update nd update_act b x = bind_res (current_act nd x) (update_act b)"

definition parallel_on_update :: "('m bot \<Rightarrow> nat \<Rightarrow> 'm bot res) \<Rightarrow> 'm bot \<Rightarrow> nat \<Rightarrow> act \<Rightarrow> 'm bot res" where
  "parallel_on_update update_act b a x = fold_res (\<lambda>b c. bind_res (update_act b c) (\<lambda>b'.
     act_deref b' a (\<lambda>x'. if ae_acts x' = ae_acts x then Inr b' else Inl Undefined))) b (ae_acts x)"

fun act_update :: "bool \<Rightarrow> act_factory \<Rightarrow> nat \<Rightarrow> nat \<Rightarrow> 'm bot \<Rightarrow> nat \<Rightarrow> 'm bot res" where
  "act_update nd F now 0 b a = Inl Undefined"
| "act_update nd F now (Suc n) b a = act_deref b a (\<lambda>x. case ae_kind x of
     K_act_ensure \<Rightarrow> Inr b
   | K_message \<Rightarrow> message_on_update nd F now n b a
   | K_wait_duration \<Rightarrow> wait_on_update nd F now n b a x
   | K_parallel \<Rightarrow> parallel_on_update (act_update nd F now n) b a x
   | _ \<Rightarrow> serial_on_update nd (act_update nd F now n) b x)"

section \<open>Finding acts\<close>

definition is_self :: "bool \<Rightarrow> act \<Rightarrow> string \<Rightarrow> bool res" where
  "is_self nd x path =
     (if is_relative_path path then bind_res (get_last_act nd path) (\<lambda>l. Inr (l = act_name (ae_path x)))
      else Inr (path = full_path (ae_path x)))"

text \<open>\<^verbatim>\<open>find_child\<close> of serial and parallel acts, which have the same; 0 is the null result.\<close>

definition composite_find_child :: "('m bot \<Rightarrow> nat \<Rightarrow> string \<Rightarrow> nat res) \<Rightarrow> 'm bot \<Rightarrow> act \<Rightarrow> string \<Rightarrow> nat res" where
  "composite_find_child find_in b x p =
     bind_res (get_first_act p) (\<lambda>f. bind_res (find_act b (ae_acts x) f 0) (\<lambda>ia. case ia of
       None \<Rightarrow> Inr 0 | Some (_, c) \<Rightarrow> find_in b c p))"

fun act_find :: "bool \<Rightarrow> nat \<Rightarrow> 'm bot \<Rightarrow> nat \<Rightarrow> string \<Rightarrow> nat res" where
  "act_find nd 0 b a path = Inl Undefined"
| "act_find nd (Suc n) b a path = act_deref b a (\<lambda>x.
     let find_child = (\<lambda>p. if ae_kind x \<in> {K_serial, K_flow, K_parallel}
           then composite_find_child (act_find nd n) b x p else Inr 0)
     in if path = [] then Inr 0
        else bind_res (is_self nd x path) (\<lambda>s.
          if s then Inr a
          else if is_absolute_path path then
            (if is_child_of (full_path (ae_path x)) path
             then bind_res (child_path_of (full_path (ae_path x)) path) find_child
             else if ae_parent x \<noteq> 0 then act_find nd n b (ae_parent x) path else Inr 0)
          else play_check nd (is_relative_path path) (bind_res (get_first_act path) (\<lambda>f.
            if f = act_name (ae_path x) then bind_res (child_path path) find_child else find_child path))))"

section \<open>Bots and the ensure app\<close>

definition bot_on_start :: "bool \<Rightarrow> act_factory \<Rightarrow> 'h runner \<Rightarrow> nat \<Rightarrow> 'm bot \<Rightarrow> ('m bot \<times> bool) res" where
  "bot_on_start nd F r now b =
     bind_res (act_create b K_flow 0 (bt_json b) ''flow'' now) (\<lambda>(b1, fa).
       let b2 = b1\<lparr>bt_flow := fa\<rparr> in
       bind_res (activate nd F now (flow_fuel b2) b2 fa) (\<lambda>(b3, rc).
         if rc then
           bind_res (json_read_value get_int (bt_json b3) ''ensure.update_interval'' 200) (\<lambda>interval.
           bind_res (runner_repeat r (bt_id b3) (nat interval)) (\<lambda>t. Inr (b3\<lparr>bt_timer := Some t\<rparr>, True)))
         else Inr (b3, False)))"

definition bot_update :: "bool \<Rightarrow> act_factory \<Rightarrow> nat \<Rightarrow> 'm bot \<Rightarrow> 'm bot res" where
  "bot_update nd F now b = (if bt_flow b = 0 then Inl Undefined else act_update nd F now (flow_fuel b) b (bt_flow b))"

record 'm ensure =
  en_config_file :: string
  en_jconf :: json
  en_runner :: "thread_runner option"
  en_stop :: bool
  en_bot_count :: nat
  en_bot_start_index :: nat
  en_bot_prefix :: string
  en_bots :: "'m bot list"
  en_factory :: act_factory

definition register_default_acts :: "act_factory \<Rightarrow> act_factory" where
  "register_default_acts F = add_creator (add_creator F ''act_message'' K_message) ''act_wait_duration'' K_wait_duration"

text \<open>Decimal printing of an index, as \<^verbatim>\<open>fmt::format\<close> does it.\<close>

fun show_nat :: "nat \<Rightarrow> string" where
  "show_nat n = (if n < 10 then [char_of (48 + n)] else show_nat (n div 10) @ [char_of (48 + n mod 10)])"

declare show_nat.simps [simp del]

text \<open>
  A bot that did not start is dropped at once, and its destructor calls a pure virtual
  function. The second component is the fault the loop ended with, if any.
\<close>

fun start_bots :: "bool \<Rightarrow> 'h runner \<Rightarrow> (nat \<Rightarrow> nat) \<Rightarrow> nat \<Rightarrow> 'm ensure \<Rightarrow> nat list \<Rightarrow> 'm ensure \<times> fault option" where
  "start_bots nd r ids now e [] = (e, None)"
| "start_bots nd r ids now e (i # is) =
     (let index = (en_bot_start_index e + i) mod 2 ^ 64;
          bp = bot_create (ids i) (en_jconf e) (en_bot_prefix e @ show_nat index) index
      in case bot_on_start nd (en_factory e) r now bp of
           Inl f \<Rightarrow> (e, Some f)
         | Inr (bp', rc) \<Rightarrow> if rc then start_bots nd r ids now (e\<lparr>en_bots := en_bots e @ [bp']\<rparr>) is
             else (e, (case actor_destroy (actor_create (ids i) :: (string, act) actor) of Inl f \<Rightarrow> Some f | Inr _ \<Rightarrow> None)))"

text \<open>\<^verbatim>\<open>catch (std::exception&)\<close>: report false and keep the state reached.\<close>

definition catch_false :: "'a res \<Rightarrow> 's \<Rightarrow> ('a \<Rightarrow> ('s \<times> bool) res) \<Rightarrow> ('s \<times> bool) res" where
  "catch_false m s k = (case m of Inr x \<Rightarrow> k x | Inl (Thrown _) \<Rightarrow> Inr (s, False) | Inl f \<Rightarrow> Inl f)"

definition ensure_start :: "bool \<Rightarrow> nat \<Rightarrow> 'h runner \<Rightarrow> (nat \<Rightarrow> nat) \<Rightarrow> nat \<Rightarrow> 'm ensure \<Rightarrow> json \<Rightarrow> ('m ensure \<times> bool) res" where
  "ensure_start nd hw r ids now e jconf =
     (let e0 = e\<lparr>en_stop := False, en_jconf := jconf\<rparr> in
      catch_false (json_read_value get_int jconf ''ensure.concurrency'' (int hw)) e0 (\<lambda>concurrency.
      catch_false (json_read_value get_int jconf ''ensure.port'' 7000) e0 (\<lambda>port.
      let e1 = e0\<lparr>en_factory := register_default_acts (en_factory e0),
                  en_runner := Some (thread_runner_create hw (nat (concurrency mod 2 ^ 32)))\<rparr> in
      catch_false (json_read_value get_int jconf ''ensure.bot_count'' 1) e1 (\<lambda>count.
      let e2 = e1\<lparr>en_bot_count := nat (count mod 2 ^ 64)\<rparr> in
      catch_false (json_read_value get_int jconf ''ensure.bot_start_index'' 1) e2 (\<lambda>start_index.
      let e3 = e2\<lparr>en_bot_start_index := nat (start_index mod 2 ^ 64)\<rparr> in
      catch_false (json_read_value get_string jconf ''ensure.bot_prefix'' ''bot_'') e3 (\<lambda>prefix.
      let e4 = e3\<lparr>en_bot_prefix := prefix\<rparr> in
      case start_bots nd r ids now e4 [0..<en_bot_count e4] of
        (e5, None) \<Rightarrow> Inr (e5, True)
      | (e5, Some f) \<Rightarrow> catch_false (Inl f) e5 (\<lambda>u :: unit. Inr (e5, True))))))))"

text \<open>The overload for a file opens \<^verbatim>\<open>file.json\<close>, whatever it is given.\<close>

definition ensure_start_file :: "(string \<Rightarrow> json option) \<Rightarrow> bool \<Rightarrow> nat \<Rightarrow> 'h runner \<Rightarrow> (nat \<Rightarrow> nat) \<Rightarrow> nat \<Rightarrow> 'm ensure
    \<Rightarrow> string \<Rightarrow> ('m ensure \<times> bool) res" where
  "ensure_start_file read nd hw r ids now e config_file =
     (let e0 = e\<lparr>en_config_file := config_file\<rparr> in
      case read ''file.json'' of None \<Rightarrow> Inr (e0, False) | Some jconf \<Rightarrow> ensure_start nd hw r ids now e0 jconf)"

fun stop_bots :: "bool \<Rightarrow> 'm bot list \<Rightarrow> 'm bot list res" where
  "stop_bots nd [] = Inr []"
| "stop_bots nd (b # bs) = bind_res (bot_on_stop nd (flow_fuel b) b) (\<lambda>b'. bind_res (stop_bots nd bs) (\<lambda>bs'. Inr (b' # bs')))"

definition ensure_stop :: "bool \<Rightarrow> 'm ensure \<Rightarrow> 'm ensure res" where
  "ensure_stop nd e =
     (if en_stop e then Inr e
      else (case en_runner e of
         None \<Rightarrow> Inl Undefined
       | Some t \<Rightarrow> bind_res (stop_bots nd (en_bots e)) (\<lambda>bs.
           Inr (e\<lparr>en_stop := True, en_runner := Some (thread_runner_stop t), en_bots := bs\<rparr>))))"

definition get_bot :: "bool \<Rightarrow> 'm ensure \<Rightarrow> nat \<Rightarrow> 'm bot res" where
  "get_bot nd e i = play_check nd (i < length (en_bots e)) (if i < length (en_bots e) then Inr (en_bots e ! i) else Inl Undefined)"

end
