(* ===== verification/Ensure_Flow.thy ===== *)
theory Ensure_Flow
  imports Ensure
begin

text \<open>
  What a bot does with its flow: a flow of message acts runs its acts one after the other, and
  an act is found by its path. Further down are the cases where jumps, repeated activation,
  waiting and starting do not do what their comments say.
\<close>

section \<open>Lemmas\<close>

lemmas act_class_defs [simp] = serial_on_activate_def parallel_on_activate_def serial_on_deactivate_def
  parallel_on_deactivate_def serial_jump_def parallel_jump_def parallel_jump_child_def parallel_next_def
  message_on_update_def wait_on_update_def serial_on_update_def parallel_on_update_def composite_find_child_def

lemma act_deref_Some [simp]: "bt_acts b a = Some x \<Longrightarrow> a \<noteq> 0 \<Longrightarrow> act_deref b a k = k x"
  by (simp add: act_deref_def)

lemma act_put_sel [simp]:
  "bt_acts (act_put b a x) = (bt_acts b)(a \<mapsto> x)" "bt_next (act_put b a x) = bt_next b"
  "bt_flow (act_put b a x) = bt_flow b" "bt_log (act_put b a x) = bt_log b"
  "bt_json (act_put b a x) = bt_json b" "bt_id (act_put b a x) = bt_id b" "bt_timer (act_put b a x) = bt_timer b"
  by (simp_all add: act_put_def)

lemma act_put_same: "bt_acts b a = Some x \<Longrightarrow> act_put b a x = b"
  by (simp add: act_put_def fun_upd_idem)

lemma inactive_same: "\<not> ae_active y \<Longrightarrow> y\<lparr>ae_active := False\<rparr> = y" for y :: act
  by (cases y) simp

text \<open>The path of an act directly under the flow can always be built.\<close>

lemma path_under_flow: "\<exists>p. build_path [''flow''] name = Inr p"
  by (simp add: build_path_def path_setup_def split_char Let_def)

text \<open>A JSON entry for a message act that asks for the next act when it is done.\<close>

definition next_message :: "json \<Rightarrow> string \<Rightarrow> bool" where
  "next_message j m \<longleftrightarrow>
     json_read_value get_string j ''type'' [] = Inr ''act_message'' \<and>
     (\<exists>n. json_read_value get_string j ''name'' [] = Inr n) \<and>
     json_read_value get_string j ''message'' [] = Inr m \<and>
     (\<exists>jslots jsig. json_index j ''slots'' = Inr (j, jslots) \<and> is_object jslots \<and>
        json_read_value Some jslots ''success'' J_null = Inr jsig \<and> is_object jsig \<and>
        json_read_value get_string jsig ''cmd'' [] = Inr ''next'')"

definition fresh_message :: "act \<Rightarrow> json \<Rightarrow> bool" where
  "fresh_message y j \<longleftrightarrow> ae_kind y = K_message \<and> ae_parent y = 1 \<and> ae_json y = j \<and> \<not> ae_active y \<and> ae_active_count y = 0"

lemma load_messages:
  assumes "list_all2 next_message js ms" and "bt_acts b 1 = Some x" and "ae_name x = ''flow''" and "ae_parent x = 0"
    and "2 \<le> bt_next b" and "F ''act_message'' = Some K_message"
  shows "\<exists>A. load_acts_loop F now b 1 js = Inr (b\<lparr>bt_acts := A, bt_next := bt_next b + length js\<rparr>, True) \<and>
    A 1 = Some (x\<lparr>ae_acts := ae_acts x @ [bt_next b..<bt_next b + length js]\<rparr>) \<and>
    (\<forall>i < length js. \<exists>y. A (bt_next b + i) = Some y \<and> fresh_message y (js ! i)) \<and>
    (\<forall>a. a \<noteq> 1 \<longrightarrow> a < bt_next b \<longrightarrow> A a = bt_acts b a)"
  using assms
proof (induction js ms arbitrary: b x rule: list_all2_induct)
  case Nil
  then show ?case by (intro exI [of _ "bt_acts b"]) simp
next
  case (Cons j js m ms)
  obtain n where r: "json_read_value get_string j ''type'' [] = Inr ''act_message''" "json_read_value get_string j ''name'' [] = Inr n"
    using Cons.hyps(1) by (auto simp: next_message_def)
  obtain p where p: "build_path [''flow''] n = Inr p" using path_under_flow by blast
  obtain k where k: "bt_next b = Suc (Suc k)" using Cons.prems(4) by (metis add_2_eq_Suc le_Suc_ex)
  have an: "ancestor_names b (bt_next b) 1 = Inr [''flow'']" using Cons.prems(1-3) by (simp add: k)
  define y where "y = \<lparr>ae_kind = K_message, ae_name = n, ae_parent = 1, ae_path = p, ae_json = j, ae_active = False,
     ae_active_count = 0, ae_stop_watch = \<lparr>sw_start = now\<rparr>, ae_duration = 0, ae_acts = [], ae_current = 0\<rparr>"
  define x1 where "x1 = x\<lparr>ae_acts := ae_acts x @ [bt_next b]\<rparr>"
  define b1 where "b1 = act_put (b\<lparr>bt_acts := (bt_acts b)(bt_next b \<mapsto> y), bt_next := Suc (bt_next b)\<rparr>) 1 x1"
  have step: "load_acts_loop F now b 1 (j # js) = load_acts_loop F now b1 1 js"
    using Cons.prems k by (simp add: r factory_create_def act_create_def an p act_deref_def y_def x1_def b1_def)
  have b1: "bt_acts b1 1 = Some x1" "ae_name x1 = ''flow''" "ae_parent x1 = 0" "2 \<le> bt_next b1" "bt_next b1 = Suc (bt_next b)"
    using Cons.prems by (simp_all add: b1_def x1_def)
  obtain A where A: "load_acts_loop F now b1 1 js = Inr (b1\<lparr>bt_acts := A, bt_next := bt_next b1 + length js\<rparr>, True)"
    "A 1 = Some (x1\<lparr>ae_acts := ae_acts x1 @ [bt_next b1..<bt_next b1 + length js]\<rparr>)"
    "\<forall>i < length js. \<exists>y. A (bt_next b1 + i) = Some y \<and> fresh_message y (js ! i)"
    "\<forall>a. a \<noteq> 1 \<longrightarrow> a < bt_next b1 \<longrightarrow> A a = bt_acts b1 a"
    using Cons.IH [OF b1(1-4) Cons.prems(5)] by blast
  have "A (bt_next b + i) = Some y' \<and> fresh_message y' ((j # js) ! i)" if "i = 0" "y' = y" for i y'
    using that A(4) b1(5) Cons.prems(4) by (simp add: b1_def y_def fresh_message_def)
  then have "\<exists>y. A (bt_next b + i) = Some y \<and> fresh_message y ((j # js) ! i)" if "i < length (j # js)" for i
    using that A(3) b1(5) by (cases i) auto
  moreover have "A a = bt_acts b a" if "a \<noteq> 1" "a < bt_next b" for a
    using that A(4) b1(5) by (simp add: b1_def)
  moreover have "A 1 = Some (x\<lparr>ae_acts := ae_acts x @ [bt_next b..<bt_next b + length (j # js)]\<rparr>)"
    using A(2) b1(5) by (simp add: x1_def upt_rec)
  ultimately show ?case using A(1) b1(5) unfolding step by (intro exI [of _ A]) (simp add: b1_def act_put_def)
qed

text \<open>
  The state of a bot whose flow of messages has been updated \<open>k\<close> times: up to the last act,
  exactly the act \<open>k\<close> is active; after it none is.
\<close>

definition flow_at :: "'m bot \<Rightarrow> json list \<Rightarrow> string list \<Rightarrow> nat \<Rightarrow> bool" where
  "flow_at b js ms k \<longleftrightarrow> bt_flow b = 1 \<and> bt_next b = length js + 2 \<and> bt_log b = take (Suc k) ms \<and>
     (\<exists>x. bt_acts b 1 = Some x \<and> ae_kind x = K_flow \<and> ae_acts x = [2..<length js + 2] \<and> ae_active x \<and>
        ae_current x = min k (length js - 1)) \<and>
     (\<forall>i < length js. \<exists>y. bt_acts b (2 + i) = Some y \<and> ae_kind y = K_message \<and> ae_parent y = 1 \<and> ae_json y = js ! i \<and>
        ae_active y = (i = k) \<and> ae_active_count y = (if i \<le> k then 1 else 0))"

lemma flow_at_first:
  assumes "list_all2 next_message js ms" and "js \<noteq> []" and "F ''act_message'' = Some K_message"
    and "bt_acts b = Map.empty" and "bt_next b = 1" and "bt_log b = []" and "bt_json b = J_object m"
    and "map_of m ''flow'' = Some (J_array js)"
    and "json_read_value get_int (bt_json b) ''ensure.update_interval'' 200 = Inr interval" and "rn_strands r > 0"
  shows "\<exists>b'. bot_on_start nd F r now b = Inr (b', True) \<and> flow_at b' js ms 0 \<and>
    bt_timer b' = Some (service_repeat_strand (bt_id b mod rn_strands r) (nat interval))"
proof -
  obtain p where p: "build_path [] ''flow'' = Inr p" by (simp add: build_path_def path_setup_def split_char Let_def)
  define x where "x = \<lparr>ae_kind = K_flow, ae_name = ''flow'', ae_parent = 0, ae_path = p, ae_json = bt_json b, ae_active = False,
     ae_active_count = 0, ae_stop_watch = \<lparr>sw_start = now\<rparr>, ae_duration = 0, ae_acts = [], ae_current = 0\<rparr>"
  define b2 where "b2 = b\<lparr>bt_acts := [1 \<mapsto> x], bt_next := 2, bt_flow := 1\<rparr>"
  have create: "act_create b K_flow 0 (bt_json b) ''flow'' now = Inr (b\<lparr>bt_acts := [1 \<mapsto> x], bt_next := 2\<rparr>, 1)"
    using assms(4,5) p by (simp add: act_create_def x_def numeral_2_eq_2)
  obtain A where A: "load_acts_loop F now b2 1 js = Inr (b2\<lparr>bt_acts := A, bt_next := 2 + length js\<rparr>, True)"
    "A 1 = Some (x\<lparr>ae_acts := [2..<2 + length js]\<rparr>)" "\<forall>i < length js. \<exists>y. A (2 + i) = Some y \<and> fresh_message y (js ! i)"
    using load_messages [OF assms(1), of b2 x F now] assms(3) by (auto simp: b2_def x_def)
  define b3 where "b3 = b2\<lparr>bt_acts := A, bt_next := 2 + length js\<rparr>"
  have load: "load_acts nd F now b2 1 = Inr (b3, True)"
    using A(1) assms(7,8) by (simp add: load_acts_def b2_def x_def json_index_const_def b3_def)
  obtain y where y: "A 2 = Some y" "fresh_message y (js ! 0)" using A(3) assms(2) by fastforce
  have msg: "json_read_value get_string (js ! 0) ''message'' [] = Inr (ms ! 0)" and ne: "ms \<noteq> []"
    using assms(1,2) by (auto simp: next_message_def list_all2_conv_all_nth)
  obtain n where n: "flow_fuel b2 = Suc (Suc n)" by (simp add: flow_fuel_def)
  define y1 where "y1 = y\<lparr>ae_active := True, ae_active_count := 1\<rparr>"
  define x1 where "x1 = x\<lparr>ae_acts := [2..<2 + length js], ae_active := True, ae_active_count := 1\<rparr>"
  define b4 where "b4 = act_put (act_put (b3\<lparr>bt_log := [ms ! 0]\<rparr>) 2 y1) 1 x1"
  have "current_act nd (x\<lparr>ae_acts := [2..<2 + length js]\<rparr>) = Inr 2"
    using assms(2) by (simp add: current_act_def x_def del: upt_Suc)
  moreover have "[2..<2 + length js] ! 0 = 2" "[2..<2 + length js] \<noteq> []" using assms(2) by (simp_all del: upt_Suc)
  moreover have "activate nd F now (Suc n) b3 2 = Inr (act_put (b3\<lparr>bt_log := [ms ! 0]\<rparr>) 2 y1, True)"
    using y msg assms(6) by (simp add: b3_def b2_def fresh_message_def message_on_activate_def y1_def)
  ultimately have "activate nd F now (flow_fuel b2) b2 1 = Inr (b4, True)"
    using load A(2) unfolding n by (simp add: b2_def x_def x1_def b4_def b3_def act_deref_def)
  then have start: "bot_on_start nd F r now b =
      Inr (b4\<lparr>bt_timer := Some (service_repeat_strand (bt_id b mod rn_strands r) (nat interval))\<rparr>, True)"
    using create assms(9,10) by (simp add: bot_on_start_def b2_def b4_def b3_def runner_repeat_def get_strand_def)
  have "\<exists>y. bt_acts b4 (2 + i) = Some y \<and> ae_kind y = K_message \<and> ae_parent y = 1 \<and> ae_json y = js ! i \<and>
      ae_active y = (i = 0) \<and> ae_active_count y = (if i \<le> 0 then 1 else 0)" if "i < length js" for i
    using that A(3) y by (cases "i = 0") (auto simp: b4_def b3_def y1_def fresh_message_def)
  then have "flow_at b4 js ms 0"
    using ne by (simp add: flow_at_def b4_def b3_def b2_def x1_def x_def add.commute take_Suc hd_conv_nth)
  then show ?thesis using start by (simp add: flow_at_def)
qed

lemma flow_fuel_ge: "flow_at b js ms k \<Longrightarrow> js \<noteq> [] \<Longrightarrow> \<exists>n. flow_fuel b = Suc (Suc (Suc (Suc (Suc n))))"
  by (cases js) (auto simp: flow_at_def flow_fuel_def)

text \<open>One update: the current act signals success, and the flow moves on.\<close>

lemma message_update:
  assumes "flow_at b js ms k" and "next_message (js ! i) m" and "i = min k (length js - 1)" and "js \<noteq> []"
  shows "act_update nd F now (Suc (Suc (Suc (Suc (Suc n))))) b 1 = serial_next nd F now (Suc n) b 1"
proof -
  obtain x where x: "bt_acts b 1 = Some x" "ae_kind x = K_flow" "ae_acts x = [2..<length js + 2]" "ae_current x = i"
    using assms(1,3) by (auto simp: flow_at_def)
  have i: "i < length js" using assms(3,4) by (cases js) auto
  obtain y where y: "bt_acts b (2 + i) = Some y" "ae_kind y = K_message" "ae_parent y = 1" "ae_json y = js ! i"
    using assms(1) i by (auto simp: flow_at_def)
  obtain jslots jsig where j: "json_index (js ! i) ''slots'' = Inr (js ! i, jslots)" "is_object jslots"
    "json_read_value Some jslots ''success'' J_null = Inr jsig" "is_object jsig"
    "json_read_value get_string jsig ''cmd'' [] = Inr ''next''"
    using assms(2) by (auto simp: next_message_def)
  have cur: "current_act nd x = Inr (2 + i)" using x i by (simp add: current_act_def del: upt_Suc)
  have same: "act_put b (2 + i) (y\<lparr>ae_json := js ! i\<rparr>) = b" using y by (simp add: act_put_same)
  show ?thesis using x y j cur same by (simp add: signal_def Let_def del: act_put_sel)
qed

lemma flow_at_next:
  assumes "flow_at b js ms k" and "list_all2 next_message js ms" and "js \<noteq> []"
  shows "\<exists>b'. serial_next nd F now (Suc n) b 1 = Inr b' \<and> flow_at b' js ms (Suc k)"
proof -
  define i where "i = min k (length js - 1)"
  have i: "i < length js" using assms(3) by (cases js) (auto simp: i_def)
  obtain x where x: "bt_acts b 1 = Some x" "ae_kind x = K_flow" "ae_acts x = [2..<length js + 2]" "ae_current x = i" "ae_active x"
    using assms(1) by (auto simp: flow_at_def i_def)
  have acts: "\<forall>i < length js. \<exists>y. bt_acts b (2 + i) = Some y \<and> ae_kind y = K_message \<and> ae_parent y = 1 \<and> ae_json y = js ! i \<and>
        ae_active y = (i = k) \<and> ae_active_count y = (if i \<le> k then 1 else 0)"
    using assms(1) by (auto simp: flow_at_def)
  obtain y where y: "bt_acts b (2 + i) = Some y" "ae_kind y = K_message" "ae_parent y = 1" "ae_json y = js ! i"
      "ae_active y = (i = k)" "ae_active_count y = (if i \<le> k then 1 else 0)"
    using acts i by blast
  have len: "length ms = length js" using assms(2) by (simp add: list_all2_lengthD)
  define b1 where "b1 = act_put b (2 + i) (y\<lparr>ae_active := False\<rparr>)"
  have de: "deactivate nd (Suc n) b (2 + i) = Inr b1"
    using y by (cases "i = k") (auto simp: b1_def inactive_same act_put_same)
  have cur: "current_act nd x = Inr (2 + i)" using x i by (simp add: current_act_def del: upt_Suc)
  have b1: "bt_acts b1 1 = Some x" using x by (simp add: b1_def)
  show ?thesis
  proof (cases "Suc i \<ge> length js")
    case True
    then have k: "i = length js - 1" "length js \<le> Suc k" using i by (auto simp: i_def)
    have "serial_next nd F now (Suc n) b 1 = Inr b1" using x cur de b1 True by (simp add: serial_next_def del: upt_Suc)
    moreover have "flow_at b1 js ms (Suc k)"
      using assms(1) k y i len x unfolding flow_at_def b1_def by (auto simp: nth_Cons')
    ultimately show ?thesis by blast
  next
    case False
    then have k: "i = k" "Suc k < length js" using i by (auto simp: i_def)
    obtain z where z: "bt_acts b (2 + Suc k) = Some z" "ae_kind z = K_message" "ae_parent z = 1" "ae_json z = js ! Suc k"
        "\<not> ae_active z" "ae_active_count z = 0"
      using acts k(2) by fastforce
    define x1 where "x1 = x\<lparr>ae_current := Suc k\<rparr>"
    define z1 where "z1 = z\<lparr>ae_active := True, ae_active_count := 1\<rparr>"
    define b2 where "b2 = act_put b1 1 x1"
    define b3 where "b3 = act_put (b2\<lparr>bt_log := bt_log b @ [ms ! Suc k]\<rparr>) (2 + Suc k) z1"
    have msg: "json_read_value get_string (js ! Suc k) ''message'' [] = Inr (ms ! Suc k)"
      using assms(2) k(2) by (auto simp: next_message_def list_all2_conv_all_nth)
    have cur1: "current_act nd x1 = Inr (2 + Suc k)" using x k by (simp add: current_act_def x1_def del: upt_Suc)
    have "activate nd F now (Suc n) b2 (2 + Suc k) = Inr (b3, True)"
      using z msg k by (simp add: b2_def b1_def x1_def message_on_activate_def b3_def z1_def)
    then have "serial_next nd F now (Suc n) b 1 = Inr b3"
      using x cur cur1 de b1 k by (simp add: serial_next_def move_to_def Let_def b2_def x1_def)
    moreover have "flow_at b3 js ms (Suc k)"
    proof -
      have "\<exists>y. bt_acts b3 (2 + l) = Some y \<and> ae_kind y = K_message \<and> ae_parent y = 1 \<and> ae_json y = js ! l \<and>
          ae_active y = (l = Suc k) \<and> ae_active_count y = (if l \<le> Suc k then 1 else 0)" if "l < length js" for l
        using that acts y z k by (cases "l = k"; cases "l = Suc k") (auto simp: b3_def b2_def b1_def z1_def le_Suc_eq)
      moreover have "take (Suc (Suc k)) ms = take (Suc k) ms @ [ms ! Suc k]" using k len by (simp add: take_Suc_conv_app_nth)
      ultimately show ?thesis
        using assms(1) x k by (simp add: flow_at_def b3_def b2_def b1_def x1_def)
    qed
    ultimately show ?thesis by blast
  qed
qed

lemma flow_at_update:
  assumes "flow_at b js ms k" and "list_all2 next_message js ms" and "js \<noteq> []"
  shows "\<exists>b'. bot_update nd F now b = Inr b' \<and> flow_at b' js ms (Suc k)"
proof -
  obtain n where n: "flow_fuel b = Suc (Suc (Suc (Suc (Suc n))))" using flow_fuel_ge assms(1,3) by blast
  have i: "min k (length js - 1) < length js" using assms(3) by (cases js) auto
  then have "next_message (js ! min k (length js - 1)) (ms ! min k (length js - 1))"
    using assms(2) by (auto simp: list_all2_conv_all_nth)
  then show ?thesis
    using message_update [OF assms(1) _ refl assms(3)] flow_at_next [OF assms] assms(1) n
    by (simp add: bot_update_def flow_at_def)
qed

lemma flow_at_updates:
  assumes "flow_at b js ms k" and "list_all2 next_message js ms" and "js \<noteq> []"
  shows "\<exists>b'. fold_res (\<lambda>b now. bot_update nd F now b) b nows = Inr b' \<and>
    flow_at b' js ms (k + length nows)"
  using assms(1)
proof (induction nows arbitrary: b k)
  case (Cons t ts)
  obtain b1 where "bot_update nd F t b = Inr b1" "flow_at b1 js ms (Suc k)"
    using flow_at_update [OF Cons.prems assms(2,3)] by blast
  then show ?case using Cons.IH [of b1 "Suc k"] by simp
qed simp

text \<open>
  The way down from an act along names: each name is the first act of that name among the acts
  of a composite.
\<close>

definition composite :: "act \<Rightarrow> bool" where
  "composite x \<longleftrightarrow> ae_kind x \<in> {K_serial, K_flow, K_parallel}"

fun act_chain :: "'m bot \<Rightarrow> nat \<Rightarrow> string list \<Rightarrow> nat \<Rightarrow> bool" where
  "act_chain b a [] c \<longleftrightarrow> a = c"
| "act_chain b a (n # ns) c \<longleftrightarrow> (\<exists>x i d y. bt_acts b a = Some x \<and> composite x \<and>
     find_act b (ae_acts x) n 0 = Inr (Some (i, d)) \<and> d \<noteq> 0 \<and> bt_acts b d = Some y \<and> act_name (ae_path y) = n \<and>
     act_chain b d ns c)"

lemma find_below:
  assumes "act_chain b d ns c" and "bt_acts b d = Some y" and "act_name (ae_path y) = n" and "d \<noteq> 0"
    and "list_all path_name (n # ns)" and "last (n # ns) \<notin> set (butlast (n # ns))"
  shows "act_find nd (length ns + Suc k) b d (join slash (n # ns)) = Inr c"
  using assms
proof (induction ns arbitrary: d n y)
  case Nil
  then show ?case
    using relative_join [of "[n]"] last_act_join [of "[n]" nd] by (simp add: is_self_def path_name_def)
next
  case (Cons m ms)
  from Cons.prems(1,2) obtain i e z where e: "composite y" "find_act b (ae_acts y) m 0 = Inr (Some (i, e))" "e \<noteq> 0"
    "bt_acts b e = Some z" "act_name (ae_path z) = m" "act_chain b e ms c"
    by auto
  have names: "list_all path_name (n # m # ms)" "list_all path_name (m # ms)" using Cons.prems(5) by simp_all
  have "n \<noteq> last (m # ms)" using Cons.prems(6) by (auto split: if_splits)
  then have "is_self nd y (join slash (n # m # ms)) = Inr False"
    using relative_join [OF names(1)] last_act_join [OF names(1), of nd] Cons.prems(3) by (auto simp: is_self_def)
  moreover have "\<not> is_absolute_path (join slash (n # m # ms))" "join slash (n # m # ms) \<noteq> []"
    using relative_join [OF names(1)] by (auto simp: is_relative_path_def is_absolute_path_def)
  moreover have "act_find nd (length ms + Suc k) b e (join slash (m # ms)) = Inr c"
    using Cons.IH [OF e(6,4,5,3) names(2)] Cons.prems(6) by (simp split: if_splits)
  ultimately show ?case
    using Cons.prems(2-4) relative_join [OF names(1)] first_act_join [OF names(1)] first_act_join [OF names(2)]
      pop_head_join [OF names(1)] e(1,2)
    by (simp add: child_path_def composite_def Let_def del: join.simps)
qed

section \<open>Properties\<close>

text \<open>
  C17. A flow of message acts runs its acts in order. Starting the bot loads the acts and
  activates the first; each update deactivates the current act and activates the next, so that
  after \<open>k\<close> updates exactly the act \<open>k\<close> is active, every act up to it was activated once, and
  the messages so far were shown in order. After the last act nothing is active. Neither the
  start nor an update fails.
\<close>

theorem message_flow_runs_in_order:
  assumes "list_all2 next_message js ms" and "js \<noteq> []" and "F ''act_message'' = Some K_message"
    and "map_of m ''flow'' = Some (J_array js)"
    and "json_read_value get_int (J_object m) ''ensure.update_interval'' 200 = Inr interval" and "rn_strands r > 0"
  shows "\<exists>(b :: 'm bot) b'. bot_on_start nd F r now (bot_create i (J_object m) name index) = Inr (b, True) \<and>
    fold_res (\<lambda>b now. bot_update nd F now b) b nows = Inr b' \<and> flow_at b' js ms (length nows)"
proof -
  obtain b :: "'m bot" where b: "bot_on_start nd F r now (bot_create i (J_object m) name index) = Inr (b, True)" "flow_at b js ms 0"
    using flow_at_first [where js = js and ms = ms and F = F and b = "bot_create i (J_object m) name index" and m = m and
        interval = interval and r = r and nd = nd and now = now] assms
    by (auto simp: bot_create_def)
  then show ?thesis using flow_at_updates [OF b(2) assms(1,2), of nd F nows] by auto
qed

definition demo_message :: "string \<Rightarrow> string \<Rightarrow> json" where
  "demo_message n m = J_object [(''type'', J_string ''act_message''), (''name'', J_string n), (''message'', J_string m),
     (''slots'', J_object [(''success'', J_object [(''cmd'', J_string ''next'')])])]"

lemma read_simple: "split path ''.'' = [path] \<Longrightarrow> json_read j path = Inr (if json_contains j path then json_at j path else J_null)"
  by (simp add: json_read_def)

lemma demo_message_next: "next_message (demo_message n m) m"
  by (simp add: next_message_def demo_message_def json_read_value_def read_simple split_char json_contains_def
      json_at_def json_index_def)

abbreviation demo_flow :: "(string \<times> json) list" where
  "demo_flow \<equiv> [(''flow'', J_array [demo_message ''a'' ''x'', demo_message ''b'' ''y''])]"

abbreviation demo_factory :: act_factory where
  "demo_factory \<equiv> [''act_message'' \<mapsto> K_message]"

lemma demo_interval: "json_read_value get_int (J_object demo_flow) ''ensure.update_interval'' 200 = Inr 200"
proof -
  have "split (join (CHR ''.'') [''ensure'', ''update_interval'']) ''.'' = [''ensure'', ''update_interval'']"
    by (rule split_join) auto
  then show ?thesis by (simp add: json_read_value_def json_read_def json_contains_def)
qed

theorem message_flow_runs_in_order_witness:
  "\<exists>b b' :: nat bot. bot_on_start False demo_factory (runner_create ''ensure'' 64 :: nat runner) 0
      (bot_create 7 (J_object demo_flow) ''bot_1'' 1) = Inr (b, True) \<and>
    fold_res (\<lambda>b now. bot_update False demo_factory now b) b [200] = Inr b' \<and> bt_log b' = [''x'', ''y'']"
proof -
  have "\<exists>b b' :: nat bot. bot_on_start False demo_factory (runner_create ''ensure'' 64 :: nat runner) 0
      (bot_create 7 (J_object demo_flow) ''bot_1'' 1) = Inr (b, True) \<and>
    fold_res (\<lambda>b now. bot_update False demo_factory now b) b [200] = Inr b' \<and>
    flow_at b' [demo_message ''a'' ''x'', demo_message ''b'' ''y''] [''x'', ''y''] (length [200 :: nat])"
    by (rule message_flow_runs_in_order [where interval = 200]) (simp_all add: demo_message_next demo_interval runner_create_def del: fold_res.simps)
  then obtain b b' :: "nat bot" where b: "bot_on_start False demo_factory (runner_create ''ensure'' 64 :: nat runner) 0
      (bot_create 7 (J_object demo_flow) ''bot_1'' 1) = Inr (b, True)"
    "fold_res (\<lambda>b now. bot_update False demo_factory now b) b [200] = Inr b'"
    "flow_at b' [demo_message ''a'' ''x'', demo_message ''b'' ''y''] [''x'', ''y''] (length [200 :: nat])"
    by blast
  then have "bt_log b' = [''x'', ''y'']" unfolding flow_at_def by simp
  then show ?thesis using b(1,2) by blast
qed

text \<open>
  The timer a bot starts for its updates fires once: it repeats on the strand of the bot,
  and a repeating timer on a strand is not armed again. However many completions one waits for,
  the flow is updated once, whatever the update does.
\<close>

theorem bot_updates_once:
  assumes "bot_on_start nd F r now b = Inr (b', True)" and "\<And>u. tm_waits (handler u) = tm_waits u"
  shows "\<exists>t t'. bt_timer b' = Some t \<and> timer_run handler t (Suc n) = Inr (t', 1) \<and> tm_waits t' = []"
proof -
  obtain key ms t where t: "runner_repeat r key ms = Inr t" "bt_timer b' = Some t"
    using assms(1) by (auto simp: bot_on_start_def bind_res_eq_Inr Let_def split: if_splits)
  then have "tm_waits (handler (t\<lparr>tm_waits := []\<rparr>)) = []" "tm_waits t = [Wait_handler]" "tm_alive t"
    using assms(2) by (auto simp: timer_defs get_strand_def Let_def split: if_splits)
  then have "timer_run handler t (Suc n) = Inr (handler (t\<lparr>tm_waits := []\<rparr>), 1)"
    using timer_run_idle [of "handler (t\<lparr>tm_waits := []\<rparr>)" handler n] by (simp add: timer_fire_def)
  then show ?thesis using t assms(2) by auto
qed

lemma demo_bot_start:
  "\<exists>b :: nat bot. bot_on_start False demo_factory (runner_create ''ensure'' 64 :: nat runner) 0
     (bot_create 7 (J_object demo_flow) ''bot_1'' 1) = Inr (b, True)"
proof -
  have "\<exists>b' :: nat bot. bot_on_start False demo_factory (runner_create ''ensure'' 64 :: nat runner) 0
      (bot_create 7 (J_object demo_flow) ''bot_1'' 1) = Inr (b', True) \<and>
    flow_at b' [demo_message ''a'' ''x'', demo_message ''b'' ''y''] [''x'', ''y''] 0 \<and>
    bt_timer b' = Some (service_repeat_strand (bt_id (bot_create 7 (J_object demo_flow) ''bot_1'' 1 :: nat bot) mod
      rn_strands (runner_create ''ensure'' 64 :: nat runner)) (nat 200))"
    by (rule flow_at_first [where m = demo_flow and interval = 200]) (simp_all add: demo_message_next demo_interval runner_create_def bot_create_def)
  then show ?thesis by blast
qed

theorem bot_updates_once_witness:
  "\<exists>(b :: nat bot) t t'. bot_on_start False demo_factory (runner_create ''ensure'' 64 :: nat runner) 0
      (bot_create 7 (J_object demo_flow) ''bot_1'' 1) = Inr (b, True) \<and>
    bt_timer b = Some t \<and> timer_run (\<lambda>t. t) t (Suc 9) = Inr (t', 1)"
proof -
  obtain b :: "nat bot" where b: "bot_on_start False demo_factory (runner_create ''ensure'' 64 :: nat runner) 0
      (bot_create 7 (J_object demo_flow) ''bot_1'' 1) = Inr (b, True)"
    using demo_bot_start by blast
  then show ?thesis using bot_updates_once [OF b, of "\<lambda>t. t" 9] by blast
qed


text \<open>A flow (1) with a serial act (2) that holds two message acts (3 and 4).\<close>

definition demo_act :: "act_kind \<Rightarrow> string \<Rightarrow> nat \<Rightarrow> string list \<Rightarrow> nat list \<Rightarrow> act" where
  "demo_act k n parent ns cs = \<lparr>ae_kind = k, ae_name = n, ae_parent = parent,
     ae_path = \<lparr>full_path = slash # join slash ns, parts = ns, act_name = n\<rparr>, ae_json = J_null, ae_active = False,
     ae_active_count = 0, ae_stop_watch = \<lparr>sw_start = 0\<rparr>, ae_duration = 0, ae_acts = cs, ae_current = 0\<rparr>"

definition demo_tree :: "nat bot" where
  "demo_tree = (bot_create 7 J_null ''bot_1'' 1)\<lparr>bt_flow := 1, bt_next := 5, bt_acts :=
     [1 \<mapsto> demo_act K_flow ''flow'' 0 [''flow''] [2], 2 \<mapsto> demo_act K_serial ''s1'' 1 [''flow'', ''s1''] [3, 4],
      3 \<mapsto> demo_act K_message ''m1'' 2 [''flow'', ''s1'', ''m1''] [], 4 \<mapsto> demo_act K_message ''m2'' 2 [''flow'', ''s1'', ''m2''] []]\<rparr>"


text \<open>
  A jump is lost or throws when paths share a prefix of characters. A serial act that is
  asked to jump to a path one character longer than its own, the path of a sibling, takes it
  for one of its own and does nothing; asked to jump to its own path, to start over, it throws.
\<close>

theorem jump_to_prefix_sibling_is_lost:
  assumes "bt_acts b a = Some x" and "a \<noteq> 0" and "ae_kind x = K_serial \<or> ae_kind x = K_flow"
    and "is_absolute_path (full_path (ae_path x))" and "find_act b (ae_acts x) [] 0 = Inr None"
  shows "jump nd F now (Suc n) b a (full_path (ae_path x) @ [ch]) = Inr b \<and>
    jump nd F now (Suc n) b a (full_path (ae_path x)) = Inl (Thrown Std_exception)"
proof -
  let ?p = "full_path (ae_path x)"
  have "?p \<noteq> []" "\<not> is_relative_path ?p" "\<not> is_relative_path (?p @ [ch])"
    using assms(4) by (auto simp: is_absolute_path_def is_relative_path_def nth_append)
  moreover have "is_child_of ?p ?p" "child_path_of ?p ?p = Inl (Thrown Std_exception)"
    "is_child_of ?p (?p @ [ch])" "child_path_of ?p (?p @ [ch]) = Inr []"
    by (simp_all add: is_child_of_def child_path_of_def substr_from_def)
  moreover have "serial_jump_child nd F now n b a [] = Inr b"
    using assms(1,2,5) by (simp add: serial_jump_child_def get_first_act_def)
  ultimately show ?thesis using assms(1-3) by (auto simp: Let_def)
qed

theorem jump_to_prefix_sibling_is_lost_witness:
  "jump False demo_factory 0 (Suc 5) demo_tree 2 ''/flow/s10'' = Inr demo_tree"
  using jump_to_prefix_sibling_is_lost [of demo_tree 2 "demo_act K_serial ''s1'' 1 [''flow'', ''s1''] [3, 4]" False demo_factory 0 5 "CHR ''0''"]
  by (simp add: demo_tree_def demo_act_def is_absolute_path_def act_deref_def del: jump.simps)

text \<open>
  A serial act that has moved on from its first act cannot be activated again: the check
  that it starts with the first act fails, since nothing resets the current act.
\<close>

theorem serial_reactivation_aborts:
  assumes "bt_acts b a = Some x" and "a \<noteq> 0" and "\<not> ae_active x" and "ae_kind x = K_serial"
    and "load_acts False F now b a = Inr (b', True)" and "bt_acts b' a = Some y"
    and "0 < ae_current y" and "ae_current y < length (ae_acts y)" and "distinct (ae_acts y)"
  shows "activate False F now (Suc n) b a = Inl Check_failed"
proof -
  have "ae_acts y ! ae_current y \<noteq> ae_acts y ! 0"
    using assms(7-9) by (subst nth_eq_iff_index_eq) auto
  then show ?thesis using assms by (auto simp: current_act_def)
qed

definition demo_moved :: "nat bot" where
  "demo_moved = (bot_create 7 J_null ''bot_1'' 1)\<lparr>bt_next := 4, bt_acts :=
     [1 \<mapsto> (demo_act K_serial ''s1'' 0 [''s1''] [2, 3])\<lparr>ae_json := J_object [(''flow'', J_array [])], ae_current := 1\<rparr>,
      2 \<mapsto> demo_act K_message ''m1'' 1 [''s1'', ''m1''] [], 3 \<mapsto> demo_act K_message ''m2'' 1 [''s1'', ''m2''] []]\<rparr>"

theorem serial_reactivation_aborts_witness: "activate False demo_factory 0 (Suc 5) demo_moved 1 = Inl Check_failed"
  by (rule serial_reactivation_aborts [where b' = demo_moved and y = "the (bt_acts demo_moved 1)" and x = "the (bt_acts demo_moved 1)"])
    (simp_all add: demo_moved_def demo_act_def load_acts_def json_index_const_def)

text \<open>
  \<^verbatim>\<open>act_wait_duration\<close> does not wait: whatever duration its JSON gives, the act as it is
  created signals success at the first update, at any time.
\<close>

theorem wait_duration_does_not_wait:
  assumes "act_create b K_wait_duration parent json name now = Inr (b', a)" and "bt_next b \<noteq> 0"
  shows "act_update nd F later (Suc n) b' a = signal nd F later n b' a ''success''"
  using assms by (auto simp: act_create_def bind_res_eq_Inr act_deref_def)

theorem wait_duration_does_not_wait_witness:
  "act_update False demo_factory 0 (Suc 9) (fst (projr (act_create demo_tree K_wait_duration 1 (J_object [(''duration'', J_int 5000)]) ''w'' 0))) 5 =
   signal False demo_factory 0 9 (fst (projr (act_create demo_tree K_wait_duration 1 (J_object [(''duration'', J_int 5000)]) ''w'' 0))) 5 ''success''"
proof -
  obtain p where p: "build_path [''flow''] ''w'' = Inr p" using path_under_flow by blast
  have an: "ancestor_names demo_tree 5 1 = Inr [''flow'']"
    by (simp add: numeral_eq_Suc demo_tree_def demo_act_def act_deref_def)
  obtain b' where b': "act_create demo_tree K_wait_duration 1 (J_object [(''duration'', J_int 5000)]) ''w'' 0 = Inr (b', 5)"
    using an p by (simp add: act_create_def demo_tree_def)
  show ?thesis using wait_duration_does_not_wait [OF b', of False demo_factory 0 9] b' by (simp add: demo_tree_def del: act_update.simps)
qed

end
