(* ===== verification/Alpha_Base.thy ===== *)
theory Alpha_Base
  imports Ensure
begin

text \<open>
  \<^verbatim>\<open>play/sample/alpha\<close>, what its services share: the topics and error codes of
  \<^verbatim>\<open>share/fb\<close>, the frames (the native tables of \<^verbatim>\<open>auth.fbs\<close> and
  \<^verbatim>\<open>room.fbs\<close>), the callbacks its pulses hold, and the state of one process. The sample
  is a chat server made of a back end (who is logged in, which rooms there are) and front ends
  (the lobby and the rooms), which talk through pulses.

  A handler is a function on the process state that takes a session pointer (0 is null) and a
  frame pointer. \<^verbatim>\<open>static_pointer_cast\<close> of a frame of another type is undefined. A
  callback names the handler and the actor it belongs to. Ids of actors are handed out in
  order; a random uuid is a function of the actor's id.
\<close>

section \<open>Topics, errors and frames\<close>

datatype alpha_topic =
    auth_req_login
  | auth_req_login_f2b
  | auth_syn_login_b2f
  | auth_res_login
  | auth_req_logout
  | auth_req_logout_f2b
  | auth_syn_logout_b2f
  | auth_res_logout_b2f
  | auth_res_logout
  | room_syn_runner_up
  | room_req_create
  | room_req_create_f2b
  | room_req_create_b2f
  | room_res_create_f2b
  | room_res_create_b2f
  | room_res_create
  | room_req_page
  | room_req_page_f2b
  | room_res_page_b2f
  | room_res_page
  | room_req_reserve
  | room_req_reserve_f2b
  | room_req_reserve_b2f
  | room_res_reserve_f2b
  | room_res_reserve_b2f
  | room_res_reserve
  | room_req_checkin
  | room_res_checkin
  | room_req_chat
  | room_res_chat
  | room_syn_chat
  | room_req_leave
  | room_syn_leave_f2b
  | room_res_leave

fun topic_value :: "alpha_topic \<Rightarrow> topic" where
  "topic_value auth_req_login = 201"
| "topic_value auth_req_login_f2b = 202"
| "topic_value auth_syn_login_b2f = 203"
| "topic_value auth_res_login = 204"
| "topic_value auth_req_logout = 205"
| "topic_value auth_req_logout_f2b = 206"
| "topic_value auth_syn_logout_b2f = 207"
| "topic_value auth_res_logout_b2f = 208"
| "topic_value auth_res_logout = 209"
| "topic_value room_syn_runner_up = 301"
| "topic_value room_req_create = 302"
| "topic_value room_req_create_f2b = 303"
| "topic_value room_req_create_b2f = 304"
| "topic_value room_res_create_f2b = 305"
| "topic_value room_res_create_b2f = 306"
| "topic_value room_res_create = 307"
| "topic_value room_req_page = 308"
| "topic_value room_req_page_f2b = 309"
| "topic_value room_res_page_b2f = 310"
| "topic_value room_res_page = 311"
| "topic_value room_req_reserve = 312"
| "topic_value room_req_reserve_f2b = 313"
| "topic_value room_req_reserve_b2f = 314"
| "topic_value room_res_reserve_f2b = 315"
| "topic_value room_res_reserve_b2f = 316"
| "topic_value room_res_reserve = 317"
| "topic_value room_req_checkin = 318"
| "topic_value room_res_checkin = 319"
| "topic_value room_req_chat = 320"
| "topic_value room_res_chat = 321"
| "topic_value room_syn_chat = 322"
| "topic_value room_req_leave = 323"
| "topic_value room_syn_leave_f2b = 324"
| "topic_value room_res_leave = 325"

datatype error_code = success | fail_backend_not_responding | fail_user_not_authenticated
  | fail_kickout_by_duplicate_login | fail_room_not_found | fail_room_full | fail_room_user_not_found
  | fail_room_runner_not_found

record room_info =
  ri_name :: string
  ri_capacity :: nat
  ri_current :: nat
  ri_uuid :: string
  ri_created :: nat

definition room_info_default :: room_info where
  "room_info_default = \<lparr>ri_name = [], ri_capacity = 0, ri_current = 0, ri_uuid = [], ri_created = 0\<rparr>"

text \<open>
  A table inside a table is a \<^verbatim>\<open>unique_ptr\<close>, \<^const>\<open>None\<close> when it is null. The
  fields no code of the sample writes or reads (\<^verbatim>\<open>reason\<close> of a login, the contents of a
  page) are left out.
\<close>

datatype alpha_frame =
    Req_login string string
  | Req_login_f2b string string
  | Syn_login_b2f error_code string
  | Res_login error_code
  | Syn_kickout error_code
  | Req_logout
  | Req_logout_f2b string
  | Syn_logout_b2f string
  | Syn_runner_up
  | Req_create string "room_info option"
  | Res_create error_code string "room_info option"
  | Req_page nat
  | Res_page error_code
  | Req_reserve string string
  | Res_reserve error_code string "room_info option"
  | Req_checkin string "room_info option"
  | Res_checkin error_code "string list"
  | Req_chat string
  | Res_chat error_code
  | Syn_chat string string
  | Req_leave string "room_info option"
  | Res_leave string "room_info option"

section \<open>Callbacks\<close>

datatype alpha_cb =
    Cb_app_closed_back
  | Cb_um_established | Cb_um_closed | Cb_um_login | Cb_um_logout | Cb_um_del_user nat
  | Cb_rm_established | Cb_rm_closed | Cb_rm_runner_up | Cb_rm_req_create | Cb_rm_res_create
  | Cb_rm_req_page | Cb_rm_req_reserve | Cb_rm_res_reserve
  | Cb_lr_established_back | Cb_lr_req_login | Cb_lr_syn_login | Cb_lr_syn_logout | Cb_lr_res_create | Cb_lr_del_user nat
  | Cb_lu_logout nat | Cb_lu_closed nat | Cb_lu_req_create nat | Cb_lu_req_page nat
  | Cb_lu_login_failed nat | Cb_lu_create_failed nat | Cb_lu_page_failed nat | Cb_lu_nothing
  | Cb_rr_established_back | Cb_rr_req_create | Cb_rr_req_reserve | Cb_rr_req_checkin
  | Cb_ra_del_user nat nat
  | Cb_ru_chat nat nat | Cb_ru_leave nat nat | Cb_ru_closed nat nat

section \<open>State of a process\<close>

text \<open>\<^verbatim>\<open>user_master\<close> of the back end.\<close>

record 'u user_master =
  um_id :: nat
  um_pulse :: nat
  um_fronts :: session_container
  um_users :: "'u actor_container"

text \<open>\<^verbatim>\<open>room_master\<close> of the back end, and what it keeps of a room runner.\<close>

record room_property =
  rpr_info :: room_info
  rpr_pending :: bool
  rpr_user_name :: string
  rpr_session :: nat
  rpr_users :: "(string \<times> bool) list"

definition room_property_create :: "string \<Rightarrow> nat \<Rightarrow> room_info \<Rightarrow> room_property" where
  "room_property_create user_name se info =
     \<lparr>rpr_info = info, rpr_pending = True, rpr_user_name = user_name, rpr_session = se, rpr_users = []\<rparr>"

record room_runner_property =
  rp_remote_addr :: string
  rp_session :: nat
  rp_rooms :: "(string \<times> room_property) list"

record room_master =
  rm_id :: nat
  rm_pulse :: nat
  rm_room_runners :: "(nat \<times> room_runner_property) list"

text \<open>\<^verbatim>\<open>lobby_runner\<close> and the users in the lobby, objects known by their id.\<close>

datatype lobby_state = State_pending | State_login

record lobby_user =
  lu_name :: string
  lu_session :: nat
  lu_state :: lobby_state
  lu_pulse :: nat
  lu_password :: string

record 'u lobby_runner =
  lr_id :: nat
  lr_pulse_back :: nat
  lr_pulse_front :: nat
  lr_users :: "'u actor_container"
  lr_objs :: "nat \<rightharpoonup> lobby_user"

text \<open>\<^verbatim>\<open>room_runner\<close>, its rooms and the users in a room.\<close>

record room_user =
  ru_name :: string
  ru_session :: nat
  ru_pulse :: nat

record 'u room_actor =
  ra_pulse :: nat
  ra_name :: string
  ra_creator :: string
  ra_capacity :: nat
  ra_uuid :: 'u
  ra_users :: "'u actor_container"
  ra_pending_users :: "'u actor_container"
  ra_objs :: "nat \<rightharpoonup> room_user"

record 'u room_runner =
  rr_id :: nat
  rr_pulse_back :: nat
  rr_pulse_front :: nat
  rr_rooms :: "'u actor_container"
  rr_objs :: "nat \<rightharpoonup> 'u room_actor"

record ('p, 'u) alpha_env =
  ev_ops :: "('p, topic) protocol_ops"
  ev_nd :: bool
  ev_fb :: "(alpha_frame, alpha_frame) flatbuffers"
  ev_uuid :: "nat \<Rightarrow> 'u"
  ev_uuid_string :: "'u \<Rightarrow> string"
  ev_uuid_from :: "string \<Rightarrow> 'u option"

text \<open>
  \<open>al_shared\<close> says whether a \<^verbatim>\<open>shared_ptr\<close> owns the process object; the one of the main
  function is a global variable.
\<close>

record ('p, 'u) alpha =
  al_fb :: "('p, alpha_cb, alpha_frame) fb_world"
  al_next_id :: nat
  al_shared :: bool
  al_role :: string
  al_stop :: bool
  al_runner :: nat
  al_pulse :: nat
  al_pulse_back :: nat
  al_user_master :: "'u user_master"
  al_room_master :: room_master
  al_lobby :: "'u lobby_runner"
  al_rooms :: "'u room_runner"

section \<open>Working with pulses\<close>

definition al_pulses :: "('p, 'u) alpha \<Rightarrow> (alpha_cb, alpha_frame) world" where
  "al_pulses s = fb_pulses (al_fb s)"

definition al_set_pulses :: "('p, 'u) alpha \<Rightarrow> (alpha_cb, alpha_frame) world \<Rightarrow> ('p, 'u) alpha" where
  "al_set_pulses s w = s\<lparr>al_fb := (al_fb s)\<lparr>fb_pulses := w\<rparr>\<rparr>"

text \<open>
  The chain every service and actor starts its pulse with: a new pulse as a child, its strand,
  a session or none, final or not, the subscriptions in order, and the start.
\<close>

definition subscribe_all :: "bool \<Rightarrow> ('cb, 'f) world \<Rightarrow> nat \<Rightarrow> (topic \<times> 'cb) list
    \<Rightarrow> ('cb, 'f) world res" where
  "subscribe_all nd w a subs = fold_res (\<lambda>w (t, cb). pulse_subscribe nd w a t (User_cb cb)) w subs"

definition make_child :: "bool \<Rightarrow> ('cb, 'f) world \<Rightarrow> nat \<Rightarrow> nat \<Rightarrow> nat option \<Rightarrow> bool \<Rightarrow> (topic \<times> 'cb) list
    \<Rightarrow> (('cb, 'f) world \<times> nat) res" where
  "make_child nd w parent strand session final subs =
     (case pulse_new w of (w1, a) \<Rightarrow>
        bind_res (as_child nd w1 a parent) (\<lambda>w2.
        bind_res (with_strand w2 a strand) (\<lambda>w3.
        bind_res (case session of None \<Rightarrow> Inr w3 | Some ss \<Rightarrow> with_session w3 a ss) (\<lambda>w4.
        bind_res (if final then mark_final w4 a else Inr w4) (\<lambda>w5.
        bind_res (subscribe_all nd w5 a subs) (\<lambda>w6.
        bind_res (pulse_start nd w6 a True) (\<lambda>(w7, _). Inr (w7, a))))))))"

text \<open>\<^verbatim>\<open>pulse_.reset()\<close>\<close>

definition pulse_reset :: "bool \<Rightarrow> ('cb, 'f) world \<Rightarrow> nat \<Rightarrow> ('cb, 'f) world res" where
  "pulse_reset nd w a = (if a = 0 then Inr w else pulse_destroy nd w a)"

text \<open>
  \<^verbatim>\<open>pulse->send(topic, obj)\<close> through a pulse, whose result the sample ignores, and
  \<^verbatim>\<open>pulse->send(session, topic, obj)\<close>.
\<close>

definition alpha_send :: "('p, 'u) alpha_env \<Rightarrow> ('p, 'u) alpha \<Rightarrow> nat \<Rightarrow> alpha_topic \<Rightarrow> alpha_frame \<Rightarrow> ('p, 'u) alpha res" where
  "alpha_send E s a t obj = bind_res (fb_pulse_send (ev_ops E) (ev_nd E) (ev_fb E) (al_fb s) a (topic_value t) obj False)
     (\<lambda>(w, _). Inr (s\<lparr>al_fb := w\<rparr>))"

definition alpha_send_to :: "('p, 'u) alpha_env \<Rightarrow> ('p, 'u) alpha \<Rightarrow> nat \<Rightarrow> alpha_topic \<Rightarrow> alpha_frame \<Rightarrow> ('p, 'u) alpha res" where
  "alpha_send_to E s se t obj = bind_res (fb_send (ev_ops E) (ev_nd E) (ev_fb E) (al_fb s) se (topic_value t) obj False)
     (\<lambda>(w, _). Inr (s\<lparr>al_fb := w\<rparr>))"

text \<open>
  \<^verbatim>\<open>pulse->call(...)\<close>: when the send fails the callback is called at once, which is
  \<open>on_fail\<close>.
\<close>

definition alpha_call :: "('p, 'u) alpha_env \<Rightarrow> ('p, 'u) alpha \<Rightarrow> nat \<Rightarrow> alpha_topic \<Rightarrow> alpha_topic \<Rightarrow> alpha_frame \<Rightarrow> alpha_cb
    \<Rightarrow> (('p, 'u) alpha \<Rightarrow> ('p, 'u) alpha res) \<Rightarrow> ('p, 'u) alpha res" where
  "alpha_call E s a req res obj cb on_fail =
     bind_res (fb_call (ev_ops E) (ev_nd E) (ev_fb E) ((al_fb s)\<lparr>fb_called := []\<rparr>) a (topic_value req) (topic_value res) obj cb False)
       (\<lambda>w. if fb_called w = [] then Inr (s\<lparr>al_fb := w\<rparr>) else on_fail (s\<lparr>al_fb := w\<lparr>fb_called := []\<rparr>\<rparr>))"

definition alpha_call_no_reply :: "('p, 'u) alpha_env \<Rightarrow> ('p, 'u) alpha \<Rightarrow> nat \<Rightarrow> alpha_topic \<Rightarrow> alpha_frame \<Rightarrow> alpha_cb
    \<Rightarrow> ('p, 'u) alpha res" where
  "alpha_call_no_reply E s a req obj cb =
     bind_res (fb_call_no_reply (ev_ops E) (ev_nd E) (ev_fb E) (al_fb s) a (topic_value req) obj cb False)
       (\<lambda>w. Inr (s\<lparr>al_fb := w\<lparr>fb_called := []\<rparr>\<rparr>))"

definition alpha_post :: "('p, 'u) alpha_env \<Rightarrow> ('p, 'u) alpha \<Rightarrow> nat \<Rightarrow> alpha_cb \<Rightarrow> ('p, 'u) alpha res" where
  "alpha_post E s a cb = bind_res (pulse_post (ev_nd E) (al_pulses s) a cb) (\<lambda>w. Inr (al_set_pulses s w))"

text \<open>
  An actor that is not kept by a container is destroyed with its last pointer, and its base
  destructor then calls a pure virtual function.
\<close>

definition keep_actor :: "bool \<Rightarrow> 'a res \<Rightarrow> 'a res" where
  "keep_actor added r = (if added then r else Inl Undefined)"

section \<open>Properties\<close>


end
