(* ===== verification/Alpha_Back.thy ===== *)
theory Alpha_Back
  imports Alpha_Base
begin

text \<open>
  The back end of the sample: \<^verbatim>\<open>app/back/user_master.*\<close>, \<^verbatim>\<open>user_proxy.*\<close> and
  \<^verbatim>\<open>room_master.*\<close>. A user is known to the back end by the container entry alone
  (\<^verbatim>\<open>user_proxy\<close> has no behaviour), a room runner by its session.
\<close>

section \<open>User master\<close>

definition user_config :: container_config where
  "user_config = \<lparr>has_name = True, has_session = False, has_uuid = True\<rparr>"

definition um_on_start :: "('p, 'u) alpha_env \<Rightarrow> ('p, 'u) alpha \<Rightarrow> ('p, 'u) alpha res" where
  "um_on_start E s = (let um = al_user_master s in
     bind_res (make_child (ev_nd E) (al_pulses s) (al_pulse s) (um_id um) None False
       [(topic_established, Cb_um_established), (topic_closed, Cb_um_closed),
        (topic_value auth_req_login_f2b, Cb_um_login), (topic_value auth_req_logout_f2b, Cb_um_logout)]) (\<lambda>(w, a).
     bind_res (sc_bind (ev_nd E) (um_fronts um) a) (\<lambda>fronts.
       Inr ((al_set_pulses s w)\<lparr>al_user_master := um\<lparr>um_pulse := a, um_fronts := fronts\<rparr>\<rparr>))))"

definition um_on_stop :: "('p, 'u) alpha_env \<Rightarrow> ('p, 'u) alpha \<Rightarrow> ('p, 'u) alpha res" where
  "um_on_stop E s = (let um = al_user_master s in
     bind_res (pulse_reset (ev_nd E) (al_pulses s) (um_pulse um)) (\<lambda>w.
       Inr ((al_set_pulses s w)\<lparr>al_user_master := um\<lparr>um_pulse := 0\<rparr>\<rparr>)))"

definition um_post_del_user :: "('p, 'u) alpha_env \<Rightarrow> ('p, 'u) alpha \<Rightarrow> nat \<Rightarrow> ('p, 'u) alpha res" where
  "um_post_del_user E s i = alpha_post E s (um_pulse (al_user_master s)) (Cb_um_del_user i)"

definition um_del_user :: "('p, 'u) alpha \<Rightarrow> nat \<Rightarrow> ('p, 'u) alpha res" where
  "um_del_user s i = bind_res (container_del user_config (um_users (al_user_master s)) (By_id i)) (\<lambda>users.
     Inr (s\<lparr>al_user_master := (al_user_master s)\<lparr>um_users := users\<rparr>\<rparr>))"

text \<open>The set of front ends gets the frame, in the order of the sessions.\<close>

definition um_send_fronts :: "('p, 'u) alpha_env \<Rightarrow> ('p, 'u) alpha \<Rightarrow> alpha_topic \<Rightarrow> alpha_frame \<Rightarrow> ('p, 'u) alpha res" where
  "um_send_fronts E s t obj = bind_res
     (sc_send (ev_ops E) (ev_nd E) (ev_fb E) (al_fb s) (um_fronts (al_user_master s)) (topic_value t) obj False)
     (\<lambda>(w, _). Inr (s\<lparr>al_fb := w\<rparr>))"

text \<open>Any password is good. The name index of the container keeps the first user of a name.\<close>

definition um_on_auth_req_login_f2b :: "('p, 'u) alpha_env \<Rightarrow> ('p, 'u) alpha \<Rightarrow> nat \<Rightarrow> alpha_frame option \<Rightarrow> ('p, 'u) alpha res" where
  "um_on_auth_req_login_f2b E s se fr = (case fr of
     Some (Req_login_f2b name password) \<Rightarrow>
       (let i = al_next_id s; um = al_user_master s;
            (users, added) = container_add user_config (um_users um)
               \<lparr>ai_id = i, ai_name = name, ai_session_key = se, ai_uuid = ev_uuid E i\<rparr>
        in keep_actor added
          (um_send_fronts E (s\<lparr>al_next_id := Suc i, al_user_master := um\<lparr>um_users := users\<rparr>\<rparr>)
             auth_syn_login_b2f (Syn_login_b2f success name)))
   | _ \<Rightarrow> Inl Undefined)"

text \<open>The logout is announced under the topic of a login.\<close>

definition um_on_auth_req_logout_f2b :: "('p, 'u) alpha_env \<Rightarrow> ('p, 'u) alpha \<Rightarrow> nat \<Rightarrow> alpha_frame option \<Rightarrow> ('p, 'u) alpha res" where
  "um_on_auth_req_logout_f2b E s se fr = (case fr of
     Some (Req_logout_f2b name) \<Rightarrow>
       (case container_find (um_users (al_user_master s)) (By_name name) of
          None \<Rightarrow> Inr s
        | Some user \<Rightarrow> bind_res (um_post_del_user E s (ai_id user)) (\<lambda>s1.
            um_send_fronts E s1 auth_syn_login_b2f (Syn_logout_b2f (ai_name user))))
   | _ \<Rightarrow> Inl Undefined)"

definition um_on_front_established :: "('p, 'u) alpha \<Rightarrow> nat \<Rightarrow> ('p, 'u) alpha" where
  "um_on_front_established s se = s\<lparr>al_user_master := (al_user_master s)\<lparr>um_fronts := fst (sc_add (um_fronts (al_user_master s)) se)\<rparr>\<rparr>"

definition um_on_front_closed :: "('p, 'u) alpha \<Rightarrow> nat \<Rightarrow> ('p, 'u) alpha" where
  "um_on_front_closed s se = s\<lparr>al_user_master := (al_user_master s)\<lparr>um_fronts := sc_del (um_fronts (al_user_master s)) se\<rparr>\<rparr>"

section \<open>Room master\<close>

definition rm_on_start :: "('p, 'u) alpha_env \<Rightarrow> ('p, 'u) alpha \<Rightarrow> ('p, 'u) alpha res" where
  "rm_on_start E s = (let rm = al_room_master s in
     bind_res (make_child (ev_nd E) (al_pulses s) (al_pulse s) (rm_id rm) None False
       [(topic_established, Cb_rm_established), (topic_closed, Cb_rm_closed),
        (topic_value room_syn_runner_up, Cb_rm_runner_up), (topic_value room_req_create_f2b, Cb_rm_req_create),
        (topic_value room_res_create_f2b, Cb_rm_res_create), (topic_value room_req_page_f2b, Cb_rm_req_page),
        (topic_value room_req_reserve_f2b, Cb_rm_req_reserve), (topic_value room_res_reserve_f2b, Cb_rm_res_reserve)]) (\<lambda>(w, a).
       Inr ((al_set_pulses s w)\<lparr>al_room_master := rm\<lparr>rm_pulse := a\<rparr>\<rparr>)))"

definition rm_on_stop :: "('p, 'u) alpha_env \<Rightarrow> ('p, 'u) alpha \<Rightarrow> ('p, 'u) alpha res" where
  "rm_on_stop E s = (let rm = al_room_master s in
     bind_res (pulse_reset (ev_nd E) (al_pulses s) (rm_pulse rm)) (\<lambda>w.
       Inr ((al_set_pulses s w)\<lparr>al_room_master := rm\<lparr>rm_pulse := 0\<rparr>\<rparr>)))"

definition rm_on_room_syn_runner_up :: "('p, 'u) alpha \<Rightarrow> nat \<Rightarrow> alpha_frame option \<Rightarrow> ('p, 'u) alpha res" where
  "rm_on_room_syn_runner_up s se fr = (case fr of
     Some Syn_runner_up \<Rightarrow>
       (if se = 0 then Inl Undefined
        else (case fb_sessions (al_fb s) se of
           None \<Rightarrow> Inl Undefined
         | Some x \<Rightarrow> Inr (s\<lparr>al_room_master := (al_room_master s)\<lparr>rm_room_runners :=
             omap_insert se \<lparr>rp_remote_addr = se_remote_addr x, rp_session = se, rp_rooms = []\<rparr>
               (rm_room_runners (al_room_master s))\<rparr>\<rparr>)))
   | _ \<Rightarrow> Inl Undefined)"

definition get_room_count :: "room_runner_property \<Rightarrow> nat" where
  "get_room_count r = length (rp_rooms r)"

text \<open>The runners sorted by their number of rooms, the largest first; the result is not used.\<close>

definition rm_sorted_runners :: "room_master \<Rightarrow> room_runner_property list" where
  "rm_sorted_runners rm = rev (sort_key get_room_count (map snd (rm_room_runners rm)))"

definition rm_on_room_req_create_f2b :: "('p, 'u) alpha_env \<Rightarrow> ('p, 'u) alpha \<Rightarrow> nat \<Rightarrow> alpha_frame option \<Rightarrow> ('p, 'u) alpha res" where
  "rm_on_room_req_create_f2b E s se fr = (case fr of
     Some (Req_create user_name room) \<Rightarrow>
       (if rm_room_runners (al_room_master s) = [] then
          alpha_send E s (rm_pulse (al_room_master s)) room_res_create_b2f (Res_create fail_room_runner_not_found user_name room)
        else play_check (ev_nd E) (rm_sorted_runners (al_room_master s) \<noteq> []) (Inr s))
   | _ \<Rightarrow> Inl Undefined)"

text \<open>The other handlers of \<^verbatim>\<open>room_master\<close> are empty.\<close>

definition rm_on_empty :: "('p, 'u) alpha \<Rightarrow> nat \<Rightarrow> alpha_frame option \<Rightarrow> ('p, 'u) alpha res" where
  "rm_on_empty s se fr = Inr s"

end
