(* ===== verification/Alpha_Front.thy ===== *)
theory Alpha_Front
  imports Alpha_Base
begin

text \<open>
  The lobby of the sample: \<^verbatim>\<open>app/front/lobby_runner.*\<close> and
  \<^verbatim>\<open>lobby_user_actor.*\<close>. The actors are objects in the store of their service.
\<close>

section \<open>Users in the lobby\<close>

definition lobby_config :: container_config where
  "lobby_config = \<lparr>has_name = True, has_session = True, has_uuid = False\<rparr>"

definition lu_deref :: "('p, 'u) alpha \<Rightarrow> nat \<Rightarrow> (lobby_user \<Rightarrow> 'r res) \<Rightarrow> 'r res" where
  "lu_deref s i k = (case lr_objs (al_lobby s) i of None \<Rightarrow> Inl Undefined | Some u \<Rightarrow> k u)"

definition lu_put :: "('p, 'u) alpha \<Rightarrow> nat \<Rightarrow> lobby_user \<Rightarrow> ('p, 'u) alpha" where
  "lu_put s i u = s\<lparr>al_lobby := (al_lobby s)\<lparr>lr_objs := (lr_objs (al_lobby s))(i \<mapsto> u)\<rparr>\<rparr>"

definition lr_post_del_user :: "('p, 'u) alpha_env \<Rightarrow> ('p, 'u) alpha \<Rightarrow> nat \<Rightarrow> ('p, 'u) alpha res" where
  "lr_post_del_user E s i = alpha_post E s (lr_pulse_front (al_lobby s)) (Cb_lr_del_user i)"

definition lr_del_user :: "('p, 'u) alpha \<Rightarrow> nat \<Rightarrow> ('p, 'u) alpha res" where
  "lr_del_user s i = bind_res (container_del lobby_config (lr_users (al_lobby s)) (By_id i)) (\<lambda>users.
     Inr (s\<lparr>al_lobby := (al_lobby s)\<lparr>lr_users := users\<rparr>\<rparr>))"

definition lu_on_login_fail_pending :: "('p, 'u) alpha_env \<Rightarrow> ('p, 'u) alpha \<Rightarrow> nat \<Rightarrow> ('p, 'u) alpha res" where
  "lu_on_login_fail_pending E s i = lu_deref s i (\<lambda>u.
     bind_res (alpha_send E s (lu_pulse u) auth_res_login (Res_login fail_backend_not_responding)) (\<lambda>s1. lr_post_del_user E s1 i))"

definition lu_on_start :: "('p, 'u) alpha_env \<Rightarrow> ('p, 'u) alpha \<Rightarrow> nat \<Rightarrow> ('p, 'u) alpha res" where
  "lu_on_start E s i = lu_deref s i (\<lambda>u. play_check (ev_nd E) (lu_session u \<noteq> 0)
     (bind_res (make_child (ev_nd E) (al_pulses s) (lr_pulse_front (al_lobby s)) i (Some (lu_session u)) False
        [(topic_value auth_req_logout, Cb_lu_logout i), (topic_closed, Cb_lu_closed i)]) (\<lambda>(w, a).
      alpha_call E (lu_put (al_set_pulses s w) i (u\<lparr>lu_pulse := a\<rparr>)) (lr_pulse_back (al_lobby s)) auth_req_login_f2b auth_syn_login_b2f
        (Req_login_f2b (lu_name u) (lu_password u)) (Cb_lu_login_failed i) (\<lambda>s1. lu_on_login_fail_pending E s1 i))))"

text \<open>
  What the back end decided. A second login of a user that is logged in is a duplicate; the
  kick-out is sent under the topic of the login response.
\<close>

definition lu_do_login :: "('p, 'u) alpha_env \<Rightarrow> ('p, 'u) alpha \<Rightarrow> nat \<Rightarrow> error_code \<Rightarrow> ('p, 'u) alpha res" where
  "lu_do_login E s i ec = lu_deref s i (\<lambda>u.
     if ec = success then
       (if lu_state u = State_pending then
          let s1 = lu_put s i (u\<lparr>lu_state := State_login\<rparr>) in
          bind_res (alpha_send E s1 (lu_pulse u) auth_res_login (Res_login success)) (\<lambda>s2.
          bind_res (subscribe_all (ev_nd E) (al_pulses s2) (lu_pulse u)
            [(topic_value room_req_create, Cb_lu_req_create i), (topic_value room_req_page, Cb_lu_req_page i)]) (\<lambda>w.
              Inr (al_set_pulses s2 w)))
        else
          bind_res (alpha_send E s (lu_pulse u) auth_res_login (Syn_kickout fail_kickout_by_duplicate_login)) (\<lambda>s1.
            lr_post_del_user E s1 i))
     else
       bind_res (alpha_send E s (lu_pulse u) auth_res_login (Res_login ec)) (\<lambda>s1. lr_post_del_user E s1 i))"

definition lu_on_auth_req_logout :: "('p, 'u) alpha_env \<Rightarrow> ('p, 'u) alpha \<Rightarrow> nat \<Rightarrow> ('p, 'u) alpha res" where
  "lu_on_auth_req_logout E s i = lu_deref s i (\<lambda>u.
     alpha_call_no_reply E s (lr_pulse_back (al_lobby s)) auth_req_logout_f2b (Req_logout_f2b (lu_name u)) Cb_lu_nothing)"

definition lu_on_session_closed :: "('p, 'u) alpha_env \<Rightarrow> ('p, 'u) alpha \<Rightarrow> nat \<Rightarrow> ('p, 'u) alpha res" where
  "lu_on_session_closed E s i = lu_on_auth_req_logout E s i"

definition lu_create_failed :: "('p, 'u) alpha_env \<Rightarrow> ('p, 'u) alpha \<Rightarrow> nat \<Rightarrow> ('p, 'u) alpha res" where
  "lu_create_failed E s i = lu_deref s i (\<lambda>u. alpha_send E s (lu_pulse u) room_res_create (Res_create fail_backend_not_responding [] None))"

definition lu_on_room_req_create :: "('p, 'u) alpha_env \<Rightarrow> ('p, 'u) alpha \<Rightarrow> nat \<Rightarrow> alpha_frame option \<Rightarrow> ('p, 'u) alpha res" where
  "lu_on_room_req_create E s i fr = (case fr of
     Some (Req_create user_name room) \<Rightarrow> lu_deref s i (\<lambda>_.
       alpha_call E s (lr_pulse_back (al_lobby s)) room_req_create_f2b room_res_create_b2f (Req_create user_name room)
         (Cb_lu_create_failed i) (\<lambda>s1. lu_create_failed E s1 i))
   | _ \<Rightarrow> Inl Undefined)"

definition lu_page_failed :: "('p, 'u) alpha_env \<Rightarrow> ('p, 'u) alpha \<Rightarrow> nat \<Rightarrow> ('p, 'u) alpha res" where
  "lu_page_failed E s i = lu_deref s i (\<lambda>u. alpha_send E s (lu_pulse u) room_res_page (Res_page fail_backend_not_responding))"

definition lu_on_room_req_page :: "('p, 'u) alpha_env \<Rightarrow> ('p, 'u) alpha \<Rightarrow> nat \<Rightarrow> alpha_frame option \<Rightarrow> ('p, 'u) alpha res" where
  "lu_on_room_req_page E s i fr = (case fr of
     Some (Req_page page) \<Rightarrow> lu_deref s i (\<lambda>_.
       alpha_call E s (lr_pulse_back (al_lobby s)) room_req_page_f2b room_res_page_b2f (Req_page page)
         (Cb_lu_page_failed i) (\<lambda>s1. lu_page_failed E s1 i))
   | _ \<Rightarrow> Inl Undefined)"

section \<open>Lobby runner\<close>

definition lr_on_start :: "('p, 'u) alpha_env \<Rightarrow> ('p, 'u) alpha \<Rightarrow> ('p, 'u) alpha res" where
  "lr_on_start E s = (let lr = al_lobby s in
     bind_res (make_child (ev_nd E) (al_pulses s) (al_pulse s) (lr_id lr) None False
       [(topic_value auth_req_login, Cb_lr_req_login), (topic_value room_res_create_b2f, Cb_lr_res_create)]) (\<lambda>(w1, front).
     bind_res (make_child (ev_nd E) w1 (al_pulse_back s) (lr_id lr) None True
       [(topic_established, Cb_lr_established_back)]) (\<lambda>(w2, back).
       Inr ((al_set_pulses s w2)\<lparr>al_lobby := lr\<lparr>lr_pulse_front := front, lr_pulse_back := back\<rparr>\<rparr>))))"

definition lr_on_stop :: "('p, 'u) alpha_env \<Rightarrow> ('p, 'u) alpha \<Rightarrow> ('p, 'u) alpha res" where
  "lr_on_stop E s = (let lr = al_lobby s in
     bind_res (pulse_reset (ev_nd E) (al_pulses s) (lr_pulse_front lr)) (\<lambda>w1.
     bind_res (pulse_reset (ev_nd E) w1 (lr_pulse_back lr)) (\<lambda>w2.
       Inr ((al_set_pulses s w2)\<lparr>al_lobby := lr\<lparr>lr_pulse_front := 0, lr_pulse_back := 0\<rparr>\<rparr>))))"

definition lr_on_established_back :: "('p, 'u) alpha_env \<Rightarrow> ('p, 'u) alpha \<Rightarrow> nat \<Rightarrow> ('p, 'u) alpha res" where
  "lr_on_established_back E s se = (let lr = al_lobby s in
     bind_res (pulse_reset (ev_nd E) (al_pulses s) (lr_pulse_back lr)) (\<lambda>w1.
     bind_res (make_child (ev_nd E) w1 (al_pulse_back s) (lr_id lr) (Some se) False
       [(topic_established, Cb_lr_established_back), (topic_value auth_syn_login_b2f, Cb_lr_syn_login),
        (topic_value auth_syn_logout_b2f, Cb_lr_syn_logout)]) (\<lambda>(w2, back).
       Inr ((al_set_pulses s w2)\<lparr>al_lobby := lr\<lparr>lr_pulse_back := back\<rparr>\<rparr>))))"

definition lr_on_auth_req_login :: "('p, 'u) alpha_env \<Rightarrow> ('p, 'u) alpha \<Rightarrow> nat \<Rightarrow> alpha_frame option \<Rightarrow> ('p, 'u) alpha res" where
  "lr_on_auth_req_login E s se fr = (case fr of
     Some (Req_login name password) \<Rightarrow>
       (let i = al_next_id s;
            u = \<lparr>lu_name = name, lu_session = se, lu_state = State_pending, lu_pulse = 0, lu_password = password\<rparr>;
            (users, added) = container_add lobby_config (lr_users (al_lobby s))
               \<lparr>ai_id = i, ai_name = name, ai_session_key = se, ai_uuid = ev_uuid E i\<rparr>;
            s1 = s\<lparr>al_next_id := Suc i, al_lobby := (al_lobby s)\<lparr>lr_users := users\<rparr>\<rparr>
        in keep_actor added (lu_on_start E (lu_put s1 i u) i))
   | _ \<Rightarrow> Inl Undefined)"

definition lr_on_auth_syn_login_b2f :: "('p, 'u) alpha_env \<Rightarrow> ('p, 'u) alpha \<Rightarrow> nat \<Rightarrow> alpha_frame option \<Rightarrow> ('p, 'u) alpha res" where
  "lr_on_auth_syn_login_b2f E s se fr = (case fr of
     Some (Syn_login_b2f ec name) \<Rightarrow>
       (case container_find (lr_users (al_lobby s)) (By_name name) of
          None \<Rightarrow> Inr s | Some user \<Rightarrow> lu_do_login E s (ai_id user) ec)
   | _ \<Rightarrow> Inl Undefined)"

text \<open>
  The room responses are looked up by name and handed to the actor, whose handlers for them are
  empty. The one for a reservation is not subscribed.
\<close>

definition lr_on_room_res_create_b2f :: "('p, 'u) alpha \<Rightarrow> alpha_frame option \<Rightarrow> ('p, 'u) alpha res" where
  "lr_on_room_res_create_b2f s fr = (case fr of
     Some (Res_create ec user_name room) \<Rightarrow>
       (case container_find (lr_users (al_lobby s)) (By_name user_name) of None \<Rightarrow> Inr s | Some user \<Rightarrow> Inr s)
   | _ \<Rightarrow> Inl Undefined)"

definition lr_on_room_res_reserve_b2f :: "('p, 'u) alpha \<Rightarrow> alpha_frame option \<Rightarrow> ('p, 'u) alpha res" where
  "lr_on_room_res_reserve_b2f s fr = (case fr of
     Some (Res_reserve ec user_name room) \<Rightarrow>
       (case container_find (lr_users (al_lobby s)) (By_name user_name) of None \<Rightarrow> Inr s | Some user \<Rightarrow> Inr s)
   | _ \<Rightarrow> Inl Undefined)"

end
