(* ===== verification/Alpha_Room.thy ===== *)
theory Alpha_Room
  imports Alpha_Base
begin

text \<open>
  The rooms of the sample: \<^verbatim>\<open>app/front/room_runner.*\<close>, \<^verbatim>\<open>room_actor.*\<close> and
  \<^verbatim>\<open>room_user_actor.*\<close>. A room is known by its actor id in the store of the
  runner, a user by the id of the room and its own. A user first reserves a place (pending,
  without a session) and then checks in with its session.
\<close>

section \<open>Access\<close>

definition room_config :: container_config where
  "room_config = \<lparr>has_name = True, has_session = False, has_uuid = True\<rparr>"

definition room_user_config :: container_config where
  "room_user_config = \<lparr>has_name = True, has_session = True, has_uuid = False\<rparr>"

definition room_pending_config :: container_config where
  "room_pending_config = \<lparr>has_name = True, has_session = False, has_uuid = False\<rparr>"

definition ra_deref :: "('p, 'u) alpha \<Rightarrow> nat \<Rightarrow> ('u room_actor \<Rightarrow> 'r res) \<Rightarrow> 'r res" where
  "ra_deref s r k = (case rr_objs (al_rooms s) r of None \<Rightarrow> Inl Undefined | Some x \<Rightarrow> k x)"

definition ra_put :: "('p, 'u) alpha \<Rightarrow> nat \<Rightarrow> 'u room_actor \<Rightarrow> ('p, 'u) alpha" where
  "ra_put s r x = s\<lparr>al_rooms := (al_rooms s)\<lparr>rr_objs := (rr_objs (al_rooms s))(r \<mapsto> x)\<rparr>\<rparr>"

definition ru_deref :: "('p, 'u) alpha \<Rightarrow> nat \<Rightarrow> nat \<Rightarrow> ('u room_actor \<Rightarrow> room_user \<Rightarrow> 'r res) \<Rightarrow> 'r res" where
  "ru_deref s r i k = ra_deref s r (\<lambda>x. case ra_objs x i of None \<Rightarrow> Inl Undefined | Some u \<Rightarrow> k x u)"

section \<open>Users in a room\<close>

definition ra_post_del_user :: "('p, 'u) alpha_env \<Rightarrow> ('p, 'u) alpha \<Rightarrow> nat \<Rightarrow> nat \<Rightarrow> ('p, 'u) alpha res" where
  "ra_post_del_user E s r i = ra_deref s r (\<lambda>x. alpha_post E s (ra_pulse x) (Cb_ra_del_user r i))"

definition ra_del_user :: "('p, 'u) alpha \<Rightarrow> nat \<Rightarrow> nat \<Rightarrow> ('p, 'u) alpha res" where
  "ra_del_user s r i = ra_deref s r (\<lambda>x. bind_res (container_del room_user_config (ra_users x) (By_id i)) (\<lambda>users.
     Inr (ra_put s r (x\<lparr>ra_users := users\<rparr>))))"

definition ru_on_start :: "('p, 'u) alpha_env \<Rightarrow> ('p, 'u) alpha \<Rightarrow> nat \<Rightarrow> nat \<Rightarrow> ('p, 'u) alpha res" where
  "ru_on_start E s r i = ru_deref s r i (\<lambda>x u.
     bind_res (make_child (ev_nd E) (al_pulses s) (rr_pulse_front (al_rooms s)) r (Some (ru_session u)) False
       [(topic_value room_req_chat, Cb_ru_chat r i), (topic_value room_req_leave, Cb_ru_leave r i), (topic_closed, Cb_ru_closed r i)])
     (\<lambda>(w, a). Inr (ra_put (al_set_pulses s w) r (x\<lparr>ra_objs := (ra_objs x)(i \<mapsto> u\<lparr>ru_pulse := a\<rparr>)\<rparr>))))"

definition ru_on_stop :: "('p, 'u) alpha_env \<Rightarrow> ('p, 'u) alpha \<Rightarrow> nat \<Rightarrow> nat \<Rightarrow> ('p, 'u) alpha res" where
  "ru_on_stop E s r i = ru_deref s r i (\<lambda>x u. bind_res (pulse_reset (ev_nd E) (al_pulses s) (ru_pulse u)) (\<lambda>w.
     Inr (ra_put (al_set_pulses s w) r (x\<lparr>ra_objs := (ra_objs x)(i \<mapsto> u\<lparr>ru_pulse := 0\<rparr>)\<rparr>))))"

definition ru_fill_room_info :: "('p, 'u) alpha_env \<Rightarrow> 'u room_actor \<Rightarrow> room_info \<Rightarrow> room_info" where
  "ru_fill_room_info E x info = info\<lparr>ri_name := ra_name x, ri_uuid := ev_uuid_string E (ra_uuid x),
     ri_capacity := ra_capacity x mod 2 ^ 16, ri_current := container_size (ra_users x) mod 2 ^ 16\<rparr>"

definition ru_send_syn_leave_f2b :: "('p, 'u) alpha_env \<Rightarrow> ('p, 'u) alpha \<Rightarrow> nat \<Rightarrow> nat \<Rightarrow> ('p, 'u) alpha res" where
  "ru_send_syn_leave_f2b E s r i = ru_deref s r i (\<lambda>x u. alpha_send E s (rr_pulse_back (al_rooms s)) room_syn_leave_f2b
     (Res_leave (ru_name u) (Some (ru_fill_room_info E x room_info_default))))"

definition ru_on_req_leave :: "('p, 'u) alpha_env \<Rightarrow> ('p, 'u) alpha \<Rightarrow> nat \<Rightarrow> nat \<Rightarrow> ('p, 'u) alpha res" where
  "ru_on_req_leave E s r i = bind_res (ru_send_syn_leave_f2b E s r i) (\<lambda>s1.
     bind_res (ra_post_del_user E s1 r i) (\<lambda>s2. ru_deref s2 r i (\<lambda>x u.
       let res = Res_leave (ru_name u) (Some (ru_fill_room_info E x room_info_default)) in
       bind_res (alpha_send E s2 (ru_pulse u) room_res_leave res) (\<lambda>s3.
         alpha_send E s3 (rr_pulse_back (al_rooms s3)) room_res_leave res))))"

definition ru_on_closed :: "('p, 'u) alpha_env \<Rightarrow> ('p, 'u) alpha \<Rightarrow> nat \<Rightarrow> nat \<Rightarrow> ('p, 'u) alpha res" where
  "ru_on_closed E s r i = bind_res (ru_send_syn_leave_f2b E s r i) (\<lambda>s1. ra_post_del_user E s1 r i)"

section \<open>Rooms\<close>

definition ra_create :: "string \<Rightarrow> nat \<Rightarrow> string \<Rightarrow> 'u \<Rightarrow> 'u room_actor" where
  "ra_create name capacity creator uuid = \<lparr>ra_pulse = 0, ra_name = name, ra_creator = creator, ra_capacity = capacity, ra_uuid = uuid,
     ra_users = container_create, ra_pending_users = container_create, ra_objs = Map.empty\<rparr>"

definition ra_on_start :: "('p, 'u) alpha_env \<Rightarrow> ('p, 'u) alpha \<Rightarrow> nat \<Rightarrow> ('p, 'u) alpha res" where
  "ra_on_start E s r = ra_deref s r (\<lambda>x.
     bind_res (make_child (ev_nd E) (al_pulses s) (rr_pulse_front (al_rooms s)) r None False []) (\<lambda>(w, a).
       Inr (ra_put (al_set_pulses s w) r (x\<lparr>ra_pulse := a\<rparr>))))"

definition ra_on_stop :: "('p, 'u) alpha_env \<Rightarrow> ('p, 'u) alpha \<Rightarrow> nat \<Rightarrow> ('p, 'u) alpha res" where
  "ra_on_stop E s r = ra_deref s r (\<lambda>x. bind_res (pulse_reset (ev_nd E) (al_pulses s) (ra_pulse x)) (\<lambda>w.
     Inr (ra_put (al_set_pulses s w) r (x\<lparr>ra_pulse := 0\<rparr>))))"

definition ra_send_res_reserve_f2b :: "('p, 'u) alpha_env \<Rightarrow> ('p, 'u) alpha \<Rightarrow> nat \<Rightarrow> string \<Rightarrow> error_code \<Rightarrow> ('p, 'u) alpha res" where
  "ra_send_res_reserve_f2b E s r user_name ec = ra_deref s r (\<lambda>x.
     alpha_send E s (rr_pulse_back (al_rooms s)) room_res_reserve_f2b (Res_reserve ec user_name
       (Some (room_info_default\<lparr>ri_uuid := ev_uuid_string E (ra_uuid x), ri_capacity := ra_capacity x mod 2 ^ 16,
          ri_current := (container_size (ra_users x) + container_size (ra_pending_users x)) mod 2 ^ 16\<rparr>))))"

definition ra_do_reserve :: "('p, 'u) alpha_env \<Rightarrow> ('p, 'u) alpha \<Rightarrow> nat \<Rightarrow> string \<Rightarrow> ('p, 'u) alpha res" where
  "ra_do_reserve E s r user_name = ra_deref s r (\<lambda>x.
     if ra_capacity x > container_size (ra_users x) + container_size (ra_pending_users x) then
       (let i = al_next_id s;
            (pending, added) = container_add room_pending_config (ra_pending_users x)
              \<lparr>ai_id = i, ai_name = user_name, ai_session_key = 0, ai_uuid = ev_uuid E i\<rparr>;
            x1 = x\<lparr>ra_pending_users := pending,
              ra_objs := (ra_objs x)(i \<mapsto> \<lparr>ru_name = user_name, ru_session = 0, ru_pulse = 0\<rparr>)\<rparr>
        in keep_actor added (ra_send_res_reserve_f2b E (ra_put (s\<lparr>al_next_id := Suc i\<rparr>) r x1) r user_name success))
     else ra_send_res_reserve_f2b E s r user_name fail_room_full)"

text \<open>The names of the users of a room, in the order of their ids.\<close>

definition ra_user_names :: "'u room_actor \<Rightarrow> string list" where
  "ra_user_names x = map (\<lambda>i. case co_actors (ra_users x) i of None \<Rightarrow> [] | Some a \<Rightarrow> ai_name a) (container_ids (ra_users x))"

definition ra_do_chekin :: "('p, 'u) alpha_env \<Rightarrow> ('p, 'u) alpha \<Rightarrow> nat \<Rightarrow> nat \<Rightarrow> string \<Rightarrow> ('p, 'u) alpha res" where
  "ra_do_chekin E s r se user_name = ra_deref s r (\<lambda>x.
     case container_find (ra_pending_users x) (By_name user_name) of
       None \<Rightarrow> alpha_send_to E s se room_res_checkin (Res_checkin fail_room_user_not_found [])
     | Some _ \<Rightarrow>
         (let i = al_next_id s;
              (users, added) = container_add room_user_config (ra_users x)
                \<lparr>ai_id = i, ai_name = user_name, ai_session_key = se, ai_uuid = ev_uuid E i\<rparr>;
              x1 = x\<lparr>ra_users := users, ra_objs := (ra_objs x)(i \<mapsto> \<lparr>ru_name = user_name, ru_session = se, ru_pulse = 0\<rparr>)\<rparr>
          in keep_actor added
            (bind_res (ru_on_start E (ra_put (s\<lparr>al_next_id := Suc i\<rparr>) r x1) r i) (\<lambda>s1. ra_deref s1 r (\<lambda>x2.
             bind_res (container_del room_pending_config (ra_pending_users x2) (By_name user_name)) (\<lambda>pending.
             let x3 = x2\<lparr>ra_pending_users := pending\<rparr> in
             alpha_send_to E (ra_put s1 r x3) se room_res_checkin (Res_checkin success (ra_user_names x3))))))))"

text \<open>The broadcast goes through the pulse of every user; the name of the speaker is not set.\<close>

definition ra_broadcast :: "('p, 'u) alpha_env \<Rightarrow> ('p, 'u) alpha \<Rightarrow> nat \<Rightarrow> alpha_topic \<Rightarrow> alpha_frame \<Rightarrow> ('p, 'u) alpha res" where
  "ra_broadcast E s r t obj = ra_deref s r (\<lambda>x.
     fold_res (\<lambda>s i. ru_deref s r i (\<lambda>_ u. alpha_send E s (ru_pulse u) t obj)) s (container_ids (ra_users x)))"

definition ra_do_chat :: "('p, 'u) alpha_env \<Rightarrow> ('p, 'u) alpha \<Rightarrow> nat \<Rightarrow> string \<Rightarrow> ('p, 'u) alpha res" where
  "ra_do_chat E s r message = ra_broadcast E s r room_syn_chat (Syn_chat [] message)"

definition ru_on_req_chat :: "('p, 'u) alpha_env \<Rightarrow> ('p, 'u) alpha \<Rightarrow> nat \<Rightarrow> nat \<Rightarrow> alpha_frame option \<Rightarrow> ('p, 'u) alpha res" where
  "ru_on_req_chat E s r i fr = (case fr of
     Some (Req_chat message) \<Rightarrow> ru_deref s r i (\<lambda>_ u.
       bind_res (alpha_send E s (ru_pulse u) room_res_chat (Res_chat success)) (\<lambda>s1. ra_do_chat E s1 r message))
   | _ \<Rightarrow> Inl Undefined)"

section \<open>Room runner\<close>

definition rr_on_start :: "('p, 'u) alpha_env \<Rightarrow> ('p, 'u) alpha \<Rightarrow> ('p, 'u) alpha res" where
  "rr_on_start E s = (let rr = al_rooms s in
     bind_res (make_child (ev_nd E) (al_pulses s) (al_pulse s) (rr_id rr) None False
       [(topic_value room_req_checkin, Cb_rr_req_checkin)]) (\<lambda>(w1, front).
     bind_res (make_child (ev_nd E) w1 (al_pulse_back s) (rr_id rr) None True
       [(topic_established, Cb_rr_established_back)]) (\<lambda>(w2, back).
       Inr ((al_set_pulses s w2)\<lparr>al_rooms := rr\<lparr>rr_pulse_front := front, rr_pulse_back := back\<rparr>\<rparr>))))"

definition rr_on_stop :: "('p, 'u) alpha_env \<Rightarrow> ('p, 'u) alpha \<Rightarrow> ('p, 'u) alpha res" where
  "rr_on_stop E s = (let rr = al_rooms s in
     bind_res (pulse_reset (ev_nd E) (al_pulses s) (rr_pulse_front rr)) (\<lambda>w1.
     bind_res (pulse_reset (ev_nd E) w1 (rr_pulse_back rr)) (\<lambda>w2.
       Inr ((al_set_pulses s w2)\<lparr>al_rooms := rr\<lparr>rr_pulse_front := 0, rr_pulse_back := 0\<rparr>\<rparr>))))"

definition rr_on_established_back :: "('p, 'u) alpha_env \<Rightarrow> ('p, 'u) alpha \<Rightarrow> nat \<Rightarrow> ('p, 'u) alpha res" where
  "rr_on_established_back E s se = (let rr = al_rooms s in
     bind_res (pulse_reset (ev_nd E) (al_pulses s) (rr_pulse_back rr)) (\<lambda>w1.
     bind_res (make_child (ev_nd E) w1 (al_pulse_back s) (rr_id rr) (Some se) True
       [(topic_established, Cb_rr_established_back), (topic_value room_req_create_b2f, Cb_rr_req_create),
        (topic_value room_req_reserve_b2f, Cb_rr_req_reserve)]) (\<lambda>(w2, back).
       Inr ((al_set_pulses s w2)\<lparr>al_rooms := rr\<lparr>rr_pulse_back := back\<rparr>\<rparr>))))"

text \<open>
  The room is made, started and kept. The response then writes through \<^verbatim>\<open>res.room\<close>,
  which is null: \<open>res_room\<close> is that pointer.
\<close>

definition rr_on_room_req_create_b2f :: "('p, 'u) alpha_env \<Rightarrow> ('p, 'u) alpha \<Rightarrow> alpha_frame option \<Rightarrow> ('p, 'u) alpha res" where
  "rr_on_room_req_create_b2f E s fr = (case fr of
     Some (Req_create user_name (Some room)) \<Rightarrow>
       (let r = al_next_id s;
            x = ra_create (ri_name room) (ri_capacity room) user_name (ev_uuid E r)
        in bind_res (ra_on_start E (ra_put (s\<lparr>al_next_id := Suc r\<rparr>) r x) r) (\<lambda>s1.
          let (rooms, added) = container_add room_config (rr_rooms (al_rooms s1))
                \<lparr>ai_id = r, ai_name = ri_name room, ai_session_key = 0, ai_uuid = ev_uuid E r\<rparr>;
              s2 = s1\<lparr>al_rooms := (al_rooms s1)\<lparr>rr_rooms := rooms\<rparr>\<rparr>;
              res_room = (None :: room_info option)
          in case res_room of
               None \<Rightarrow> Inl Undefined
             | Some info \<Rightarrow> alpha_send E s2 (rr_pulse_back (al_rooms s2)) room_res_create_f2b
                 (Res_create success [] (Some (info\<lparr>ri_name := ri_name room, ri_uuid := ev_uuid_string E (ev_uuid E r),
                    ri_current := 0, ri_capacity := ri_capacity room\<rparr>)))))
   | _ \<Rightarrow> Inl Undefined)"

text \<open>The uuid of the request is a string, and a find with a string key goes by name.\<close>

definition rr_on_room_req_reserve_b2f :: "('p, 'u) alpha_env \<Rightarrow> ('p, 'u) alpha \<Rightarrow> alpha_frame option \<Rightarrow> ('p, 'u) alpha res" where
  "rr_on_room_req_reserve_b2f E s fr = (case fr of
     Some (Req_reserve user_name uuid) \<Rightarrow>
       (case container_find (rr_rooms (al_rooms s)) (By_name uuid) of
          Some room \<Rightarrow> ra_do_reserve E s (ai_id room) user_name
        | None \<Rightarrow> alpha_send E s (rr_pulse_back (al_rooms s)) room_res_reserve_f2b
            (Res_reserve fail_room_not_found user_name (Some (room_info_default\<lparr>ri_uuid := uuid\<rparr>))))
   | _ \<Rightarrow> Inl Undefined)"

definition rr_on_room_req_checkin :: "('p, 'u) alpha_env \<Rightarrow> ('p, 'u) alpha \<Rightarrow> nat \<Rightarrow> alpha_frame option \<Rightarrow> ('p, 'u) alpha res" where
  "rr_on_room_req_checkin E s se fr = (case fr of
     Some (Req_checkin user_name (Some info)) \<Rightarrow>
       (case ev_uuid_from E (ri_uuid info) of
          None \<Rightarrow> Inl (Thrown Std_exception)
        | Some uuid \<Rightarrow>
            (case container_find (rr_rooms (al_rooms s)) (By_uuid uuid) of
               Some room \<Rightarrow> ra_do_chekin E s (ai_id room) se user_name
             | None \<Rightarrow> alpha_send E s (rr_pulse_front (al_rooms s)) room_res_checkin (Res_checkin fail_room_not_found [])))
   | _ \<Rightarrow> Inl Undefined)"

end
