(* ===== verification/Alpha_App.thy ===== *)
theory Alpha_App
  imports Alpha_Back Alpha_Front Alpha_Room
begin

text \<open>
  The process of the sample, \<^verbatim>\<open>app/app.*\<close>: starting it in one of its two roles, its
  services, and running what the pulses post (\<open>alpha_run\<close>). Parsing the configuration file is
  a parameter.
\<close>

section \<open>Starting and stopping\<close>

definition alpha_create :: "nat \<Rightarrow> bool \<Rightarrow> ('p, 'u) alpha" where
  "alpha_create first_id shared =
     \<lparr>al_fb = \<lparr>fb_pulses = fst (pulse_new (fst (pulse_new world_empty))), fb_sessions = Map.empty, fb_sent = [], fb_called = []\<rparr>,
      al_next_id = first_id, al_shared = shared, al_role = [], al_stop = False, al_runner = 0, al_pulse = 1, al_pulse_back = 2,
      al_user_master = \<lparr>um_id = 0, um_pulse = 0, um_fronts = \<lparr>sc_pulse = 0, sc_sessions = []\<rparr>, um_users = container_create\<rparr>,
      al_room_master = \<lparr>rm_id = 0, rm_pulse = 0, rm_room_runners = []\<rparr>,
      al_lobby = \<lparr>lr_id = 0, lr_pulse_back = 0, lr_pulse_front = 0, lr_users = container_create, lr_objs = Map.empty\<rparr>,
      al_rooms = \<lparr>rr_id = 0, rr_pulse_back = 0, rr_pulse_front = 0, rr_rooms = container_create, rr_objs = Map.empty\<rparr>\<rparr>"

text \<open>Creating a service takes an id; then it is started.\<close>

definition alpha_start_services :: "('p, 'u) alpha_env \<Rightarrow> ('p, 'u) alpha \<Rightarrow> bool \<Rightarrow> (('p, 'u) alpha \<times> bool) res" where
  "alpha_start_services E s connect_ok =
     (let i = al_next_id s in
      if al_role s = ''front'' then
        bind_res (lr_on_start E (s\<lparr>al_next_id := Suc i, al_lobby := (al_lobby s)\<lparr>lr_id := i\<rparr>\<rparr>)) (\<lambda>s1.
        bind_res (rr_on_start E (s1\<lparr>al_next_id := Suc (Suc i), al_rooms := (al_rooms s1)\<lparr>rr_id := Suc i\<rparr>\<rparr>)) (\<lambda>s2.
        bind_res (pulse_start (ev_nd E) (al_pulses s2) (al_pulse_back s2) connect_ok) (\<lambda>(w, ok). Inr (al_set_pulses s2 w, ok))))
      else play_check (ev_nd E) (al_role s = ''back'')
        (bind_res (um_on_start E (s\<lparr>al_next_id := Suc i, al_user_master := (al_user_master s)\<lparr>um_id := i\<rparr>\<rparr>)) (\<lambda>s1.
         bind_res (rm_on_start E (s1\<lparr>al_next_id := Suc (Suc i), al_room_master := (al_room_master s1)\<lparr>rm_id := Suc i\<rparr>\<rparr>)) (\<lambda>s2.
         Inr (s2, True)))))"

text \<open>
  \<^verbatim>\<open>PULSE_FN\<close> takes \<^verbatim>\<open>shared_from_this()\<close>, which throws for an object no
  \<^verbatim>\<open>shared_ptr\<close> owns.
\<close>

definition alpha_pulse_fn :: "('p, 'u) alpha \<Rightarrow> alpha_cb \<Rightarrow> alpha_cb receiver res" where
  "alpha_pulse_fn s cb = (if al_shared s then Inr (User_cb cb) else Inl (Thrown Std_exception))"

definition alpha_as_client :: "('p, 'u) alpha_env \<Rightarrow> ('p, 'u) alpha \<Rightarrow> nat \<Rightarrow> string \<Rightarrow> (alpha_cb, alpha_frame) world res" where
  "alpha_as_client E s runner addr =
     bind_res (as_client (ev_nd E) (al_pulses s) (al_pulse_back s) runner addr) (\<lambda>w.
     bind_res (alpha_pulse_fn s Cb_app_closed_back) (\<lambda>cb. pulse_subscribe (ev_nd E) w (al_pulse_back s) topic_closed cb))"

text \<open>
  \<^verbatim>\<open>start(json)\<close>. \<open>runner\<close> is the address of the runner it creates; \<open>listen_ok\<close> and
  \<open>connect_ok\<close> are what the server and the client of the pulses report. What is thrown makes
  the result false; the state is the one before the statement that throws.
\<close>

definition alpha_start :: "('p, 'u) alpha_env \<Rightarrow> ('p, 'u) alpha \<Rightarrow> json \<Rightarrow> nat \<Rightarrow> nat \<Rightarrow> bool \<Rightarrow> bool \<Rightarrow> (('p, 'u) alpha \<times> bool) res" where
  "alpha_start E s jconf hw runner listen_ok connect_ok =
     (let s0 = s\<lparr>al_stop := False\<rparr> in
      catch_false (json_read_value get_int jconf ''alpha.concurrency'' (int hw)) s0 (\<lambda>concurrency.
      catch_false (json_read_value get_int jconf ''alpha.port'' 7000) s0 (\<lambda>port.
      catch_false (json_read_value get_string jconf ''alpha.role'' ''back'') s0 (\<lambda>role.
      let s1 = s0\<lparr>al_role := role, al_runner := runner\<rparr> in
      catch_false (as_server (ev_nd E) (al_pulses s1) (al_pulse s1) runner (nat (port mod 2 ^ 16))) s1 (\<lambda>w1.
      let s2 = al_set_pulses s1 w1 in
      catch_false (pulse_start (ev_nd E) (al_pulses s2) (al_pulse s2) listen_ok) s2 (\<lambda>(w2, rc).
      let s3 = al_set_pulses s2 w2 in
      if \<not> rc then Inr (s3, False)
      else
        catch_false
          (if role = ''front'' then
             bind_res (json_read_value get_string jconf ''alpha.backend'' ''127.0.0.1:7000'') (alpha_as_client E s3 runner)
           else Inr (al_pulses s3)) s3 (\<lambda>w3.
        let s4 = al_set_pulses s3 w3 in
        catch_false (alpha_start_services E s4 connect_ok) s4 Inr)))))))"

definition alpha_start_file :: "(string \<Rightarrow> json option) \<Rightarrow> ('p, 'u) alpha_env \<Rightarrow> ('p, 'u) alpha \<Rightarrow> string \<Rightarrow> nat \<Rightarrow> nat \<Rightarrow> bool \<Rightarrow> bool
    \<Rightarrow> (('p, 'u) alpha \<times> bool) res" where
  "alpha_start_file read E s config_file hw runner listen_ok connect_ok =
     (case read config_file of None \<Rightarrow> Inr (s, False) | Some jconf \<Rightarrow> alpha_start E s jconf hw runner listen_ok connect_ok)"

text \<open>\<^verbatim>\<open>for_each\<close> stops the services of the role.\<close>

definition alpha_stop_services :: "('p, 'u) alpha_env \<Rightarrow> ('p, 'u) alpha \<Rightarrow> ('p, 'u) alpha res" where
  "alpha_stop_services E s =
     (if al_role s = ''front'' then bind_res (lr_on_stop E s) (rr_on_stop E)
      else bind_res (um_on_stop E s) (rm_on_stop E))"

text \<open>
  The runner's threads are stopped, which leaves the pulses alone, then the pulse, before the
  services that are its children.
\<close>

definition alpha_stop :: "('p, 'u) alpha_env \<Rightarrow> ('p, 'u) alpha \<Rightarrow> ('p, 'u) alpha res" where
  "alpha_stop E s =
     (if al_stop s then Inr s
      else if al_runner s = 0 then Inl Undefined
      else bind_res (pulse_stop (ev_nd E) (al_pulses s) (al_pulse s)) (\<lambda>(w, _).
        alpha_stop_services E (al_set_pulses (s\<lparr>al_stop := True\<rparr>) w)))"

section \<open>Running what was posted\<close>

text \<open>
  The handler of a callback. The reconnect of \<^verbatim>\<open>on_closed_back\<close> is the client's and does
  not change the pulses.
\<close>

fun alpha_handler :: "('p, 'u) alpha_env \<Rightarrow> ('p, 'u) alpha \<Rightarrow> alpha_cb \<Rightarrow> nat \<Rightarrow> alpha_frame option \<Rightarrow> ('p, 'u) alpha res" where
  "alpha_handler E s Cb_app_closed_back se fr = Inr s"
| "alpha_handler E s Cb_um_established se fr = Inr (um_on_front_established s se)"
| "alpha_handler E s Cb_um_closed se fr = Inr (um_on_front_closed s se)"
| "alpha_handler E s Cb_um_login se fr = um_on_auth_req_login_f2b E s se fr"
| "alpha_handler E s Cb_um_logout se fr = um_on_auth_req_logout_f2b E s se fr"
| "alpha_handler E s (Cb_um_del_user i) se fr = um_del_user s i"
| "alpha_handler E s Cb_rm_established se fr = rm_on_empty s se fr"
| "alpha_handler E s Cb_rm_closed se fr = rm_on_empty s se fr"
| "alpha_handler E s Cb_rm_runner_up se fr = rm_on_room_syn_runner_up s se fr"
| "alpha_handler E s Cb_rm_req_create se fr = rm_on_room_req_create_f2b E s se fr"
| "alpha_handler E s Cb_rm_res_create se fr = rm_on_empty s se fr"
| "alpha_handler E s Cb_rm_req_page se fr = rm_on_empty s se fr"
| "alpha_handler E s Cb_rm_req_reserve se fr = rm_on_empty s se fr"
| "alpha_handler E s Cb_rm_res_reserve se fr = rm_on_empty s se fr"
| "alpha_handler E s Cb_lr_established_back se fr = lr_on_established_back E s se"
| "alpha_handler E s Cb_lr_req_login se fr = lr_on_auth_req_login E s se fr"
| "alpha_handler E s Cb_lr_syn_login se fr = lr_on_auth_syn_login_b2f E s se fr"
| "alpha_handler E s Cb_lr_syn_logout se fr = Inr s"
| "alpha_handler E s Cb_lr_res_create se fr = lr_on_room_res_create_b2f s fr"
| "alpha_handler E s (Cb_lr_del_user i) se fr = lr_del_user s i"
| "alpha_handler E s (Cb_lu_logout i) se fr = lu_on_auth_req_logout E s i"
| "alpha_handler E s (Cb_lu_closed i) se fr = lu_on_session_closed E s i"
| "alpha_handler E s (Cb_lu_req_create i) se fr = lu_on_room_req_create E s i fr"
| "alpha_handler E s (Cb_lu_req_page i) se fr = lu_on_room_req_page E s i fr"
| "alpha_handler E s (Cb_lu_login_failed i) se fr = lu_on_login_fail_pending E s i"
| "alpha_handler E s (Cb_lu_create_failed i) se fr = lu_create_failed E s i"
| "alpha_handler E s (Cb_lu_page_failed i) se fr = lu_page_failed E s i"
| "alpha_handler E s Cb_lu_nothing se fr = Inr s"
| "alpha_handler E s Cb_rr_established_back se fr = rr_on_established_back E s se"
| "alpha_handler E s Cb_rr_req_create se fr = rr_on_room_req_create_b2f E s fr"
| "alpha_handler E s Cb_rr_req_reserve se fr = rr_on_room_req_reserve_b2f E s fr"
| "alpha_handler E s Cb_rr_req_checkin se fr = rr_on_room_req_checkin E s se fr"
| "alpha_handler E s (Cb_ra_del_user r i) se fr = ra_del_user s r i"
| "alpha_handler E s (Cb_ru_chat r i) se fr = ru_on_req_chat E s r i fr"
| "alpha_handler E s (Cb_ru_leave r i) se fr = ru_on_req_leave E s r i"
| "alpha_handler E s (Cb_ru_closed r i) se fr = ru_on_closed E s r i"

fun alpha_run :: "('p, 'u) alpha_env \<Rightarrow> ('p, 'u) alpha \<Rightarrow> (alpha_cb, alpha_frame) post \<Rightarrow> ('p, 'u) alpha res" where
  "alpha_run E s (Post_receive r st (User_cb cb) se fr) = alpha_handler E s cb se fr"
| "alpha_run E s (Post_call r st cb) = alpha_handler E s cb 0 None"
| "alpha_run E s (Post_handler r st cb) = alpha_handler E s cb 0 None"
| "alpha_run E s p = bind_res (run_post (ev_nd E) (al_pulses s) p) (\<lambda>w. Inr (al_set_pulses s w))"

text \<open>A frame of a session reaches the pulse of the server.\<close>

definition alpha_on_receive :: "('p, 'u) alpha_env \<Rightarrow> ('p, 'u) alpha \<Rightarrow> alpha_frame unpackers \<Rightarrow> nat \<Rightarrow> topic \<Rightarrow> bytes \<Rightarrow> ('p, 'u) alpha res" where
  "alpha_on_receive E s unpackers se t data =
     bind_res (pulse_on_receive (ev_nd E) (fb_unpack_frame unpackers) (al_pulses s) (al_pulse s) se t data) (\<lambda>w. Inr (al_set_pulses s w))"

end
