(* ===== verification/Alpha_Props.thy ===== *)
theory Alpha_Props
  imports Alpha_App
begin

text \<open>
  What the services of the sample guarantee: a room never takes more users than its capacity.
  The occupancy of a room is followed through every reservation; the ids handed out to the
  waiting users are what makes it grow.
\<close>

section \<open>Lemmas\<close>

lemma alpha_send_frame:
  "alpha_send E s a t obj = Inr s' \<Longrightarrow> al_rooms s' = al_rooms s \<and> al_next_id s' = al_next_id s"
  by (auto simp: alpha_send_def bind_res_eq_Inr)

lemma reserve_reply_frame:
  "ra_send_res_reserve_f2b E s r n ec = Inr s' \<Longrightarrow> al_rooms s' = al_rooms s \<and> al_next_id s' = al_next_id s"
  by (auto simp: ra_send_res_reserve_f2b_def ra_deref_def split: option.splits dest: alpha_send_frame)

definition occupancy :: "'u room_actor \<Rightarrow> nat" where
  "occupancy x = container_size (ra_users x) + container_size (ra_pending_users x)"

text \<open>The ids of the users waiting for a room were all handed out before.\<close>

definition pending_known :: "('p, 'u) alpha \<Rightarrow> 'u room_actor \<Rightarrow> bool" where
  "pending_known s x \<longleftrightarrow> finite (dom (co_actors (ra_pending_users x))) \<and> (\<forall>i \<in> dom (co_actors (ra_pending_users x)). i < al_next_id s)"

lemma container_size_add:
  "co_actors c (ai_id a) = None \<Longrightarrow> finite (dom (co_actors c)) \<Longrightarrow> container_size (fst (container_add cfg c a)) = Suc (container_size c)"
  by (auto simp: container_size_def container_add_def domIff)

lemma reserve_step:
  assumes "ra_do_reserve E s r n = Inr s'" and "rr_objs (al_rooms s) r = Some x" and "pending_known s x"
  shows "\<exists>x'. rr_objs (al_rooms s') r = Some x' \<and> pending_known s' x' \<and> ra_capacity x' = ra_capacity x \<and> ra_users x' = ra_users x \<and>
    occupancy x' = (if occupancy x < ra_capacity x then Suc (occupancy x) else occupancy x)"
proof (cases "occupancy x < ra_capacity x")
  case True
  let ?a = "\<lparr>ai_id = al_next_id s, ai_name = n, ai_session_key = 0, ai_uuid = ev_uuid E (al_next_id s)\<rparr>"
  have new: "co_actors (ra_pending_users x) (al_next_id s) = None"
    using assms(3) by (auto simp: pending_known_def domIff)
  obtain pending where p: "container_add room_pending_config (ra_pending_users x) ?a = (pending, True)"
    using new by (simp add: container_add_def)
  have dom: "dom (co_actors pending) = insert (al_next_id s) (dom (co_actors (ra_pending_users x)))"
    using p new by (auto simp: container_add_def)
  have size: "container_size pending = Suc (container_size (ra_pending_users x))"
    using container_size_add [of "ra_pending_users x" ?a room_pending_config] assms(3) new p by (simp add: pending_known_def)
  from assms(1,2) True p have "rr_objs (al_rooms s') r = Some (x\<lparr>ra_pending_users := pending,
      ra_objs := (ra_objs x)(al_next_id s \<mapsto> \<lparr>ru_name = n, ru_session = 0, ru_pulse = 0\<rparr>)\<rparr>) \<and> al_next_id s' = Suc (al_next_id s)"
    by (auto simp: ra_do_reserve_def ra_deref_def occupancy_def keep_actor_def Let_def ra_put_def dest!: reserve_reply_frame)
  then show ?thesis using True dom size assms(3) by (auto simp: occupancy_def pending_known_def less_Suc_eq)
next
  case False
  with assms show ?thesis
    by (auto simp: ra_do_reserve_def ra_deref_def occupancy_def pending_known_def dest!: reserve_reply_frame)
qed

text \<open>A broadcast leaves the pulses, and with them what is posted, alone.\<close>

lemma sc_send_pulses:
  assumes "sc_send P nd F w sc pic obj enc = Inr (w', ok)"
  shows "fb_pulses w' = fb_pulses w"
proof -
  have "sc_send_all (\<lambda>w se. fb_send P nd F w se pic obj enc) w b ss = Inr (w', ok) \<Longrightarrow> fb_pulses w' = fb_pulses w" for b ss
    by (induction ss arbitrary: w b) (auto simp: fb_send_def bind_res_eq_Inr split: if_splits option.splits)
  then show ?thesis using assms by (simp add: sc_send_def)
qed

lemma um_send_fronts_frame:
  "um_send_fronts E s t obj = Inr s' \<Longrightarrow> al_user_master s' = al_user_master s \<and> al_pulses s' = al_pulses s"
  by (auto simp: um_send_fronts_def bind_res_eq_Inr al_pulses_def dest: sc_send_pulses)

lemma alpha_post_posts:
  "alpha_post E s a cb = Inr s' \<Longrightarrow> al_user_master s' = al_user_master s \<and> (\<exists>r st. Post_handler r st cb \<in> set (pw_posts (al_pulses s')))"
  by (auto simp: alpha_post_def pulse_post_def bind_res_eq_Inr play_check_eq_Inr deref_eq_Inr al_pulses_def al_set_pulses_def) blast+

section \<open>Properties\<close>

text \<open>
  C24. A room is never overbooked: however many reservations it is asked for, the users in it and
  the users that hold a reservation together grow by one with each until its capacity is
  reached and stay there.
\<close>

theorem reservations_fill_up_to_capacity:
  assumes "fold_res (\<lambda>s n. ra_do_reserve E s r n) s names = Inr s'" and "rr_objs (al_rooms s) r = Some x"
    and "pending_known s x" and "occupancy x \<le> ra_capacity x"
  shows "\<exists>x'. rr_objs (al_rooms s') r = Some x' \<and> ra_users x' = ra_users x \<and> ra_capacity x' = ra_capacity x \<and>
    occupancy x' = min (ra_capacity x) (occupancy x + length names)"
  using assms
proof (induction names arbitrary: s x)
  case (Cons n ns)
  obtain s1 where s1: "ra_do_reserve E s r n = Inr s1" "fold_res (\<lambda>s n. ra_do_reserve E s r n) s1 ns = Inr s'"
    using Cons.prems(1) by (auto simp: bind_res_eq_Inr)
  obtain x1 where x1: "rr_objs (al_rooms s1) r = Some x1" "pending_known s1 x1" "ra_capacity x1 = ra_capacity x"
    "ra_users x1 = ra_users x" "occupancy x1 = (if occupancy x < ra_capacity x then Suc (occupancy x) else occupancy x)"
    using reserve_step [OF s1(1) Cons.prems(2,3)] by blast
  have "occupancy x1 \<le> ra_capacity x1" using x1(3,5) Cons.prems(4) by auto
  then show ?case using Cons.IH [OF s1(2) x1(1,2)] x1(3-5) Cons.prems(4) by auto
qed simp

text \<open>A process with one room (1) for two users, whose back-end pulse has a session that is closed.\<close>

definition demo_env :: "bool \<Rightarrow> (plain_protocol, string) alpha_env" where
  "demo_env nd = \<lparr>ev_ops = plain_ops, ev_nd = nd, ev_fb = \<lparr>fb_pack = (\<lambda>_. [1]), fb_verify = (\<lambda>_. True), fb_unpack = (\<lambda>_. Req_logout)\<rparr>,
     ev_uuid = show_nat, ev_uuid_string = id, ev_uuid_from = Some\<rparr>"

definition demo_room :: "string room_actor" where
  "demo_room = ra_create ''room'' 2 ''me'' ''1''"

definition demo_process :: "(plain_protocol, string) alpha" where
  "demo_process = (let s = alpha_create 10 False in s\<lparr>
     al_fb := (al_fb s)\<lparr>fb_pulses := \<lparr>pw_pulse = [2 \<mapsto> pulse_default\<lparr>pu_session := 40\<rparr>], pw_next = 3, pw_posts = []\<rparr>,
       fb_sessions := [40 \<mapsto> session_create False]\<rparr>,
     al_rooms := (al_rooms s)\<lparr>rr_pulse_back := 2, rr_objs := [1 \<mapsto> demo_room]\<rparr>\<rparr>)"

lemma demo_reserve:
  "al_fb s = al_fb demo_process \<Longrightarrow> rr_pulse_back (al_rooms s) = 2 \<Longrightarrow> rr_objs (al_rooms s) r = Some x \<Longrightarrow> pending_known s x \<Longrightarrow>
    \<exists>s'. ra_do_reserve (demo_env nd) s r n = Inr s' \<and> al_fb s' = al_fb demo_process \<and> rr_pulse_back (al_rooms s') = 2"
  by (auto simp: ra_do_reserve_def ra_deref_def ra_send_res_reserve_f2b_def alpha_send_def fb_pulse_send_def fb_send_def
      session_send_def demo_env_def demo_process_def session_create_def ra_put_def keep_actor_def deref_def
      container_add_def pending_known_def domIff Let_def pulse_default_def alpha_create_def split: option.splits)

lemma demo_reserves:
  "al_fb s = al_fb demo_process \<Longrightarrow> rr_pulse_back (al_rooms s) = 2 \<Longrightarrow> rr_objs (al_rooms s) r = Some x \<Longrightarrow> pending_known s x \<Longrightarrow>
    \<exists>s'. fold_res (\<lambda>s n. ra_do_reserve (demo_env nd) s r n) s names = Inr s'"
proof (induction names arbitrary: s x)
  case (Cons n ns)
  obtain t where t: "ra_do_reserve (demo_env nd) s r n = Inr t" "al_fb t = al_fb demo_process" "rr_pulse_back (al_rooms t) = 2"
    using demo_reserve [OF Cons.prems] by blast
  then show ?case using reserve_step [OF t(1) Cons.prems(3,4)] Cons.IH [of t] by auto
qed simp

lemma demo_start: "rr_pulse_back (al_rooms demo_process) = 2" "rr_objs (al_rooms demo_process) 1 = Some demo_room" "pending_known demo_process demo_room"
    "occupancy demo_room = 0" "ra_capacity demo_room = 2"
  by (simp_all add: demo_process_def demo_room_def ra_create_def alpha_create_def pending_known_def container_create_def occupancy_def container_size_def Let_def)

theorem reservations_fill_up_to_capacity_witness:
  "\<exists>s' x'. fold_res (\<lambda>s n. ra_do_reserve (demo_env True) s 1 n) demo_process [''ann'', ''bob'', ''cid''] = Inr s' \<and>
     rr_objs (al_rooms s') 1 = Some x' \<and> occupancy x' = 2"
proof -
  obtain s' where s': "fold_res (\<lambda>s n. ra_do_reserve (demo_env True) s 1 n) demo_process [''ann'', ''bob'', ''cid''] = Inr s'"
    using demo_reserves [OF refl demo_start(1-3)] by blast
  show ?thesis using reservations_fill_up_to_capacity [OF s' demo_start(2,3)] s' by (auto simp: demo_start(4,5))
qed

text \<open>
  C39. The back end keeps a user that logs in under a free name: the user is found by that name
  with the id made for the login, and a logout of that name posts the deletion of exactly that
  id. The deletion, when it runs, is undefined.
\<close>

theorem login_then_logout:
  assumes "co_names (um_users (al_user_master s)) name = None" and "co_actors (um_users (al_user_master s)) (al_next_id s) = None"
    and "um_on_auth_req_login_f2b E s se (Some (Req_login_f2b name password)) = Inr s1"
    and "um_on_auth_req_logout_f2b E s1 se (Some (Req_logout_f2b name)) = Inr s2"
  shows "\<exists>user r st. container_find (um_users (al_user_master s1)) (By_name name) = Some user \<and>
    ai_id user = al_next_id s \<and> ai_name user = name \<and>
    Post_handler r st (Cb_um_del_user (al_next_id s)) \<in> set (pw_posts (al_pulses s2)) \<and>
    alpha_run E s2 (Post_handler r st (Cb_um_del_user (al_next_id s))) = Inl Undefined"
proof -
  let ?a = "\<lparr>ai_id = al_next_id s, ai_name = name, ai_session_key = se, ai_uuid = ev_uuid E (al_next_id s)\<rparr>"
  obtain users where users: "container_add user_config (um_users (al_user_master s)) ?a = (users, True)"
    using assms(2) by (simp add: container_add_def)
  have s1: "um_users (al_user_master s1) = users"
    using assms(3) users by (auto simp: um_on_auth_req_login_f2b_def keep_actor_def Let_def dest!: um_send_fronts_frame)
  have found: "container_find users (By_name name) = Some ?a" "container_iter users (By_id (al_next_id s)) = Some (al_next_id s)"
    using users assms(1,2) by (auto simp: container_add_def container_find_def index_find_def index_link_def user_config_def)
  obtain s3 where s3: "alpha_post E s1 (um_pulse (al_user_master s1)) (Cb_um_del_user (al_next_id s)) = Inr s3"
    "um_send_fronts E s3 auth_syn_login_b2f (Syn_logout_b2f name) = Inr s2"
    using assms(4) found(1) s1 by (auto simp: um_on_auth_req_logout_f2b_def um_post_del_user_def bind_res_eq_Inr)
  have same: "al_user_master s2 = al_user_master s1" "al_pulses s2 = al_pulses s3"
    using alpha_post_posts [OF s3(1)] um_send_fronts_frame [OF s3(2)] by auto
  obtain r st where "Post_handler r st (Cb_um_del_user (al_next_id s)) \<in> set (pw_posts (al_pulses s2))"
    using alpha_post_posts [OF s3(1)] same(2) by auto
  moreover have "alpha_run E s2 (Post_handler r st (Cb_um_del_user (al_next_id s))) = Inl Undefined"
    using found(2) by (simp add: um_del_user_def same(1) s1 container_del_def user_config_def)
  ultimately show ?thesis using found(1) s1 by fastforce
qed

definition demo_back :: "(plain_protocol, string) alpha" where
  "demo_back = (let s = alpha_create 10 False in s\<lparr>
     al_fb := (al_fb s)\<lparr>fb_pulses := \<lparr>pw_pulse = [1 \<mapsto> pulse_default\<lparr>pu_runner := 7\<rparr>], pw_next = 2, pw_posts = []\<rparr>\<rparr>,
     al_user_master := (al_user_master s)\<lparr>um_pulse := 1\<rparr>\<rparr>)"

lemma demo_back_run:
  "\<exists>s1 s2. um_on_auth_req_login_f2b (demo_env False) demo_back 40 (Some (Req_login_f2b ''ann'' ''pw'')) = Inr s1 \<and>
    um_on_auth_req_logout_f2b (demo_env False) s1 40 (Some (Req_logout_f2b ''ann'')) = Inr s2"
  by (simp add: demo_back_def demo_env_def um_on_auth_req_login_f2b_def um_on_auth_req_logout_f2b_def alpha_create_def container_add_def
      container_create_def keep_actor_def um_send_fronts_def sc_send_def container_find_def index_find_def index_link_def user_config_def
      um_post_del_user_def alpha_post_def pulse_post_def deref_def get_runner_def numeral_2_eq_2 al_pulses_def al_set_pulses_def Let_def)

theorem login_then_logout_witness:
  "\<exists>s1 s2 r st. um_on_auth_req_login_f2b (demo_env False) demo_back 40 (Some (Req_login_f2b ''ann'' ''pw'')) = Inr s1 \<and>
    um_on_auth_req_logout_f2b (demo_env False) s1 40 (Some (Req_logout_f2b ''ann'')) = Inr s2 \<and>
    alpha_run (demo_env False) s2 (Post_handler r st (Cb_um_del_user 10)) = Inl Undefined"
proof -
  have free: "co_names (um_users (al_user_master demo_back)) ''ann'' = None"
    "co_actors (um_users (al_user_master demo_back)) (al_next_id demo_back) = None" "al_next_id demo_back = 10"
    by (simp_all add: demo_back_def alpha_create_def container_create_def Let_def)
  obtain s1 s2 where run: "um_on_auth_req_login_f2b (demo_env False) demo_back 40 (Some (Req_login_f2b ''ann'' ''pw'')) = Inr s1"
    "um_on_auth_req_logout_f2b (demo_env False) s1 40 (Some (Req_logout_f2b ''ann'')) = Inr s2"
    using demo_back_run by blast
  show ?thesis using login_then_logout [OF free(1,2) run] run free(3) by auto
qed

end
