(* ===== verification/Alpha_Start.thy ===== *)
theory Alpha_Start
  imports Alpha_Props
begin

text \<open>
  Starting and stopping a process of the sample. What the services do to the pulses when they
  start never takes a child away (\<open>keeps_children\<close>), and succeeds under a pulse that has a
  runner (\<open>hub\<close>).
\<close>

section \<open>Lemmas\<close>

lemma al_set_pulses_simps [simp]:
  "al_pulses (al_set_pulses s w) = w" "al_set_pulses (al_set_pulses s w) w' = al_set_pulses s w'"
  "al_pulse (al_set_pulses s w) = al_pulse s" "al_pulse_back (al_set_pulses s w) = al_pulse_back s"
  "al_stop (al_set_pulses s w) = al_stop s" "al_role (al_set_pulses s w) = al_role s"
  "al_runner (al_set_pulses s w) = al_runner s" "al_shared (al_set_pulses s w) = al_shared s"
  by (simp_all add: al_set_pulses_def al_pulses_def)

lemma al_pulses_simps [simp]:
  "al_pulses (s\<lparr>al_next_id := i\<rparr>) = al_pulses s" "al_pulses (s\<lparr>al_stop := b\<rparr>) = al_pulses s"
  "al_pulses (s\<lparr>al_role := r\<rparr>) = al_pulses s" "al_pulses (s\<lparr>al_runner := a\<rparr>) = al_pulses s"
  "al_pulses (s\<lparr>al_lobby := l\<rparr>) = al_pulses s" "al_pulses (s\<lparr>al_rooms := rr\<rparr>) = al_pulses s"
  "al_pulses (s\<lparr>al_user_master := um\<rparr>) = al_pulses s" "al_pulses (s\<lparr>al_room_master := rm\<rparr>) = al_pulses s"
  by (simp_all add: al_pulses_def)

lemma catch_false_True: "catch_false m s k = Inr (s', True) \<longleftrightarrow> (\<exists>x. m = Inr x \<and> k x = Inr (s', True))"
  by (cases m) (auto simp: catch_false_def split: fault.splits)

text \<open>
  A running pulse with children. Nothing the services do when they start takes a child away, and
  the parent of a new child is such a pulse.
\<close>

definition parented :: "('cb, 'f) world \<Rightarrow> nat \<Rightarrow> bool" where
  "parented w a \<longleftrightarrow> a \<noteq> 0 \<and> a < pw_next w \<and> (\<exists>p. pw_pulse w a = Some p \<and> pu_childs p \<noteq> [] \<and> \<not> pu_stop p)"

definition running :: "('cb, 'f) world \<Rightarrow> nat \<Rightarrow> bool" where
  "running w a \<longleftrightarrow> a \<noteq> 0 \<and> a < pw_next w \<and> (\<exists>p. pw_pulse w a = Some p \<and> \<not> pu_stop p)"

definition keeps_children :: "('cb, 'f) world \<Rightarrow> ('cb, 'f) world \<Rightarrow> bool" where
  "keeps_children w w' \<longleftrightarrow> (\<forall>a. (parented w a \<longrightarrow> parented w' a) \<and> (running w a \<longrightarrow> running w' a))"

lemma keeps_children_trans [trans]: "keeps_children w w' \<Longrightarrow> keeps_children w' w'' \<Longrightarrow> keeps_children w w''"
  by (auto simp: keeps_children_def)

lemma keeps_children_refl [simp]: "keeps_children w w"
  by (simp add: keeps_children_def)

lemma put_keeps:
  "pw_pulse w a = Some p \<Longrightarrow> pu_stop p' = pu_stop p \<Longrightarrow> (pu_childs p \<noteq> [] \<Longrightarrow> pu_childs p' \<noteq> []) \<Longrightarrow> keeps_children w (put w a p')"
  by (auto simp: keeps_children_def parented_def running_def put_def)

lemma modify_keeps:
  "modify w a f = Inr w' \<Longrightarrow> (\<And>p. pu_stop (f p) = pu_stop p \<and> pu_childs (f p) = pu_childs p) \<Longrightarrow> keeps_children w w'"
  by (auto simp: modify_def deref_eq_Inr intro: put_keeps)

lemma new_keeps: "pulse_new w = (w', a) \<Longrightarrow> keeps_children w w'"
  by (auto simp: pulse_new_def keeps_children_def parented_def running_def)

lemma oset_insert_nonempty [simp]: "oset_insert x xs \<noteq> []"
  by (cases xs) auto

lemma bind_keeps: "bind_child nd w a c = Inr w' \<Longrightarrow> keeps_children w w' \<and> (running w a \<longrightarrow> parented w' a)"
  by (auto simp: bind_child_def deref_eq_Inr play_check_eq_Inr put_keeps parented_def running_def split: if_splits)

lemma show_interest_keeps: "show_interest nd w a c k t = Inr w' \<Longrightarrow> keeps_children w w'"
  by (auto simp: show_interest_def deref_eq_Inr play_check_eq_Inr Let_def intro: put_keeps)

lemma subscribe_keeps:
  assumes "pulse_subscribe nd w a t cb = Inr w'"
  shows "keeps_children w w'"
proof -
  obtain p subs ints where p: "pw_pulse w a = Some p"
    and w': "w' = put w a (p\<lparr>pu_subscriptions := subs\<rparr>) \<or>
      (\<exists>r. show_interest nd (put w a (p\<lparr>pu_subscriptions := subs, pu_self_interests := ints\<rparr>)) r a (pu_session p) t = Inr w')"
    using assms by (simp add: pulse_subscribe_def deref_eq_Inr play_check_eq_Inr bind_res_eq_Inr Let_def split: if_splits) blast+
  have "keeps_children w (put w a (p\<lparr>pu_subscriptions := subs\<rparr>))"
    "keeps_children w (put w a (p\<lparr>pu_subscriptions := subs, pu_self_interests := ints\<rparr>))"
    using p by (auto intro: put_keeps)
  with w' show ?thesis using show_interest_keeps keeps_children_trans by blast
qed

lemma subscribe_all_keeps: "subscribe_all nd w a subs = Inr w' \<Longrightarrow> keeps_children w w'"
  unfolding subscribe_all_def
  by (induction subs arbitrary: w) (auto simp: bind_res_eq_Inr dest!: subscribe_keeps intro: keeps_children_trans)

lemma start_keeps: "pulse_start nd w a ok = Inr (w', b) \<Longrightarrow> keeps_children w w'"
  by (auto simp: pulse_start_def deref_eq_Inr play_check_eq_Inr bind_res_eq_Inr intro!: put_keeps split: if_splits pulse_mode.splits)

lemma as_child_keeps: "as_child nd w a parent = Inr w' \<Longrightarrow> keeps_children w w' \<and> (running w parent \<longrightarrow> parented w' parent)"
  by (auto simp: as_child_def play_check_eq_Inr bind_res_eq_Inr dest!: modify_keeps bind_keeps)
    (auto simp: keeps_children_def)

lemma with_keeps:
  "with_strand w a k = Inr w' \<Longrightarrow> keeps_children w w'"
  "with_session w a k = Inr w' \<Longrightarrow> keeps_children w w'"
  "mark_final w a = Inr w' \<Longrightarrow> keeps_children w w'"
  by (auto simp: with_strand_def with_session_def mark_final_def dest!: modify_keeps)

lemma make_child_keeps:
  assumes "make_child nd w parent k se final subs = Inr (w', a)"
  shows "keeps_children w w' \<and> (running w parent \<longrightarrow> parented w' parent)"
proof -
  obtain w1 w2 w3 w4 w5 w6 b where 1: "pulse_new w = (w1, a)" and 2: "as_child nd w1 a parent = Inr w2"
    and 3: "with_strand w2 a k = Inr w3" and 4: "(case se of None \<Rightarrow> Inr w3 | Some ss \<Rightarrow> with_session w3 a ss) = Inr w4"
    and 5: "(if final then mark_final w4 a else Inr w4) = Inr w5" and 6: "subscribe_all nd w5 a subs = Inr w6"
    and 7: "pulse_start nd w6 a True = Inr (w', b)"
    using assms by (auto simp: make_child_def bind_res_eq_Inr split: prod.splits)
  have "keeps_children w3 w4" using 4 with_keeps(2) by (auto split: option.splits)
  moreover have "keeps_children w4 w5" using 5 with_keeps(3) by (auto split: if_splits)
  ultimately have "keeps_children w2 w'"
    using with_keeps(1) [OF 3] subscribe_all_keeps [OF 6] start_keeps [OF 7] keeps_children_trans by blast
  then show ?thesis using new_keeps [OF 1] as_child_keeps [OF 2] by (auto simp: keeps_children_def)
qed

lemma lr_on_start_keeps:
  assumes "lr_on_start E s = Inr s'" and "running (al_pulses s) (al_pulse s)"
  shows "al_pulse s' = al_pulse s \<and> al_role s' = al_role s \<and> al_stop s' = al_stop s \<and> al_runner s' = al_runner s \<and>
    al_pulse_back s' = al_pulse_back s \<and> parented (al_pulses s') (al_pulse s)"
  using assms by (auto simp: lr_on_start_def bind_res_eq_Inr Let_def keeps_children_def dest!: make_child_keeps)

lemma rr_on_start_keeps:
  assumes "rr_on_start E s = Inr s'"
  shows "al_pulse s' = al_pulse s \<and> al_role s' = al_role s \<and> al_stop s' = al_stop s \<and> al_runner s' = al_runner s \<and>
    keeps_children (al_pulses s) (al_pulses s')"
  using assms by (auto simp: rr_on_start_def bind_res_eq_Inr Let_def keeps_children_def dest!: make_child_keeps)

lemma um_on_start_keeps:
  assumes "um_on_start E s = Inr s'" and "running (al_pulses s) (al_pulse s)"
  shows "al_pulse s' = al_pulse s \<and> al_role s' = al_role s \<and> al_stop s' = al_stop s \<and> al_runner s' = al_runner s \<and>
    parented (al_pulses s') (al_pulse s)"
  using assms by (auto simp: um_on_start_def bind_res_eq_Inr Let_def keeps_children_def dest!: make_child_keeps)

lemma rm_on_start_keeps:
  assumes "rm_on_start E s = Inr s'"
  shows "al_pulse s' = al_pulse s \<and> al_role s' = al_role s \<and> al_stop s' = al_stop s \<and> al_runner s' = al_runner s \<and>
    keeps_children (al_pulses s) (al_pulses s')"
  using assms by (auto simp: rm_on_start_def bind_res_eq_Inr Let_def keeps_children_def dest!: make_child_keeps)

lemma start_services_keeps:
  assumes "alpha_start_services E s ok = Inr (s', b)" and "running (al_pulses s) (al_pulse s)"
  shows "al_pulse s' = al_pulse s \<and> al_stop s' = al_stop s \<and> al_role s' = al_role s \<and> al_runner s' = al_runner s \<and>
    parented (al_pulses s') (al_pulse s)"
  using assms
  by (auto simp: alpha_start_services_def Let_def bind_res_eq_Inr play_check_eq_Inr keeps_children_def split: if_splits
      dest!: lr_on_start_keeps rr_on_start_keeps um_on_start_keeps rm_on_start_keeps start_keeps)

lemma as_endpoint_keeps:
  "as_server nd w a r port = Inr w' \<Longrightarrow> keeps_children w w'"
  "as_client nd w a r addr = Inr w' \<Longrightarrow> keeps_children w w'"
  by (auto simp: as_server_def as_client_def play_check_eq_Inr dest: modify_keeps)

lemma alpha_as_client_keeps: "alpha_as_client E s r addr = Inr w \<Longrightarrow> keeps_children (al_pulses s) w \<and> al_shared s"
  by (auto simp: alpha_as_client_def alpha_pulse_fn_def bind_res_eq_Inr split: if_splits
      dest!: as_endpoint_keeps subscribe_keeps intro: keeps_children_trans)

text \<open>A successful start goes through to the services, with a role the process can have.\<close>

lemma alpha_start_reaches:
  assumes "alpha_start E s jconf hw runner listen_ok connect_ok = Inr (s', True)" and "running (al_pulses s) (al_pulse s)"
  shows "\<exists>t. alpha_start_services E t connect_ok = Inr (s', True) \<and> al_pulse t = al_pulse s \<and> \<not> al_stop t \<and> al_runner t = runner \<and>
    (al_role t = ''front'' \<longrightarrow> al_shared s) \<and> running (al_pulses t) (al_pulse s)"
proof -
  let ?s1 = "\<lambda>role. s\<lparr>al_stop := False, al_role := role, al_runner := runner\<rparr>"
  have ok: "(if \<not> rc then Inr (t, False) else k) = Inr (s', True) \<longleftrightarrow> rc \<and> k = Inr (s', True)"
    for rc k and t :: "('a, 'b) alpha" by simp
  obtain role port w1 w2 w3 where server: "as_server (ev_nd E) (al_pulses s) (al_pulse s) runner port = Inr w1"
    and start: "pulse_start (ev_nd E) w1 (al_pulse s) listen_ok = Inr (w2, True)"
    and client: "(if role = ''front'' then
        bind_res (json_read_value get_string jconf ''alpha.backend'' ''127.0.0.1:7000'') (alpha_as_client E (al_set_pulses (?s1 role) w2) runner)
      else Inr w2) = Inr w3"
    and services: "alpha_start_services E (al_set_pulses (?s1 role) w3) connect_ok = Inr (s', True)"
    using assms(1) unfolding alpha_start_def Let_def by (auto simp: catch_false_True ok cong: if_cong)
  have "keeps_children w2 w3 \<and> (role = ''front'' \<longrightarrow> al_shared s)"
    using client by (auto simp: bind_res_eq_Inr dest!: alpha_as_client_keeps split: if_splits)
  then have "running w3 (al_pulse s)" "role = ''front'' \<longrightarrow> al_shared s"
    using assms(2) as_endpoint_keeps(1) [OF server] start_keeps [OF start] by (auto simp: keeps_children_def)
  then show ?thesis using services by (intro exI [of _ "al_set_pulses (?s1 role) w3"]) simp
qed

lemma create_running: "running (al_pulses (alpha_create i shared)) (al_pulse (alpha_create i shared))"
  by (simp add: running_def al_pulses_def alpha_create_def pulse_new_def world_empty_def pulse_default_def)

section \<open>Properties\<close>

text \<open>
  A process of the sample that has started cannot be stopped: stopping it stops the pulse
  that listens first, while the pulses of its services are still its children, and that pulse
  then throws. A process no shared pointer owns, as the one of the main function, starts as a
  back end only: a front end throws when it subscribes to the end of its connection.
\<close>

theorem started_process_cannot_stop:
  assumes "alpha_start E (alpha_create i shared) jconf hw runner listen_ok connect_ok = Inr (s, True)" and "runner \<noteq> 0"
  shows "alpha_stop E s = Inl (Thrown Play_error) \<and> (al_role s = ''front'' \<longrightarrow> shared)"
proof -
  obtain t where t: "alpha_start_services E t connect_ok = Inr (s, True)" "\<not> al_stop t" "al_runner t = runner" "running (al_pulses t) (al_pulse t)"
    "al_role t = ''front'' \<longrightarrow> shared"
    using alpha_start_reaches [OF assms(1) create_running] by (auto simp: alpha_create_def)
  then have "\<not> al_stop s" "al_runner s = runner" "parented (al_pulses s) (al_pulse s)" "al_role s = ''front'' \<longrightarrow> shared"
    using start_services_keeps [OF t(1,4)] by simp_all
  then show ?thesis using assms(2) by (auto simp: alpha_stop_def pulse_stop_def parented_def Let_def)
qed

lemma demo_config:
  "json_read_value get_int (J_object []) ''alpha.concurrency'' n = Inr n"
  "json_read_value get_int (J_object []) ''alpha.port'' n = Inr n"
  "json_read_value get_string (J_object []) ''alpha.role'' r = Inr r"
proof -
  have "split (join (CHR ''.'') [''alpha'', x]) ''.'' = [''alpha'', x]" if "x \<in> {''concurrency'', ''port'', ''role''}" for x
    using that by (intro split_join) auto
  from this [of "''concurrency''"] this [of "''port''"] this [of "''role''"] show
  "json_read_value get_int (J_object []) ''alpha.concurrency'' n = Inr n"
  "json_read_value get_int (J_object []) ''alpha.port'' n = Inr n"
  "json_read_value get_string (J_object []) ''alpha.role'' r = Inr r"
  by (simp_all add: json_read_value_def json_read_def json_contains_def)
qed

text \<open>A pulse children can be made of, and a child of it; making children of it succeeds.\<close>

definition hub :: "('cb, 'f) world \<Rightarrow> nat \<Rightarrow> bool" where
  "hub w a \<longleftrightarrow> 0 < a \<and> a < pw_next w \<and> (\<exists>p. pw_pulse w a = Some p \<and> pu_parent p = 0 \<and> pu_runner p \<noteq> 0 \<and> \<not> pu_final p)"

definition hub_child :: "('cb, 'f) world \<Rightarrow> nat \<Rightarrow> nat \<Rightarrow> bool" where
  "hub_child w a c \<longleftrightarrow> hub w a \<and> a < c \<and> c < pw_next w \<and> (\<exists>q. pw_pulse w c = Some q \<and> pu_parent q = a \<and> pu_mode q = Mode_child \<and> pu_runner q = 0)"

lemma hub_child_fuel: "hub_child w a c \<Longrightarrow> \<exists>n. pw_next w = Suc (Suc n)"
  by (intro exI [of _ "pw_next w - 2"]) (auto simp: hub_child_def hub_def)

lemma hub_child_subscribe:
  assumes "hub_child w a c"
  shows "\<exists>w'. pulse_subscribe nd w c t cb = Inr w' \<and> hub_child w' a c"
proof -
  obtain n where "pw_next w = Suc (Suc n)" using hub_child_fuel [OF assms] by blast
  then show ?thesis using assms
    by (auto simp: hub_child_def hub_def pulse_subscribe_def deref_def put_def is_root_def get_root_def show_interest_def Let_def)
qed

lemma hub_child_subscribe_all: "hub_child w a c \<Longrightarrow> \<exists>w'. subscribe_all nd w c subs = Inr w' \<and> hub_child w' a c"
  unfolding subscribe_all_def
proof (induction subs arbitrary: w)
  case (Cons x xs)
  obtain w1 where "pulse_subscribe nd w c (fst x) (User_cb (snd x)) = Inr w1" "hub_child w1 a c"
    using hub_child_subscribe [OF Cons.prems] by blast
  then show ?case using Cons.IH [of w1] by (cases x) auto
qed simp

lemma hub_as_child:
  "hub w a \<Longrightarrow> \<exists>w'. bind_res (as_child nd (fst (pulse_new w)) (pw_next w) a) (\<lambda>w2. with_strand w2 (pw_next w) k) = Inr w' \<and>
    hub_child w' a (pw_next w)"
  by (auto simp: hub_child_def hub_def as_child_def bind_child_def with_strand_def modify_def deref_def put_def pulse_new_def pulse_default_def)

lemma hub_child_start: "hub_child w a c \<Longrightarrow> \<exists>b. pulse_start nd w c ok = Inr (w, b)"
  using hub_child_fuel [of w a c] by (auto simp: hub_child_def hub_def pulse_start_def get_runner_def deref_def)

lemma hub_make_child:
  assumes "hub w a"
  shows "\<exists>w' c. make_child nd w a k None False subs = Inr (w', c) \<and> c \<noteq> 0 \<and> hub w' a"
proof -
  let ?c = "pw_next w"
  obtain w3 where 3: "bind_res (as_child nd (fst (pulse_new w)) ?c a) (\<lambda>w2. with_strand w2 ?c k) = Inr w3" "hub_child w3 a ?c"
    using hub_as_child [OF assms] by blast
  obtain w6 where 6: "subscribe_all nd w3 ?c subs = Inr w6" "hub_child w6 a ?c" using hub_child_subscribe_all [OF 3(2)] by blast
  then show ?thesis using assms 3(1) hub_child_start [OF 6(2), of nd True]
    by (auto simp: make_child_def pulse_new_def bind_res_eq_Inr hub_child_def hub_def)
qed

lemma back_services_start:
  assumes "hub (al_pulses s) (al_pulse s)"
  shows "\<exists>s'. um_on_start E s = Inr s' \<and> hub (al_pulses s') (al_pulse s')" "\<exists>s'. rm_on_start E s = Inr s'"
proof -
  have field: "al_pulses ((al_set_pulses s w)\<lparr>al_user_master := y\<rparr>) = w" for w y by (simp add: al_pulses_def al_set_pulses_def)
  have frame: "al_pulse (al_set_pulses s w) = al_pulse s" for w by (simp add: al_set_pulses_def)
  let ?subs = "[(topic_established, Cb_um_established), (topic_closed, Cb_um_closed),
        (topic_value auth_req_login_f2b, Cb_um_login), (topic_value auth_req_logout_f2b, Cb_um_logout)]"
  obtain w c where "make_child (ev_nd E) (al_pulses s) (al_pulse s) (um_id (al_user_master s)) None False ?subs = Inr (w, c)" "c \<noteq> 0" "hub w (al_pulse s)"
    using hub_make_child [OF assms] by blast
  then show "\<exists>s'. um_on_start E s = Inr s' \<and> hub (al_pulses s') (al_pulse s')"
    by (simp add: um_on_start_def sc_bind_def field frame Let_def del: topic_value.simps)
  show "\<exists>s'. rm_on_start E s = Inr s'"
    unfolding rm_on_start_def Let_def using hub_make_child [OF assms] by (smt (verit) bind_res_Inr case_prod_conv)
qed

lemma demo_started: "\<exists>s. alpha_start (demo_env False) (alpha_create 10 False :: (plain_protocol, string) alpha) (J_object []) 8 1 True True = Inr (s, True)"
proof -
  let ?s = "alpha_create 10 False :: (plain_protocol, string) alpha"
  have p: "al_pulse ?s = 1" by (simp_all add: alpha_create_def)
  obtain w where w: "as_server False (al_pulses ?s) 1 1 7000 = Inr w" "hub w 1" "\<exists>p. pw_pulse w 1 = Some p \<and> pu_mode p = Mode_server"
    by (simp add: alpha_create_def al_pulses_def as_server_def modify_def deref_def put_def pulse_new_def world_empty_def pulse_default_def hub_def)
  then obtain w2 where w2: "pulse_start False w 1 True = Inr (w2, True)" "hub w2 1"
    by (auto simp: pulse_start_def deref_def hub_def put_def get_runner_def gr0_conv_Suc dest!: less_imp_Suc_add)
  let ?t = "(?s\<lparr>al_stop := False, al_role := ''back'', al_runner := 1\<rparr>)"
  let ?t1 = "al_set_pulses ?t w2"
  let ?i = "al_next_id ?t1"
  let ?t2 = "?t1\<lparr>al_next_id := Suc ?i, al_user_master := (al_user_master ?t1)\<lparr>um_id := ?i\<rparr>\<rparr>"
  have "hub (al_pulses ?t2) (al_pulse ?t2)" using w2(2) by (simp add: al_pulses_def al_set_pulses_def alpha_create_def)
  then obtain t3 where t3: "um_on_start (demo_env False) ?t2 = Inr t3" "hub (al_pulses t3) (al_pulse t3)" using back_services_start(1) by blast
  let ?t4 = "t3\<lparr>al_next_id := Suc (Suc ?i), al_room_master := (al_room_master t3)\<lparr>rm_id := Suc ?i\<rparr>\<rparr>"
  have "hub (al_pulses ?t4) (al_pulse ?t4)" using t3(2) by (simp add: al_pulses_def)
  then obtain t5 where t5: "rm_on_start (demo_env False) ?t4 = Inr t5" using back_services_start(2) by blast
  have nd: "ev_nd (demo_env False) = False" by (simp add: demo_env_def)
  have role: "al_role ?t1 = ''back''" by (simp add: al_set_pulses_def)
  have "alpha_start_services (demo_env False) ?t1 True = Inr (t5, True)"
    unfolding alpha_start_services_def Let_def role using t3(1) t5 nd by simp
  moreover have "al_pulses ?t = al_pulses ?s" by (simp add: al_pulses_def)
  ultimately show ?thesis using w(1) w2(1) p by (auto simp: alpha_start_def demo_config nd Let_def catch_false_True)
qed

theorem started_process_cannot_stop_witness:
  "\<exists>s. alpha_start (demo_env False) (alpha_create 10 False :: (plain_protocol, string) alpha) (J_object []) 8 1 True True = Inr (s, True) \<and>
    alpha_stop (demo_env False) s = Inl (Thrown Play_error) \<and> al_role s \<noteq> ''front''"
  using demo_started started_process_cannot_stop [where E = "demo_env False" and i = 10 and shared = False and jconf = "J_object []" and hw = 8 and runner = 1
    and listen_ok = True and connect_ok = True] by (metis one_neq_zero)

end
