(* ===== verification/Alpha_Acts.thy ===== *)
theory Alpha_Acts
  imports Alpha_Start
begin

text \<open>
  \<^verbatim>\<open>sample/alpha/ensure\<close>: the two acts with which a bot tests the sample. One connects a
  pulse to the lobby and leaves it on the blackboard of the bot, the other puts a child under that
  pulse and waits for the reply to a login. The pulse objects and the blackboard are the state;
  \<open>bot_id\<close> is the id of the bot.
\<close>

section \<open>Connecting\<close>

datatype bot_cb = Cb_connected nat | Cb_login_reply nat

text \<open>
  What \<^verbatim>\<open>on_load_json\<close> reads. The base constructor calls the virtual function before the
  derived object exists, so the address of a new act is the empty string.
\<close>

definition connect_lobby_on_load_json :: "json \<Rightarrow> string res" where
  "connect_lobby_on_load_json json = json_read_value get_string json ''address'' ''127.0.0.1:7000''"

text \<open>
  \<open>runner\<close> is the runner of \<^verbatim>\<open>ensure::get()\<close>, null until that object is started. A second
  pulse does not replace the one on the blackboard and is destroyed with its last pointer.
\<close>

definition connect_lobby_on_activate :: "bool \<Rightarrow> (bot_cb, alpha_frame) world \<Rightarrow> (string \<rightharpoonup> nat) \<Rightarrow> nat \<Rightarrow> nat \<Rightarrow> string \<Rightarrow> nat \<Rightarrow> bool
    \<Rightarrow> ((bot_cb, alpha_frame) world \<times> (string \<rightharpoonup> nat) \<times> bool) res" where
  "connect_lobby_on_activate nd w board runner act address bot_id connect_ok =
     (case pulse_new w of (w1, lobby) \<Rightarrow>
      let board1 = board_set board ''lobby'' lobby in
      if runner = 0 then Inl Undefined
      else
        bind_res (as_client nd w1 lobby runner address) (\<lambda>w2.
        bind_res (with_strand w2 lobby bot_id) (\<lambda>w3.
        bind_res (pulse_subscribe nd w3 lobby topic_established (User_cb (Cb_connected act))) (\<lambda>w4.
        bind_res (pulse_start nd w4 lobby connect_ok) (\<lambda>(w5, _).
        bind_res (if board_get board1 ''lobby'' = Some lobby then Inr w5 else pulse_destroy nd w5 lobby) (\<lambda>w6.
          Inr (w6, board1, True)))))))"

section \<open>Logging in\<close>

text \<open>\<^verbatim>\<open>get_ptr\<close> gives a null pointer for a key that is not there. \<open>own\<close> is \<^verbatim>\<open>pulse_\<close>.\<close>

definition board_get_ptr :: "(string \<rightharpoonup> nat) \<Rightarrow> string \<Rightarrow> nat" where
  "board_get_ptr m k = (case m k of None \<Rightarrow> 0 | Some p \<Rightarrow> p)"

definition auth_login_on_activate :: "bool \<Rightarrow> (bot_cb, alpha_frame) world \<Rightarrow> (string \<rightharpoonup> nat) \<Rightarrow> nat \<Rightarrow> nat \<Rightarrow> nat
    \<Rightarrow> ((bot_cb, alpha_frame) world \<times> nat \<times> bool) res" where
  "auth_login_on_activate nd w board own act bot_id =
     (case pulse_new w of (w1, a) \<Rightarrow>
        bind_res (pulse_reset nd w1 own) (\<lambda>w2.
        bind_res (as_child nd w2 a (board_get_ptr board ''lobby'')) (\<lambda>w3.
        bind_res (with_strand w3 a bot_id) (\<lambda>w4.
        bind_res (pulse_subscribe nd w4 a (topic_value auth_res_login) (User_cb (Cb_login_reply act))) (\<lambda>w5.
        bind_res (pulse_start nd w5 a True) (\<lambda>(w6, _). Inr (w6, a, True)))))))"

definition auth_login_on_deactivate :: "bool \<Rightarrow> (bot_cb, alpha_frame) world \<Rightarrow> nat \<Rightarrow> ((bot_cb, alpha_frame) world \<times> nat) res" where
  "auth_login_on_deactivate nd w own = bind_res (pulse_reset nd w own) (\<lambda>w'. Inr (w', 0))"

section \<open>Lemmas\<close>

text \<open>
  A bot that connects and then logs in has its login pulse under the pulse of the lobby.
\<close>

lemma connect_lobby_hub:
  assumes "runner \<noteq> 0" and "board ''lobby'' = None" and "0 < pw_next w"
  shows "\<exists>w'. connect_lobby_on_activate nd w board runner act address bot_id ok = Inr (w', board(''lobby'' \<mapsto> pw_next w), True) \<and>
    hub w' (pw_next w) \<and> pw_next w' = Suc (pw_next w)"
  using assms by (auto simp: connect_lobby_on_activate_def pulse_new_def board_set_def board_get_def as_client_def with_strand_def modify_def deref_def
      put_def pulse_subscribe_def pulse_start_def get_runner_def pulse_default_def is_root_def hub_def Let_def)

theorem connect_then_login:
  assumes "runner \<noteq> 0" and "board ''lobby'' = None" and "0 < pw_next w"
  shows "\<exists>w1 w2 a. connect_lobby_on_activate nd w board runner act address bot_id ok = Inr (w1, board(''lobby'' \<mapsto> pw_next w), True) \<and>
    auth_login_on_activate nd w1 (board(''lobby'' \<mapsto> pw_next w)) 0 act2 bot_id = Inr (w2, a, True) \<and> hub_child w2 (pw_next w) a"
proof -
  obtain w1 where w1: "connect_lobby_on_activate nd w board runner act address bot_id ok = Inr (w1, board(''lobby'' \<mapsto> pw_next w), True)"
    "hub w1 (pw_next w)" using connect_lobby_hub [of runner board w] assms by blast
  let ?c = "pw_next w1"
  obtain w4 where w4: "bind_res (as_child nd (fst (pulse_new w1)) ?c (pw_next w)) (\<lambda>w3. with_strand w3 ?c bot_id) = Inr w4"
    "hub_child w4 (pw_next w) ?c" using hub_as_child [OF w1(2)] by blast
  obtain w5 where w5: "pulse_subscribe nd w4 ?c (topic_value auth_res_login) (User_cb (Cb_login_reply act2)) = Inr w5" "hub_child w5 (pw_next w) ?c"
    using hub_child_subscribe [OF w4(2)] by blast
  then show ?thesis using w1(1) w4(1) w5 hub_child_start [OF w5(2), of nd True]
    by (auto simp: auth_login_on_activate_def pulse_new_def pulse_reset_def board_get_ptr_def bind_res_eq_Inr)
qed

end
