(* ===== verification/Db_Odbc.thy ===== *)
theory Db_Odbc
  imports Play_Prelude
begin

text \<open>
  \<^verbatim>\<open>play/db\<close>: what \<^verbatim>\<open>nanodbc.cpp\<close> works on. ODBC is a parameter: a driver
  answers every call from the calls made so far (\<open>odbc\<close>), so a theorem about all drivers is one
  about all answers. Objects behind shared pointers live in stores, by address. A member function is a
  computation \<open>'a dbm\<close> on the state that returns a value or stops in a fault: an exception
  (which a \<^verbatim>\<open>catch\<close> sees), an abort, undefined behaviour or a call that does not return (which
  it does not).

  The build modelled is the one for unixODBC 3.80 headers: \<^verbatim>\<open>NANODBC_DO_ASYNC_IMPL\<close> is
  defined, \<^verbatim>\<open>NANODBC_DISABLE_MSSQL_TVP\<close> (so that there are table-valued parameters) and
  \<^verbatim>\<open>NANODBC_ENABLE_WORKAROUND_NODATA\<close> are not.
\<close>

section \<open>ODBC\<close>

datatype retcode = Sql_success | Sql_success_with_info | Sql_error | Sql_invalid_handle | Sql_no_data
  | Sql_need_data | Sql_still_executing

type_synonym handle = nat

datatype handle_type = Handle_env | Handle_dbc | Handle_stmt | Handle_desc

datatype sql_attr = Attr_odbc_version | Attr_autocommit | Attr_login_timeout | Attr_async_dbc_functions_enable
  | Attr_async_dbc_event | Attr_query_timeout | Attr_paramset_size | Attr_row_array_size | Attr_rows_fetched_ptr
  | Attr_async_enable | Attr_async_stmt_event | Attr_row_number | Attr_current_catalog
  | Attr_imp_param_desc | Attr_imp_row_desc | Attr_param_focus | Attr_name_scope | Attr_other nat

datatype attr_value = Value_int int | Value_text string | Value_bytes bytes

datatype completion = Sql_commit | Sql_rollback

datatype orientation = Fetch_next | Fetch_first | Fetch_last | Fetch_prior | Fetch_absolute | Fetch_relative

datatype free_option = Sql_close | Sql_reset_params

datatype sql_call =
    Alloc_handle handle_type handle
  | Free_handle handle_type handle
  | Set_env_attr handle sql_attr int
  | Set_connect_attr handle sql_attr attr_value int
  | Get_connect_attr handle sql_attr
  | Get_info handle int
  | Connect handle string "string option" "string option"
  | Driver_connect handle string
  | Disconnect handle
  | End_tran handle completion
  | Complete_async handle_type handle
  | Set_stmt_attr handle sql_attr int
  | Get_stmt_attr handle sql_attr
  | Cancel handle
  | Free_stmt handle free_option
  | Prepare handle string
  | Exec_direct handle string
  | Execute handle
  | Row_count handle
  | Num_result_cols handle
  | Num_params handle
  | Describe_param handle int
  | Bind_parameter handle int int int int nat int nat bool
  | Describe_col handle int
  | Bind_col handle int int bool nat
  | Fetch_scroll handle orientation int
  | Get_data handle int int nat
  | Col_type_name handle int
  | More_results handle
  | Data_sources handle orientation
  | Drivers handle orientation
  | Tables handle "string option" "string option" "string option" "string option"
  | Columns handle "string option" "string option" "string option" "string option"
  | Primary_keys handle "string option" "string option" "string option"
  | Procedures handle "string option" "string option" "string option"
  | Procedure_columns handle "string option" "string option" "string option" "string option"
  | Table_privileges handle "string option" "string option" "string option"
  | Get_desc_field handle int int "nat option"
  | Bind_table handle int nat string
  | Fetch handle

text \<open>Descriptions of parameters and columns that ODBC writes.\<close>

record param_descr =
  pd_type :: int
  pd_size :: nat
  pd_scale :: int

record column_descr =
  cd_name :: string
  cd_sqltype :: int
  cd_size :: nat
  cd_scale :: int

text \<open>
  A driver: the return code of the last call of a list, and what it wrote to the caller's
  variables. \<open>od_cells\<close> gives, after a fetch, the indicators and data of the rows of a bound
  column (0-based), \<open>od_piece\<close> what \<^verbatim>\<open>SQLGetData\<close> wrote.
\<close>

record odbc =
  od_rc :: "sql_call list \<Rightarrow> retcode"
  od_handle :: "sql_call list \<Rightarrow> handle"
  od_number :: "sql_call list \<Rightarrow> int"
  od_text :: "sql_call list \<Rightarrow> string \<times> string"
  od_complete :: "sql_call list \<Rightarrow> retcode"
  od_param :: "sql_call list \<Rightarrow> param_descr"
  od_column :: "sql_call list \<Rightarrow> column_descr"
  od_rows_fetched :: "sql_call list \<Rightarrow> nat"
  od_cells :: "sql_call list \<Rightarrow> nat \<Rightarrow> (int \<times> bytes) list"
  od_piece :: "sql_call list \<Rightarrow> int \<times> bytes"

definition success :: "retcode \<Rightarrow> bool" where
  "success rc \<longleftrightarrow> rc = Sql_success \<or> rc = Sql_success_with_info"

section \<open>Objects\<close>

record connection_impl =
  cn_env :: handle
  cn_dbc :: handle
  cn_connected :: bool
  cn_transactions :: nat
  cn_rollback :: bool

record transaction_impl =
  ta_conn :: nat
  ta_committed :: bool

record bound_parameter =
  bp_size :: nat
  bp_index :: int
  bp_iotype :: int
  bp_type :: int
  bp_scale :: int

record statement_impl =
  st_stmt :: handle
  st_open :: bool
  st_conn :: nat
  st_bind_len_or_null :: "int \<rightharpoonup> int list"
  st_string_data :: "int \<rightharpoonup> string"
  st_binary_data :: "int \<rightharpoonup> bytes"
  st_param_descr :: "int \<rightharpoonup> bound_parameter"
  st_async :: bool
  st_async_enabled :: bool
  st_async_event :: nat
  st_tvp_data :: "int \<rightharpoonup> nat"
  st_open_tvp :: bool

record bound_column =
  bc_name :: string
  bc_column :: nat
  bc_sqltype :: int
  bc_sqlsize :: nat
  bc_scale :: int
  bc_ctype :: int
  bc_clen :: nat
  bc_blob :: bool
  bc_cbdata :: "int list option"
  bc_pdata :: "bytes list option"
  bc_bound :: bool

record result_impl =
  rs_stmt :: nat
  rs_rowset_size :: int
  rs_row_count :: nat
  rs_columns :: "bound_column list"
  rs_position :: int
  rs_by_name :: "string \<rightharpoonup> nat"
  rs_at_end :: bool
  rs_async :: bool

record tvp_impl =
  tv_stmt :: "nat option"
  tv_row_count :: nat
  tv_name :: string
  tv_param_index :: int
  tv_open :: bool
  tv_bind_len_or_null :: "int \<rightharpoonup> int list"
  tv_string_data :: "int \<rightharpoonup> string"
  tv_binary_data :: "int \<rightharpoonup> bytes"
  tv_param_descr :: "int \<rightharpoonup> bound_parameter"

record db =
  db_calls :: "sql_call list"
  db_conns :: "nat \<rightharpoonup> connection_impl"
  db_trans :: "nat \<rightharpoonup> transaction_impl"
  db_stmts :: "nat \<rightharpoonup> statement_impl"
  db_results :: "nat \<rightharpoonup> result_impl"
  db_tvps :: "nat \<rightharpoonup> tvp_impl"
  db_next :: nat

section \<open>Computations\<close>

datatype db_exn = Database_error handle handle_type | Programming_error string | Index_range_error
  | Null_access_error | Type_incompatible_error | Std_out_of_range | Std_invalid_argument | Std_range_error | Std_length_error
  | Std_runtime_error string

datatype db_fault = Db_throw db_exn | Db_abort | Db_undefined | Db_loops

type_synonym 'a dbm = "db \<Rightarrow> db \<times> (db_fault + 'a)"

definition db_return :: "'a \<Rightarrow> 'a dbm" where
  "db_return x = (\<lambda>s. (s, Inr x))"

definition db_fail :: "db_fault \<Rightarrow> 'a dbm" where
  "db_fail e = (\<lambda>s. (s, Inl e))"

definition db_throw :: "db_exn \<Rightarrow> 'a dbm" where
  "db_throw e = db_fail (Db_throw e)"

definition db_bind :: "'a dbm \<Rightarrow> ('a \<Rightarrow> 'b dbm) \<Rightarrow> 'b dbm" where
  "db_bind m k = (\<lambda>s. case m s of (s', Inl e) \<Rightarrow> (s', Inl e) | (s', Inr x) \<Rightarrow> k x s')"

definition db_then :: "'a dbm \<Rightarrow> 'b dbm \<Rightarrow> 'b dbm" where
  "db_then m k = db_bind m (\<lambda>_. k)"

text \<open>\<^verbatim>\<open>try { m } catch (...) { h }\<close>.\<close>

definition db_catch :: "'a dbm \<Rightarrow> (db_exn \<Rightarrow> 'a dbm) \<Rightarrow> 'a dbm" where
  "db_catch m h = (\<lambda>s. case m s of (s', Inl (Db_throw e)) \<Rightarrow> h e s' | r \<Rightarrow> r)"

definition db_when :: "bool \<Rightarrow> unit dbm \<Rightarrow> unit dbm" where
  "db_when b m = (if b then m else db_return ())"

definition db_gets :: "(db \<Rightarrow> 'a) \<Rightarrow> 'a dbm" where
  "db_gets f = (\<lambda>s. (s, Inr (f s)))"

definition db_modify :: "(db \<Rightarrow> db) \<Rightarrow> unit dbm" where
  "db_modify f = (\<lambda>s. (f s, Inr ()))"

fun db_each :: "('a \<Rightarrow> unit dbm) \<Rightarrow> 'a list \<Rightarrow> unit dbm" where
  "db_each f [] = db_return ()"
| "db_each f (x # xs) = db_then (f x) (db_each f xs)"

definition db_assert :: "bool \<Rightarrow> bool \<Rightarrow> unit dbm" where
  "db_assert ndebug c = (if c \<or> ndebug then db_return () else db_fail Db_abort)"

text \<open>One ODBC call; a call whose failure throws.\<close>

definition sql :: "odbc \<Rightarrow> sql_call \<Rightarrow> retcode dbm" where
  "sql D c = (\<lambda>s. (s\<lparr>db_calls := db_calls s @ [c]\<rparr>, Inr (od_rc D (db_calls s @ [c]))))"

definition sql_ok :: "odbc \<Rightarrow> sql_call \<Rightarrow> handle \<Rightarrow> handle_type \<Rightarrow> unit dbm" where
  "sql_ok D c h ht = db_bind (sql D c) (\<lambda>rc. if success rc then db_return () else db_throw (Database_error h ht))"

text \<open>What the driver wrote in the last call.\<close>

definition written :: "(sql_call list \<Rightarrow> 'a) \<Rightarrow> 'a dbm" where
  "written f = db_gets (\<lambda>s. f (db_calls s))"

text \<open>Members of an object, read and assigned; a dangling address is undefined.\<close>

definition the_obj :: "'a option \<Rightarrow> 'a dbm" where
  "the_obj x = (case x of None \<Rightarrow> db_fail Db_undefined | Some y \<Rightarrow> db_return y)"

definition conn_get :: "nat \<Rightarrow> connection_impl dbm" where
  "conn_get a = db_bind (db_gets db_conns) (\<lambda>m. the_obj (m a))"

definition conn_put :: "nat \<Rightarrow> (connection_impl \<Rightarrow> connection_impl) \<Rightarrow> unit dbm" where
  "conn_put a f = db_bind (conn_get a) (\<lambda>c. db_modify (db_conns_update (\<lambda>m. m(a \<mapsto> f c))))"

definition trans_get :: "nat \<Rightarrow> transaction_impl dbm" where
  "trans_get a = db_bind (db_gets db_trans) (\<lambda>m. the_obj (m a))"

definition trans_put :: "nat \<Rightarrow> (transaction_impl \<Rightarrow> transaction_impl) \<Rightarrow> unit dbm" where
  "trans_put a f = db_bind (trans_get a) (\<lambda>t. db_modify (db_trans_update (\<lambda>m. m(a \<mapsto> f t))))"

definition stmt_get :: "nat \<Rightarrow> statement_impl dbm" where
  "stmt_get a = db_bind (db_gets db_stmts) (\<lambda>m. the_obj (m a))"

definition stmt_put :: "nat \<Rightarrow> (statement_impl \<Rightarrow> statement_impl) \<Rightarrow> unit dbm" where
  "stmt_put a f = db_bind (stmt_get a) (\<lambda>t. db_modify (db_stmts_update (\<lambda>m. m(a \<mapsto> f t))))"

definition result_get :: "nat \<Rightarrow> result_impl dbm" where
  "result_get a = db_bind (db_gets db_results) (\<lambda>m. the_obj (m a))"

definition result_put :: "nat \<Rightarrow> (result_impl \<Rightarrow> result_impl) \<Rightarrow> unit dbm" where
  "result_put a f = db_bind (result_get a) (\<lambda>t. db_modify (db_results_update (\<lambda>m. m(a \<mapsto> f t))))"

text \<open>\<^verbatim>\<open>new\<close>: a fresh address.\<close>

definition db_new :: "nat dbm" where
  "db_new = (\<lambda>s. (s\<lparr>db_next := Suc (db_next s)\<rparr>, Inr (db_next s)))"

text \<open>A conversion to a signed 16-bit integer.\<close>

definition to_smallint :: "int \<Rightarrow> int" where
  "to_smallint i = (i + 2 ^ 15) mod 2 ^ 16 - 2 ^ 15"

section \<open>Handles\<close>

text \<open>
  The helpers take the handle variable by reference: here its value, and the assignments to it
  (\<open>assign\<close>) happen in the order of the code. After an assignment the variable is read again as the
  value assigned.
\<close>

definition deallocate_handle :: "odbc \<Rightarrow> handle \<Rightarrow> (handle \<Rightarrow> unit dbm) \<Rightarrow> handle_type \<Rightarrow> unit dbm" where
  "deallocate_handle D h assign ht =
     (if h = 0 then db_return () else db_then (sql_ok D (Free_handle ht h) h ht) (assign 0))"

definition allocate_env_handle :: "odbc \<Rightarrow> handle \<Rightarrow> (handle \<Rightarrow> unit dbm) \<Rightarrow> unit dbm" where
  "allocate_env_handle D env assign =
     (if env \<noteq> 0 then db_return ()
      else db_bind (sql D (Alloc_handle Handle_env 0)) (\<lambda>rc. db_bind (written (od_handle D)) (\<lambda>h. db_then (assign h)
        (if \<not> success rc then db_throw (Database_error h Handle_env)
         else db_catch (sql_ok D (Set_env_attr h Attr_odbc_version 380) h Handle_env)
           (\<lambda>e. db_then (deallocate_handle D h assign Handle_env) (db_throw e))))))"

definition allocate_dbc_handle :: "odbc \<Rightarrow> bool \<Rightarrow> handle \<Rightarrow> (handle \<Rightarrow> unit dbm) \<Rightarrow> handle \<Rightarrow> unit dbm" where
  "allocate_dbc_handle D nd conn assign env =
     db_then (db_assert nd (env \<noteq> 0))
      (if conn \<noteq> 0 then db_return ()
       else db_bind (sql D (Alloc_handle Handle_dbc env)) (\<lambda>rc. db_bind (written (od_handle D)) (\<lambda>h. db_then (assign h)
         (db_catch (if success rc then db_return () else db_throw (Database_error env Handle_env))
           (\<lambda>e. db_then (deallocate_handle D h assign Handle_dbc) (db_throw e))))))"

section \<open>Lemmas\<close>


lemma run_return [simp]: "db_return x s = (s, Inr x)" by (simp add: db_return_def)
lemma run_throw [simp]: "db_throw e s = (s, Inl (Db_throw e))" by (simp add: db_throw_def db_fail_def)
lemma run_fail [simp]: "db_fail e s = (s, Inl e)" by (simp add: db_fail_def)
lemma run_gets [simp]: "db_gets f s = (s, Inr (f s))" by (simp add: db_gets_def)
lemma run_modify [simp]: "db_modify f s = (f s, Inr ())" by (simp add: db_modify_def)
lemma run_new [simp]: "db_new s = (s\<lparr>db_next := Suc (db_next s)\<rparr>, Inr (db_next s))" by (simp add: db_new_def)
lemma run_written [simp]: "written f s = (s, Inr (f (db_calls s)))" by (simp add: written_def)
lemma run_sql [simp]: "sql D c s = (s\<lparr>db_calls := db_calls s @ [c]\<rparr>, Inr (od_rc D (db_calls s @ [c])))" by (simp add: sql_def)
lemma run_assert [simp]: "db_assert nd c s = (s, if c \<or> nd then Inr () else Inl Db_abort)" by (simp add: db_assert_def)
lemma run_when [simp]: "db_when b m s = (if b then m s else (s, Inr ()))" by (simp add: db_when_def)

lemma run_bind [simp]: "m s = (s', Inr x) \<Longrightarrow> db_bind m k s = k x s'"
  and run_bind_fault [simp]: "m s = (s', Inl e) \<Longrightarrow> db_bind m k s = (s', Inl e)"
  by (simp_all add: db_bind_def)

lemma run_bind_bool [simp]: "m s = (s', Inr True) \<Longrightarrow> db_bind m k s = k True s'" "m s = (s', Inr False) \<Longrightarrow> db_bind m k s = k False s'"
  by simp_all

lemma run_then [simp]: "m s = (s', Inr x) \<Longrightarrow> db_then m k s = k s'"
  and run_then_fault [simp]: "m s = (s', Inl e) \<Longrightarrow> db_then m k s = (s', Inl e)"
  by (simp_all add: db_then_def)

lemma run_catch [simp]: "m s = (s', Inr x) \<Longrightarrow> db_catch m h s = (s', Inr x)"
  and run_catch_exn [simp]: "m s = (s', Inl (Db_throw e)) \<Longrightarrow> db_catch m h s = h e s'"
  by (simp_all add: db_catch_def)

lemma run_sql_ok [simp]:
  "sql_ok D c h ht s = (s\<lparr>db_calls := db_calls s @ [c]\<rparr>,
     if success (od_rc D (db_calls s @ [c])) then Inr () else Inl (Db_throw (Database_error h ht)))"
  by (simp add: sql_ok_def)

lemma run_conn_get [simp]: "db_conns s a = Some c \<Longrightarrow> conn_get a s = (s, Inr c)"
  by (simp add: conn_get_def the_obj_def)

lemma run_conn_put [simp]: "db_conns s a = Some c \<Longrightarrow> conn_put a f s = (s\<lparr>db_conns := (db_conns s)(a \<mapsto> f c)\<rparr>, Inr ())"
  by (simp add: conn_put_def)

lemma run_trans_get [simp]: "db_trans s a = Some c \<Longrightarrow> trans_get a s = (s, Inr c)"
  by (simp add: trans_get_def the_obj_def)

lemma run_trans_put [simp]: "db_trans s a = Some c \<Longrightarrow> trans_put a f s = (s\<lparr>db_trans := (db_trans s)(a \<mapsto> f c)\<rparr>, Inr ())"
  by (simp add: trans_put_def)

lemma run_stmt_get [simp]: "db_stmts s a = Some c \<Longrightarrow> stmt_get a s = (s, Inr c)"
  by (simp add: stmt_get_def the_obj_def)

lemma run_stmt_put [simp]: "db_stmts s a = Some c \<Longrightarrow> stmt_put a f s = (s\<lparr>db_stmts := (db_stmts s)(a \<mapsto> f c)\<rparr>, Inr ())"
  by (simp add: stmt_put_def)

lemma run_result_get [simp]: "db_results s a = Some c \<Longrightarrow> result_get a s = (s, Inr c)"
  by (simp add: result_get_def the_obj_def)

lemma run_result_put [simp]: "db_results s a = Some c \<Longrightarrow> result_put a f s = (s\<lparr>db_results := (db_results s)(a \<mapsto> f c)\<rparr>, Inr ())"
  by (simp add: result_put_def)

lemma to_smallint_id: "- (2 ^ 15) \<le> i \<Longrightarrow> i < 2 ^ 15 \<Longrightarrow> to_smallint i = i"
  by (simp add: to_smallint_def)

lemma success_simps [simp]: "success Sql_success" "success Sql_success_with_info" "\<not> success Sql_error"
  "\<not> success Sql_no_data" "\<not> success Sql_still_executing" "\<not> success Sql_invalid_handle" "\<not> success Sql_need_data"
  by (simp_all add: success_def)

section \<open>What computations do to the state\<close>

text \<open>
  A computation stays within a relation when every run of it, failed ones included, ends in a
  related state. A relation that is a preorder is kept by every way of putting computations
  together; invariants and bookkeeping of the objects are preorders.
\<close>

definition within :: "(db \<Rightarrow> db \<Rightarrow> bool) \<Rightarrow> 'a dbm \<Rightarrow> bool" where
  "within R m \<longleftrightarrow> (\<forall>s. R s (fst (m s)))"

lemma withinD: "within R m \<Longrightarrow> m s = (s', r) \<Longrightarrow> R s s'"
  by (metis fst_conv within_def)

locale db_preorder =
  fixes R :: "db \<Rightarrow> db \<Rightarrow> bool"
  assumes reflexive: "R s s"
    and transitive: "R s t \<Longrightarrow> R t u \<Longrightarrow> R s u"
begin

lemma within_pure: "within R (db_return x)" "within R (db_throw e)" "within R (db_fail f)" "within R (written g)"
  "within R (db_assert nd b)" "within R (db_gets k)"
  by (simp_all add: within_def reflexive)

lemma within_bind: "within R m \<Longrightarrow> (\<And>x. within R (k x)) \<Longrightarrow> within R (db_bind m k)"
  unfolding within_def by (auto simp: db_bind_def split: prod.split sum.split) (metis fst_conv transitive)+

lemma within_then: "within R m \<Longrightarrow> within R k \<Longrightarrow> within R (db_then m k)"
  by (simp add: db_then_def within_bind)

lemma within_catch: "within R m \<Longrightarrow> (\<And>e. within R (h e)) \<Longrightarrow> within R (db_catch m h)"
  unfolding within_def by (auto simp: db_catch_def split: prod.split sum.split db_fault.split) (metis fst_conv transitive)+

lemma within_if: "within R m \<Longrightarrow> within R n \<Longrightarrow> within R (if b then m else n)"
  by simp

lemma within_when: "within R m \<Longrightarrow> within R (db_when b m)"
  by (simp add: db_when_def within_pure)

lemma within_each: "(\<And>x. x \<in> set xs \<Longrightarrow> within R (f x)) \<Longrightarrow> within R (db_each f xs)"
  by (induction xs) (simp_all add: within_pure within_then)

lemma within_the_obj: "within R (the_obj x)"
  by (simp add: the_obj_def within_pure split: option.split)

lemma within_get: "within R (conn_get a)" "within R (trans_get a)" "within R (stmt_get a)" "within R (result_get a)"
  by (simp_all add: conn_get_def trans_get_def stmt_get_def result_get_def within_bind within_pure within_the_obj)

lemma within_option: "within R m \<Longrightarrow> (\<And>x. within R (k x)) \<Longrightarrow> within R (case y of None \<Rightarrow> m | Some x \<Rightarrow> k x)"
  by (cases y) simp_all

lemma within_prod: "(\<And>x y. within R (k x y)) \<Longrightarrow> within R (case p of (x, y) \<Rightarrow> k x y)"
  by (cases p) simp

lemmas within_rules = within_pure within_bind within_then within_catch within_if within_when within_the_obj within_get
  within_option within_prod

end

end
