(* ===== verification/Db_Connection.thy ===== *)
theory Db_Connection
  imports Db_Odbc
begin

text \<open>
  \<^verbatim>\<open>nanodbc::connection\<close> and its \<^verbatim>\<open>connection_impl\<close>: handles, attributes,
  connecting and disconnecting. A connection is the address of its implementation; the forwarding
  members of \<^verbatim>\<open>connection\<close> are the members of the implementation.
\<close>

section \<open>Definitions\<close>

record conn_attribute =
  ca_attribute :: sql_attr
  ca_string_length :: int
  ca_resource :: attr_value

text \<open>The pointer an attribute passes on: null for the number 0 only.\<close>

definition value_ptr :: "conn_attribute \<Rightarrow> attr_value option" where
  "value_ptr x = (if ca_resource x = Value_int 0 then None else Some (ca_resource x))"

definition sql_is_pointer :: int where "sql_is_pointer = -4"
definition sql_is_uinteger :: int where "sql_is_uinteger = -5"
definition sql_is_integer :: int where "sql_is_integer = -6"

definition conn_empty :: connection_impl where
  "conn_empty = \<lparr>cn_env = 0, cn_dbc = 0, cn_connected = False, cn_transactions = 0, cn_rollback = False\<rparr>"

definition set_env :: "nat \<Rightarrow> handle \<Rightarrow> unit dbm" where
  "set_env a h = conn_put a (\<lambda>c. c\<lparr>cn_env := h\<rparr>)"

definition set_dbc :: "nat \<Rightarrow> handle \<Rightarrow> unit dbm" where
  "set_dbc a h = conn_put a (\<lambda>c. c\<lparr>cn_dbc := h\<rparr>)"

definition conn_env_handle :: "odbc \<Rightarrow> nat \<Rightarrow> unit dbm" where
  "conn_env_handle D a = db_bind (conn_get a) (\<lambda>c. allocate_env_handle D (cn_env c) (set_env a))"

definition conn_dbc_handle :: "odbc \<Rightarrow> bool \<Rightarrow> nat \<Rightarrow> unit dbm" where
  "conn_dbc_handle D nd a = db_bind (conn_get a) (\<lambda>c. allocate_dbc_handle D nd (cn_dbc c) (set_dbc a) (cn_env c))"

definition conn_free_dbc :: "odbc \<Rightarrow> nat \<Rightarrow> unit dbm" where
  "conn_free_dbc D a = db_bind (conn_get a) (\<lambda>c. deallocate_handle D (cn_dbc c) (set_dbc a) Handle_dbc)"

definition conn_free_env :: "odbc \<Rightarrow> nat \<Rightarrow> unit dbm" where
  "conn_free_env D a = db_bind (conn_get a) (\<lambda>c. deallocate_handle D (cn_env c) (set_env a) Handle_env)"

definition conn_allocate :: "odbc \<Rightarrow> bool \<Rightarrow> nat \<Rightarrow> unit dbm" where
  "conn_allocate D nd a = db_then (conn_env_handle D a) (conn_dbc_handle D nd a)"

definition conn_deallocate :: "odbc \<Rightarrow> nat \<Rightarrow> unit dbm" where
  "conn_deallocate D a = db_then (conn_free_dbc D a) (conn_free_env D a)"

definition set_attribute :: "odbc \<Rightarrow> nat \<Rightarrow> sql_attr \<Rightarrow> int \<Rightarrow> attr_value \<Rightarrow> unit dbm" where
  "set_attribute D a attr len v =
     db_bind (conn_get a) (\<lambda>c. sql_ok D (Set_connect_attr (cn_dbc c) attr v len) (cn_dbc c) Handle_dbc)"

definition conn_enable_async :: "odbc \<Rightarrow> bool \<Rightarrow> nat \<Rightarrow> nat \<Rightarrow> unit dbm" where
  "conn_enable_async D nd a event = db_bind (conn_get a) (\<lambda>c. db_then (db_assert nd (cn_dbc c \<noteq> 0))
     (db_then (set_attribute D a Attr_async_dbc_functions_enable sql_is_integer (Value_int 1))
       (set_attribute D a Attr_async_dbc_event sql_is_pointer (Value_int (int event)))))"

definition conn_async_complete :: "odbc \<Rightarrow> bool \<Rightarrow> nat \<Rightarrow> unit dbm" where
  "conn_async_complete D nd a = db_bind (conn_get a) (\<lambda>c. db_then (db_assert nd (cn_dbc c \<noteq> 0))
     (db_bind (sql D (Complete_async Handle_dbc (cn_dbc c))) (\<lambda>rc. db_bind (written (od_complete D)) (\<lambda>arc.
       if \<not> success rc \<or> \<not> success arc then db_throw (Database_error (cn_dbc c) Handle_dbc)
       else db_then (conn_put a (\<lambda>c. c\<lparr>cn_connected := True\<rparr>))
         (set_attribute D a Attr_async_dbc_functions_enable sql_is_integer (Value_int 0))))))"

definition disconnect :: "odbc \<Rightarrow> nat \<Rightarrow> unit dbm" where
  "disconnect D a = db_bind (conn_get a) (\<lambda>c.
     db_then (db_when (cn_connected c) (sql_ok D (Disconnect (cn_dbc c)) (cn_dbc c) Handle_dbc))
       (conn_put a (\<lambda>c. c\<lparr>cn_connected := False\<rparr>)))"

text \<open>What both ways to connect do; \<open>call\<close> is the ODBC call on the new handle.\<close>

definition is_async_attr :: "conn_attribute \<Rightarrow> bool" where
  "is_async_attr x \<longleftrightarrow> ca_attribute x = Attr_async_dbc_functions_enable \<and> value_ptr x = Some (Value_int 1)"

definition apply_attribute :: "odbc \<Rightarrow> nat \<Rightarrow> conn_attribute \<Rightarrow> unit dbm" where
  "apply_attribute D a x = (case value_ptr x of None \<Rightarrow> db_return ()
     | Some v \<Rightarrow> set_attribute D a (ca_attribute x) (ca_string_length x) v)"

definition connect_by :: "odbc \<Rightarrow> bool \<Rightarrow> nat \<Rightarrow> conn_attribute list \<Rightarrow> (handle \<Rightarrow> sql_call) \<Rightarrow> retcode dbm" where
  "connect_by D nd a attrs call =
     db_then (conn_env_handle D a) (db_then (disconnect D a) (db_then (conn_free_dbc D a) (db_then (conn_dbc_handle D nd a)
      (db_then (db_each (apply_attribute D a) attrs) (db_bind (conn_get a) (\<lambda>c. db_bind (sql D (call (cn_dbc c))) (\<lambda>rc.
        if \<not> success rc \<and> (\<not> list_ex is_async_attr attrs \<or> rc \<noteq> Sql_still_executing)
        then db_throw (Database_error (cn_dbc c) Handle_dbc)
        else db_then (conn_put a (\<lambda>c. c\<lparr>cn_connected := success rc\<rparr>)) (db_return rc))))))))"

definition nonempty :: "string \<Rightarrow> string option" where
  "nonempty s = (if s = [] then None else Some s)"

definition connect_dsn :: "odbc \<Rightarrow> bool \<Rightarrow> nat \<Rightarrow> string \<Rightarrow> string \<Rightarrow> string \<Rightarrow> conn_attribute list \<Rightarrow> retcode dbm" where
  "connect_dsn D nd a dsn user pass attrs = connect_by D nd a attrs (\<lambda>h. Connect h dsn (nonempty user) (nonempty pass))"

definition connect_string :: "odbc \<Rightarrow> bool \<Rightarrow> nat \<Rightarrow> string \<Rightarrow> conn_attribute list \<Rightarrow> retcode dbm" where
  "connect_string D nd a cs attrs = connect_by D nd a attrs (\<lambda>h. Driver_connect h cs)"

definition timeout_attributes :: "int \<Rightarrow> nat \<Rightarrow> conn_attribute list" where
  "timeout_attributes timeout event =
     (if timeout \<noteq> 0 then [\<lparr>ca_attribute = Attr_login_timeout, ca_string_length = sql_is_uinteger, ca_resource = Value_int timeout\<rparr>] else []) @
     (if event \<noteq> 0 then
        [\<lparr>ca_attribute = Attr_async_dbc_functions_enable, ca_string_length = sql_is_uinteger, ca_resource = Value_int 1\<rparr>,
         \<lparr>ca_attribute = Attr_async_dbc_event, ca_string_length = sql_is_pointer, ca_resource = Value_int (int event)\<rparr>] else [])"

definition connect_dsn_timeout :: "odbc \<Rightarrow> bool \<Rightarrow> nat \<Rightarrow> string \<Rightarrow> string \<Rightarrow> string \<Rightarrow> int \<Rightarrow> nat \<Rightarrow> retcode dbm" where
  "connect_dsn_timeout D nd a dsn user pass timeout event = connect_dsn D nd a dsn user pass (timeout_attributes timeout event)"

definition connect_string_timeout :: "odbc \<Rightarrow> bool \<Rightarrow> nat \<Rightarrow> string \<Rightarrow> int \<Rightarrow> nat \<Rightarrow> retcode dbm" where
  "connect_string_timeout D nd a cs timeout event = connect_string D nd a cs (timeout_attributes timeout event)"

definition async_connect_dsn :: "odbc \<Rightarrow> bool \<Rightarrow> nat \<Rightarrow> string \<Rightarrow> string \<Rightarrow> string \<Rightarrow> nat \<Rightarrow> int \<Rightarrow> bool dbm" where
  "async_connect_dsn D nd a dsn user pass event timeout =
     db_bind (connect_dsn_timeout D nd a dsn user pass timeout event) (\<lambda>rc. db_return (rc = Sql_still_executing))"

definition async_connect_string :: "odbc \<Rightarrow> bool \<Rightarrow> nat \<Rightarrow> string \<Rightarrow> nat \<Rightarrow> int \<Rightarrow> bool dbm" where
  "async_connect_string D nd a cs event timeout =
     db_bind (connect_string_timeout D nd a cs timeout event) (\<lambda>rc. db_return (rc = Sql_still_executing))"

text \<open>
  The constructors. An exception out of a constructor destroys no object: only the
  \<^verbatim>\<open>catch\<close> around connecting frees handles.
\<close>

definition conn_create :: "nat dbm" where
  "conn_create = db_bind db_new (\<lambda>a. db_then (db_modify (db_conns_update (\<lambda>m. m(a \<mapsto> conn_empty)))) (db_return a))"

definition conn_construct :: "odbc \<Rightarrow> bool \<Rightarrow> (nat \<Rightarrow> retcode dbm) \<Rightarrow> nat dbm" where
  "conn_construct D nd connect = db_bind conn_create (\<lambda>a. db_then (conn_allocate D nd a)
     (db_then (db_catch (connect a) (\<lambda>e. db_then (conn_deallocate D a) (db_throw e))) (db_return a)))"

definition conn_create_dsn_timeout :: "odbc \<Rightarrow> bool \<Rightarrow> string \<Rightarrow> string \<Rightarrow> string \<Rightarrow> int \<Rightarrow> nat dbm" where
  "conn_create_dsn_timeout D nd dsn user pass timeout = conn_construct D nd (\<lambda>a. connect_dsn_timeout D nd a dsn user pass timeout 0)"

definition conn_create_string_timeout :: "odbc \<Rightarrow> bool \<Rightarrow> string \<Rightarrow> int \<Rightarrow> nat dbm" where
  "conn_create_string_timeout D nd cs timeout = conn_construct D nd (\<lambda>a. connect_string_timeout D nd a cs timeout 0)"

definition conn_create_dsn :: "odbc \<Rightarrow> bool \<Rightarrow> string \<Rightarrow> string \<Rightarrow> string \<Rightarrow> conn_attribute list \<Rightarrow> nat dbm" where
  "conn_create_dsn D nd dsn user pass attrs = conn_construct D nd (\<lambda>a. connect_dsn D nd a dsn user pass attrs)"

definition conn_create_string :: "odbc \<Rightarrow> bool \<Rightarrow> string \<Rightarrow> conn_attribute list \<Rightarrow> nat dbm" where
  "conn_create_string D nd cs attrs = conn_construct D nd (\<lambda>a. connect_string D nd a cs attrs)"

definition conn_destroy :: "odbc \<Rightarrow> nat \<Rightarrow> unit dbm" where
  "conn_destroy D a = db_then (db_catch (disconnect D a) (\<lambda>_. db_return ()))
     (db_catch (conn_deallocate D a) (\<lambda>_. db_return ()))"

definition ref_transaction :: "nat \<Rightarrow> nat dbm" where
  "ref_transaction a = db_bind (conn_get a) (\<lambda>c. db_then (conn_put a (\<lambda>c. c\<lparr>cn_transactions := Suc (cn_transactions c)\<rparr>))
     (db_return (Suc (cn_transactions c))))"

definition unref_transaction :: "nat \<Rightarrow> nat dbm" where
  "unref_transaction a = db_bind (conn_get a) (\<lambda>c. db_then
     (db_when (cn_transactions c > 0) (conn_put a (\<lambda>c. c\<lparr>cn_transactions := cn_transactions c - 1\<rparr>)))
     (db_return (cn_transactions c - 1)))"

definition set_rollback :: "nat \<Rightarrow> bool \<Rightarrow> unit dbm" where
  "set_rollback a onoff = conn_put a (\<lambda>c. c\<lparr>cn_rollback := onoff\<rparr>)"

text \<open>
  Strings from the driver come in a buffer of \<open>n\<close> characters, zeroed before the call,
  and end with a NUL; the overload of \<^verbatim>\<open>size\<close> for such buffers counts the characters before
  it, and never the last one.
\<close>

definition cstr :: "string \<Rightarrow> string" where
  "cstr s = takeWhile (\<lambda>c. c \<noteq> CHR 0x00) s"

definition sqlchar_size :: "string \<Rightarrow> nat" where
  "sqlchar_size buf = (let n = length (cstr buf) in if n < length buf then n else length buf - 1)"

definition char_buffer :: "nat \<Rightarrow> string \<Rightarrow> string" where
  "char_buffer n s = take n (take (n - 1) s @ replicate n (CHR 0x00))"

definition get_info_string :: "odbc \<Rightarrow> nat \<Rightarrow> int \<Rightarrow> string dbm" where
  "get_info_string D a info = db_bind (conn_get a) (\<lambda>c. db_then (sql_ok D (Get_info (cn_dbc c) info) (cn_dbc c) Handle_dbc)
     (db_bind (written (od_text D)) (\<lambda>(t, _). let buf = char_buffer 1024 t in db_return (take (sqlchar_size buf) buf))))"

definition get_info_number :: "odbc \<Rightarrow> nat \<Rightarrow> int \<Rightarrow> int dbm" where
  "get_info_number D a info = db_bind (conn_get a) (\<lambda>c. db_then (sql_ok D (Get_info (cn_dbc c) info) (cn_dbc c) Handle_dbc)
     (written (od_number D)))"

definition dbms_name :: "odbc \<Rightarrow> nat \<Rightarrow> string dbm" where "dbms_name D a = get_info_string D a 17"
definition dbms_version :: "odbc \<Rightarrow> nat \<Rightarrow> string dbm" where "dbms_version D a = get_info_string D a 18"
definition driver_name :: "odbc \<Rightarrow> nat \<Rightarrow> string dbm" where "driver_name D a = get_info_string D a 6"
definition driver_version :: "odbc \<Rightarrow> nat \<Rightarrow> string dbm" where "driver_version D a = get_info_string D a 7"
definition database_name :: "odbc \<Rightarrow> nat \<Rightarrow> string dbm" where "database_name D a = get_info_string D a 16"

definition catalog_name :: "odbc \<Rightarrow> nat \<Rightarrow> string dbm" where
  "catalog_name D a = db_bind (conn_get a) (\<lambda>c. db_then (sql_ok D (Get_connect_attr (cn_dbc c) Attr_current_catalog) (cn_dbc c) Handle_dbc)
     (db_bind (written (od_text D)) (\<lambda>(t, _). let buf = char_buffer 256 t in db_return (take (sqlchar_size buf) buf))))"

text \<open>
  Handles that the driver has given out and not taken back, from the calls made: for the
  balance of a connection.
\<close>

fun live_rev :: "odbc \<Rightarrow> sql_call list \<Rightarrow> int" where
  "live_rev D [] = 0"
| "live_rev D (Alloc_handle t p # cs) = live_rev D cs + (if success (od_rc D (rev (Alloc_handle t p # cs))) then 1 else 0)"
| "live_rev D (Free_handle t p # cs) = live_rev D cs - (if success (od_rc D (rev (Free_handle t p # cs))) then 1 else 0)"
| "live_rev D (c # cs) = live_rev D cs"

definition live_handles :: "odbc \<Rightarrow> db \<Rightarrow> int" where
  "live_handles D s = live_rev D (rev (db_calls s))"

definition held :: "connection_impl \<Rightarrow> int" where
  "held c = (if cn_env c = 0 then 0 else 1) + (if cn_dbc c = 0 then 0 else 1)"

text \<open>What ODBC documents of \<^verbatim>\<open>SQLAllocHandle\<close>: it gives a handle when it succeeds and null otherwise.\<close>

definition alloc_documented :: "odbc \<Rightarrow> bool" where
  "alloc_documented D \<longleftrightarrow> (\<forall>h t p. success (od_rc D (h @ [Alloc_handle t p])) \<longleftrightarrow> od_handle D (h @ [Alloc_handle t p]) \<noteq> 0)"

text \<open>What a client can do with a connection; exceptions are caught by the client.\<close>

datatype conn_op = Op_allocate | Op_deallocate | Op_connect "conn_attribute list" "handle \<Rightarrow> sql_call" | Op_disconnect
  | Op_attribute sql_attr int attr_value | Op_enable_async nat | Op_async_complete | Op_info int | Op_catalog

fun conn_do :: "odbc \<Rightarrow> bool \<Rightarrow> nat \<Rightarrow> conn_op \<Rightarrow> unit dbm" where
  "conn_do D nd a Op_allocate = conn_allocate D nd a"
| "conn_do D nd a Op_deallocate = conn_deallocate D a"
| "conn_do D nd a (Op_connect attrs call) = db_then (connect_by D nd a attrs call) (db_return ())"
| "conn_do D nd a Op_disconnect = disconnect D a"
| "conn_do D nd a (Op_attribute x l v) = set_attribute D a x l v"
| "conn_do D nd a (Op_enable_async e) = conn_enable_async D nd a e"
| "conn_do D nd a Op_async_complete = conn_async_complete D nd a"
| "conn_do D nd a (Op_info i) = db_then (get_info_string D a i) (db_return ())"
| "conn_do D nd a Op_catalog = db_then (catalog_name D a) (db_return ())"

definition caught :: "unit dbm \<Rightarrow> unit dbm" where
  "caught m = db_catch m (\<lambda>_. db_return ())"

text \<open>The two calls a client may be passed to a connection: they allocate no handle.\<close>

fun connects :: "conn_op \<Rightarrow> bool" where
  "connects (Op_connect attrs call) \<longleftrightarrow> (\<forall>h. (\<exists>dsn u p. call h = Connect h dsn u p) \<or> (\<exists>cs. call h = Driver_connect h cs))"
| "connects _ \<longleftrightarrow> True"

section \<open>Lemmas\<close>

lemma live_snoc [simp]:
  "live_rev D (rev (h @ [Alloc_handle t p])) = live_rev D (rev h) + (if success (od_rc D (h @ [Alloc_handle t p])) then 1 else 0)"
  "live_rev D (rev (h @ [Free_handle t p])) = live_rev D (rev h) - (if success (od_rc D (h @ [Free_handle t p])) then 1 else 0)"
  by simp_all

text \<open>A computation keeps the balance of a connection, whether it returns or not.\<close>

definition balanced :: "odbc \<Rightarrow> nat \<Rightarrow> db \<Rightarrow> db \<Rightarrow> bool" where
  "balanced D a s s' \<longleftrightarrow> (\<forall>c. db_conns s a = Some c \<longrightarrow>
     (\<exists>c'. db_conns s' a = Some c' \<and> live_handles D s' - held c' = live_handles D s - held c))"

abbreviation balances :: "odbc \<Rightarrow> nat \<Rightarrow> 'a dbm \<Rightarrow> bool" where
  "balances D a \<equiv> within (balanced D a)"

named_theorems balance \<open>computations that keep the balance of a connection\<close>

interpretation bal: db_preorder "balanced D a" for D a
  by unfold_locales (fastforce simp: balanced_def)+

lemmas bal.within_rules [balance]

lemmas balances_def = within_def balanced_def

lemma balancesE:
  assumes "balances D a m" and "db_conns s a = Some c"
  obtains s' r c' where "m s = (s', r)" "db_conns s' a = Some c'" "live_handles D s' - held c' = live_handles D s - held c"
  using assms by (cases "m s") (fastforce simp: balances_def)

lemma balancesI:
  assumes "\<And>s c. db_conns s a = Some c \<Longrightarrow>
    \<exists>s' r c'. m s = (s', r) \<and> db_conns s' a = Some c' \<and> live_handles D s' - held c' = live_handles D s - held c"
  shows "balances D a m"
  unfolding balances_def using assms by fastforce

lemma balances_put [balance]: "(\<And>c. held (f c) = held c) \<Longrightarrow> balances D a (conn_put a f)"
  by (auto simp: balances_def live_handles_def)

lemma balances_each [balance]: "(\<And>x. balances D a (f x)) \<Longrightarrow> balances D a (db_each f xs)"
  by (rule bal.within_each)

fun handle_call :: "sql_call \<Rightarrow> bool" where
  "handle_call (Alloc_handle t p) = True"
| "handle_call (Free_handle t p) = True"
| "handle_call _ = False"

lemma live_other: "\<not> handle_call c \<Longrightarrow> live_rev D (c # cs) = live_rev D cs"
  by (cases c) simp_all

lemma balances_sql: "\<not> handle_call c \<Longrightarrow> balances D a (sql D c)"
  by (auto simp: balances_def live_handles_def live_other)

lemma balances_sql_ok [balance]: "\<not> handle_call c \<Longrightarrow> balances D a (sql_ok D c h t)"
  by (auto simp: balances_def live_handles_def live_other)

lemma balances_free [balance]: "balances D a (conn_free_dbc D a)" "balances D a (conn_free_env D a)"
  by (auto simp: balances_def conn_free_dbc_def conn_free_env_def deallocate_handle_def set_dbc_def set_env_def
      live_handles_def held_def db_then_def db_bind_def)

lemma balances_env [balance]:
  assumes "alloc_documented D"
  shows "balances D a (conn_env_handle D a)"
proof (rule balancesI)
  fix s :: db and c assume c: "db_conns s a = Some c"
  let ?h = "db_calls s @ [Alloc_handle Handle_env 0]"
  have "success (od_rc D ?h) \<longleftrightarrow> od_handle D ?h \<noteq> 0" using assms by (simp add: alloc_documented_def)
  then show "\<exists>s' r c'. conn_env_handle D a s = (s', r) \<and> db_conns s' a = Some c' \<and> live_handles D s' - held c' = live_handles D s - held c"
    using c by (auto simp: conn_env_handle_def allocate_env_handle_def set_env_def deallocate_handle_def
        live_handles_def held_def db_catch_def db_then_def db_bind_def)
qed

lemma balances_dbc [balance]:
  assumes "alloc_documented D"
  shows "balances D a (conn_dbc_handle D nd a)"
proof (rule balancesI)
  fix s :: db and c assume c: "db_conns s a = Some c"
  let ?h = "db_calls s @ [Alloc_handle Handle_dbc (cn_env c)]"
  have "success (od_rc D ?h) \<longleftrightarrow> od_handle D ?h \<noteq> 0" using assms by (simp add: alloc_documented_def)
  then show "\<exists>s' r c'. conn_dbc_handle D nd a s = (s', r) \<and> db_conns s' a = Some c' \<and> live_handles D s' - held c' = live_handles D s - held c"
    using c by (auto simp: conn_dbc_handle_def allocate_dbc_handle_def set_dbc_def deallocate_handle_def
        live_handles_def held_def db_catch_def db_then_def db_bind_def)
qed

lemma balances_attribute [balance]: "balances D a (set_attribute D a x l v)"
  by (simp add: set_attribute_def balance)

lemma balances_apply [balance]: "balances D a (apply_attribute D a x)"
  by (auto simp: apply_attribute_def intro: balance split: option.split)

lemma balances_disconnect [balance]: "balances D a (disconnect D a)"
  unfolding disconnect_def by (intro balance) (simp_all add: held_def)

lemma connect_by_balances [balance]:
  assumes "alloc_documented D" and "\<And>h. \<not> handle_call (call h)"
  shows "balances D a (connect_by D nd a attrs call)"
  unfolding connect_by_def by (intro balance balances_sql assms) (simp_all add: held_def)

lemma conn_do_balances:
  assumes "alloc_documented D" and "connects op"
  shows "balances D a (conn_do D nd a op)"
proof (cases op)
  case (Op_connect attrs call)
  have "\<not> handle_call (call h)" for h using assms(2) Op_connect by (metis connects.simps(1) handle_call.simps(7,8))
  then show ?thesis using Op_connect assms(1) by (simp add: balance)
qed (use assms(1) in \<open>auto simp: conn_allocate_def conn_deallocate_def conn_enable_async_def conn_async_complete_def
    get_info_string_def catalog_name_def held_def Let_def intro!: balance balances_sql split: prod.split\<close>)

lemma caught_balances [balance]: "balances D a m \<Longrightarrow> balances D a (caught m)"
  by (simp add: caught_def balance)

lemma deallocate_clears:
  assumes "db_conns s a = Some c" and "\<And>h t p. success (od_rc D (h @ [Free_handle t p]))"
  shows "\<exists>s' c'. conn_deallocate D a s = (s', Inr ()) \<and> db_conns s' a = Some c' \<and> held c' = 0"
  using assms by (auto simp: conn_deallocate_def conn_free_dbc_def conn_free_env_def deallocate_handle_def set_dbc_def set_env_def held_def
      db_then_def db_bind_def)

lemma destroy_clears:
  assumes "db_conns s a = Some c" and "\<And>h t p. success (od_rc D (h @ [Free_handle t p]))"
  shows "\<exists>s' c'. conn_destroy D a s = (s', Inr ()) \<and> db_conns s' a = Some c' \<and> held c' = 0"
proof -
  have "\<exists>s1 c1. db_catch (disconnect D a) (\<lambda>_. db_return ()) s = (s1, Inr ()) \<and> db_conns s1 a = Some c1"
    using assms(1) by (simp add: disconnect_def db_then_def db_bind_def db_catch_def)
  then obtain s1 c1 where "db_catch (disconnect D a) (\<lambda>_. db_return ()) s = (s1, Inr ())" "db_conns s1 a = Some c1" by blast
  moreover obtain s2 c2 where "conn_deallocate D a s1 = (s2, Inr ())" "db_conns s2 a = Some c2" "held c2 = 0"
    using deallocate_clears calculation(2) assms(2) by blast
  ultimately show ?thesis by (simp add: conn_destroy_def)
qed

lemma conn_destroy_balances [balance]: "balances D a (conn_destroy D a)"
  unfolding conn_destroy_def conn_deallocate_def by (intro balance)

lemma balances_run:
  assumes "balances D a m" and "db_conns s a = Some c" and "m s = (s', r)" and "db_conns s' a = Some c'"
  shows "live_handles D s' - held c' = live_handles D s - held c"
  using balancesE [OF assms(1,2)] assms(3,4) by (metis option.inject prod.inject)

section \<open>Properties\<close>

text \<open>
  C10. Whatever a client does with a connection, and whichever calls the driver fails, the handles the driver
  has given out are the handles the connection holds: none is lost and none is freed twice.
  When the connection is destroyed all are given back, provided the driver takes them.
\<close>

theorem connection_handles_balance:
  assumes "alloc_documented D" and "list_all connects ops" and "db_conns s a = Some conn_empty"
    and "db_each (\<lambda>op. caught (conn_do D nd a op)) ops s = (s1, r)"
  shows "\<exists>c. db_conns s1 a = Some c \<and> live_handles D s1 = live_handles D s + held c \<and>
    ((\<forall>h t p. success (od_rc D (h @ [Free_handle t p]))) \<longrightarrow> live_handles D (fst (conn_destroy D a s1)) = live_handles D s)"
proof -
  have "balances D a (db_each (\<lambda>op. caught (conn_do D nd a op)) ops)"
    using assms(1,2) by (induction ops) (simp_all add: balance conn_do_balances)
  then obtain c where c: "db_conns s1 a = Some c" "live_handles D s1 - held c = live_handles D s"
    using assms(3,4) by (auto elim!: balancesE simp: held_def conn_empty_def)
  moreover have "live_handles D (fst (conn_destroy D a s1)) = live_handles D s"
    if frees: "\<And>h t p. success (od_rc D (h @ [Free_handle t p]))"
  proof -
    obtain s2 c2 where "conn_destroy D a s1 = (s2, Inr ())" "db_conns s2 a = Some c2" "held c2 = 0"
      using destroy_clears c(1) frees by blast
    then show ?thesis using balances_run [OF conn_destroy_balances c(1)] c(2) by fastforce
  qed
  ultimately show ?thesis by auto
qed

text \<open>A driver that refuses nothing and numbers its handles by the calls made.\<close>

definition willing :: odbc where
  "willing = \<lparr>od_rc = \<lambda>_. Sql_success, od_handle = length, od_number = \<lambda>_. 0, od_text = \<lambda>_. (''sql'', []),
     od_complete = \<lambda>_. Sql_success, od_param = \<lambda>_. \<lparr>pd_type = 4, pd_size = 10, pd_scale = 0\<rparr>,
     od_column = \<lambda>_. \<lparr>cd_name = ''x'', cd_sqltype = 4, cd_size = 10, cd_scale = 0\<rparr>, od_rows_fetched = \<lambda>_. 0,
     od_cells = \<lambda>_ _. [], od_piece = \<lambda>_. (0, [])\<rparr>"

definition db_start :: db where
  "db_start = \<lparr>db_calls = [], db_conns = [1 \<mapsto> conn_empty], db_trans = Map.empty, db_stmts = Map.empty, db_results = Map.empty, db_tvps = Map.empty, db_next = 2\<rparr>"

lemma willing_documented: "alloc_documented willing"
  by (simp add: alloc_documented_def willing_def)

theorem connection_handles_balance_witness:
  "live_handles willing (fst (conn_destroy willing 1 (fst (db_each (\<lambda>op. caught (conn_do willing False 1 op))
     [Op_connect [] (\<lambda>h. Driver_connect h ''db''), Op_connect [] (\<lambda>h. Driver_connect h ''other'')] db_start)))) = 0"
proof -
  let ?ops = "[Op_connect [] (\<lambda>h. Driver_connect h ''db''), Op_connect [] (\<lambda>h. Driver_connect h ''other'')]"
  obtain s1 r where "db_each (\<lambda>op. caught (conn_do willing False 1 op)) ?ops db_start = (s1, r)" by fastforce
  then show ?thesis using connection_handles_balance [OF willing_documented, of ?ops db_start 1 False]
    by (auto simp: db_start_def live_handles_def willing_def)
qed

text \<open>
  A constructor that connects leaks the environment handle when the driver refuses the connection
  handle: allocating stands before the \<^verbatim>\<open>try\<close>, and an object that is not constructed is not
  destroyed.
\<close>

theorem constructor_leaks_environment:
  assumes "success (od_rc D (db_calls s @ [Alloc_handle Handle_env 0]))" and "od_handle D (db_calls s @ [Alloc_handle Handle_env 0]) = env" and "env \<noteq> 0"
    and "success (od_rc D (db_calls s @ [Alloc_handle Handle_env 0, Set_env_attr env Attr_odbc_version 380]))"
    and "h = db_calls s @ [Alloc_handle Handle_env 0, Set_env_attr env Attr_odbc_version 380, Alloc_handle Handle_dbc env]"
    and "\<not> success (od_rc D h)" and "od_handle D h = 0"
  shows "\<exists>s'. conn_create_string D nd cs attrs s = (s', Inl (Db_throw (Database_error env Handle_env))) \<and> db_calls s' = h \<and>
    live_handles D s' = live_handles D s + 1"
  using assms
  by (simp add: conn_create_string_def conn_construct_def conn_create_def conn_allocate_def conn_env_handle_def conn_dbc_handle_def
      allocate_env_handle_def allocate_dbc_handle_def set_env_def set_dbc_def conn_empty_def deallocate_handle_def live_handles_def)

definition no_dbc_driver :: odbc where
  "no_dbc_driver = willing\<lparr>od_rc := (\<lambda>h. if length h = 3 then Sql_error else Sql_success), od_handle := (\<lambda>h. if length h = 3 then 0 else length h)\<rparr>"

theorem constructor_leaks_environment_witness:
  "live_handles no_dbc_driver (fst (conn_create_string no_dbc_driver False ''db'' [] db_start)) = 1"
  using constructor_leaks_environment [of no_dbc_driver db_start 1 _ False "''db''" "[]"]
  by (auto simp: db_start_def live_handles_def no_dbc_driver_def)

text \<open>
  The strings a connection reports about its database are the text the driver wrote, cut where
  the buffer ends.
\<close>

lemma takeWhile_replicate_tail: "\<not> P x \<Longrightarrow> 0 < n \<Longrightarrow> takeWhile P (xs @ replicate n x) = takeWhile P xs"
  by (cases n) (simp_all add: takeWhile_tail)

lemma cstr_plain: "CHR 0x00 \<notin> set xs \<Longrightarrow> cstr xs = xs"
  by (auto simp: cstr_def takeWhile_eq_all_conv)

lemma sqlchar_text:
  assumes "0 < n"
  shows "take (sqlchar_size (char_buffer n t)) (char_buffer n t) = cstr (take (n - 1) t)"
proof -
  have "char_buffer n t = take (n - 1) t @ replicate (n - min (n - 1) (length t)) (CHR 0x00)"
    using assms by (auto simp: char_buffer_def min_def)
  then have c: "cstr (char_buffer n t) = cstr (take (n - 1) t)" and l: "length (char_buffer n t) = n"
    using assms by (simp_all add: cstr_def takeWhile_replicate_tail)
  have "length (cstr (take (n - 1) t)) \<le> n - 1"
    using length_takeWhile_le [of "\<lambda>c. c \<noteq> CHR 0x00" "take (n - 1) t"] by (simp add: cstr_def)
  then have "sqlchar_size (char_buffer n t) = length (cstr (char_buffer n t))" using assms c l by (simp add: sqlchar_size_def Let_def cstr_def)
  then show ?thesis using c takeWhile_eq_take [of "\<lambda>c. c \<noteq> CHR 0x00" "char_buffer n t"] by (simp add: cstr_def)
qed

lemma dbms_name_reports_text:
  assumes "db_conns s a = Some c" and "success (od_rc D (db_calls s @ [Get_info (cn_dbc c) 17]))"
    and "fst (od_text D (db_calls s @ [Get_info (cn_dbc c) 17])) = name" and "length name < 1024" and "CHR 0x00 \<notin> set name"
  shows "snd (dbms_name D a s) = Inr name"
  using assms by (simp add: dbms_name_def get_info_string_def sqlchar_text cstr_plain Let_def case_prod_beta)

end
