(* ===== verification/Db_Transaction.thy ===== *)
theory Db_Transaction
  imports Db_Connection
begin

text \<open>
  \<^verbatim>\<open>nanodbc::transaction\<close>. Transactions nest: the connection counts them, and only the
  outermost one talks to the driver. \<open>work\<close> is a program with transactions in nested scopes,
  \<open>effects\<close> what the database makes of the calls.
\<close>

section \<open>Definitions\<close>

text \<open>The constructor.\<close>

definition trans_create :: "odbc \<Rightarrow> nat \<Rightarrow> nat dbm" where
  "trans_create D conn = db_bind (conn_get conn) (\<lambda>c.
     db_then (db_when (cn_transactions c = 0 \<and> cn_connected c)
       (sql_ok D (Set_connect_attr (cn_dbc c) Attr_autocommit (Value_int 0) sql_is_uinteger) (cn_dbc c) Handle_dbc))
     (db_then (ref_transaction conn)
     (db_bind db_new (\<lambda>a. db_then (db_modify (db_trans_update (\<lambda>m. m(a \<mapsto> \<lparr>ta_conn = conn, ta_committed = False\<rparr>)))) (db_return a)))))"

text \<open>The destructor: return codes are ignored.\<close>

definition trans_destroy :: "odbc \<Rightarrow> nat \<Rightarrow> unit dbm" where
  "trans_destroy D a = db_bind (trans_get a) (\<lambda>t. db_then
     (db_catch
       (db_then (db_when (\<not> ta_committed t)
           (db_then (set_rollback (ta_conn t) True) (db_then (unref_transaction (ta_conn t)) (db_return ()))))
         (db_bind (conn_get (ta_conn t)) (\<lambda>c. db_when (cn_transactions c = 0 \<and> cn_connected c)
           (db_then (db_when (cn_rollback c)
               (db_then (sql D (End_tran (cn_dbc c) Sql_rollback)) (set_rollback (ta_conn t) False)))
             (db_then (sql D (Set_connect_attr (cn_dbc c) Attr_autocommit (Value_int 1) sql_is_uinteger)) (db_return ()))))))
       (\<lambda>_. db_return ()))
     (db_modify (db_trans_update (\<lambda>m. m(a := None)))))"

definition trans_commit :: "odbc \<Rightarrow> nat \<Rightarrow> unit dbm" where
  "trans_commit D a = db_bind (trans_get a) (\<lambda>t.
     if ta_committed t then db_return ()
     else db_then (trans_put a (\<lambda>t. t\<lparr>ta_committed := True\<rparr>)) (db_bind (unref_transaction (ta_conn t)) (\<lambda>n. db_bind (conn_get (ta_conn t)) (\<lambda>c.
       db_when (n = 0 \<and> cn_connected c) (sql_ok D (End_tran (cn_dbc c) Sql_commit) (cn_dbc c) Handle_dbc)))))"

definition trans_rollback :: "nat \<Rightarrow> unit dbm" where
  "trans_rollback a = db_bind (trans_get a) (\<lambda>t. if ta_committed t then db_return () else set_rollback (ta_conn t) True)"

text \<open>A local object: its destructor runs when the scope is left, by an exception too.\<close>

definition db_finally :: "'a dbm \<Rightarrow> unit dbm \<Rightarrow> 'a dbm" where
  "db_finally m f = (\<lambda>s. case m s of
       (s', Inr x) \<Rightarrow> db_then f (db_return x) s'
     | (s', Inl (Db_throw e)) \<Rightarrow> db_then f (db_throw e) s'
     | r \<Rightarrow> r)"

definition with_transaction :: "odbc \<Rightarrow> nat \<Rightarrow> (nat \<Rightarrow> 'a dbm) \<Rightarrow> 'a dbm" where
  "with_transaction D conn body = db_bind (trans_create D conn) (\<lambda>a. db_finally (body a) (trans_destroy D a))"

text \<open>Programs with nested transactions, each ended by calls of its members.\<close>

datatype ending = Commit | Rollback

datatype work = Do handle string | Nested "work list" "ending list"

fun end_call :: "odbc \<Rightarrow> nat \<Rightarrow> ending \<Rightarrow> unit dbm" where
  "end_call D a Commit = trans_commit D a"
| "end_call D a Rollback = trans_rollback a"

fun run_work :: "odbc \<Rightarrow> nat \<Rightarrow> work \<Rightarrow> unit dbm" and run_works :: "odbc \<Rightarrow> nat \<Rightarrow> work list \<Rightarrow> unit dbm" where
  "run_work D conn (Do h q) = sql_ok D (Exec_direct h q) h Handle_stmt"
| "run_work D conn (Nested ws es) =
     with_transaction D conn (\<lambda>a. db_then (run_works D conn ws) (db_each (end_call D a) es))"
| "run_works D conn [] = db_return ()"
| "run_works D conn (w # ws) = db_then (run_work D conn w) (run_works D conn ws)"

text \<open>The statements of a program in order, and whether something in it was not committed.\<close>

fun statements :: "work \<Rightarrow> (handle \<times> string) list" and statements_all :: "work list \<Rightarrow> (handle \<times> string) list" where
  "statements (Do h q) = [(h, q)]"
| "statements (Nested ws es) = statements_all ws"
| "statements_all [] = []"
| "statements_all (w # ws) = statements w @ statements_all ws"

definition refused :: "ending list \<Rightarrow> bool" where
  "refused es \<longleftrightarrow> Commit \<notin> set es \<or> Rollback \<in> set (takeWhile (\<lambda>e. e \<noteq> Commit) es)"

fun unsettled :: "work \<Rightarrow> bool" and unsettled_all :: "work list \<Rightarrow> bool" where
  "unsettled (Do h q) \<longleftrightarrow> False"
| "unsettled (Nested ws es) \<longleftrightarrow> unsettled_all ws \<or> refused es"
| "unsettled_all [] \<longleftrightarrow> False"
| "unsettled_all (w # ws) \<longleftrightarrow> unsettled w \<or> unsettled_all ws"

definition execs :: "(handle \<times> string) list \<Rightarrow> sql_call list" where
  "execs qs = map (\<lambda>(h, q). Exec_direct h q) qs"

text \<open>
  What ODBC documents of the calls on one connection: a statement takes effect at once in autocommit
  mode and is pending otherwise; ending a transaction keeps or drops what is pending, and switching autocommit on keeps it.
\<close>

record effect =
  ef_auto :: bool
  ef_pending :: "string list"
  ef_kept :: "string list"

fun effect_of :: "sql_call \<Rightarrow> effect \<Rightarrow> effect" where
  "effect_of (Exec_direct h q) e = (if ef_auto e then e\<lparr>ef_kept := ef_kept e @ [q]\<rparr> else e\<lparr>ef_pending := ef_pending e @ [q]\<rparr>)"
| "effect_of (End_tran h Sql_commit) e = e\<lparr>ef_kept := ef_kept e @ ef_pending e, ef_pending := []\<rparr>"
| "effect_of (End_tran h Sql_rollback) e = e\<lparr>ef_pending := []\<rparr>"
| "effect_of (Set_connect_attr h Attr_autocommit (Value_int v) l) e =
     (if v = 0 then e\<lparr>ef_auto := False\<rparr> else e\<lparr>ef_auto := True, ef_kept := ef_kept e @ ef_pending e, ef_pending := []\<rparr>)"
| "effect_of _ e = e"

fun effects_rev :: "odbc \<Rightarrow> sql_call list \<Rightarrow> effect" where
  "effects_rev D [] = \<lparr>ef_auto = True, ef_pending = [], ef_kept = []\<rparr>"
| "effects_rev D (c # cs) = (if success (od_rc D (rev (c # cs))) then effect_of c (effects_rev D cs) else effects_rev D cs)"

definition effects :: "odbc \<Rightarrow> db \<Rightarrow> effect" where
  "effects D s = effects_rev D (rev (db_calls s))"

definition accepts :: "odbc \<Rightarrow> sql_call \<Rightarrow> bool" where
  "accepts D c \<longleftrightarrow> (\<forall>h. success (od_rc D (h @ [c])))"

section \<open>Lemmas\<close>

context db_preorder
begin

lemma within_finally:
  assumes "within R m" and "within R f"
  shows "within R (db_finally m f)"
  unfolding within_def
proof
  fix s
  obtain s1 r where m: "m s = (s1, r)" by fastforce
  have first: "R s s1" using assms(1) m by (rule withinD)
  have ends: "R s1 (fst (db_then f k s1))" if "within R k" for k :: "'a dbm" using within_then [OF assms(2) that] by (simp add: within_def)
  show "R s (fst (db_finally m f s))"
  proof (cases r)
    case (Inl e)
    then show ?thesis using m first transitive [OF first ends [OF within_pure(2)]] by (cases e) (simp_all add: db_finally_def)
  next
    case (Inr x)
    then show ?thesis using m transitive [OF first ends [OF within_pure(1)]] by (simp add: db_finally_def)
  qed
qed

end


lemma run_finally [simp]:
  "m s = (s', Inr x) \<Longrightarrow> db_finally m f s = db_then f (db_return x) s'"
  "m s = (s', Inl (Db_throw e)) \<Longrightarrow> db_finally m f s = db_then f (db_throw e) s'"
  by (simp_all add: db_finally_def)

lemma run_ref [simp]: "db_conns s a = Some c \<Longrightarrow>
    ref_transaction a s = (s\<lparr>db_conns := (db_conns s)(a \<mapsto> c\<lparr>cn_transactions := Suc (cn_transactions c)\<rparr>)\<rparr>, Inr (Suc (cn_transactions c)))"
  by (simp add: ref_transaction_def)

lemma run_unref [simp]: "db_conns s a = Some c \<Longrightarrow>
    unref_transaction a s = (s\<lparr>db_conns := (db_conns s)(a \<mapsto> c\<lparr>cn_transactions := cn_transactions c - 1\<rparr>)\<rparr>, Inr (cn_transactions c - 1))"
  by (cases "cn_transactions c") (auto simp: unref_transaction_def map_upd_triv)

lemma run_set_rollback [simp]: "db_conns s a = Some c \<Longrightarrow>
    set_rollback a b s = (s\<lparr>db_conns := (db_conns s)(a \<mapsto> c\<lparr>cn_rollback := b\<rparr>)\<rparr>, Inr ())"
  by (simp add: set_rollback_def)

lemma endings_committed:
  assumes "db_trans s a = Some t" and "ta_committed t"
  shows "db_each (end_call D a) es s = (s, Inr ())"
proof (induction es)
  case (Cons e es)
  then show ?case using assms by (cases e) (simp_all add: trans_commit_def trans_rollback_def)
qed simp

text \<open>The calls that end a transaction, from inside another one (\<open>n > 0\<close>) or in the outermost (\<open>n = 0\<close>).\<close>

lemma endings_run:
  assumes "n = 0 \<Longrightarrow> accepts D (End_tran (cn_dbc c) Sql_commit)" and "db_trans s a = Some \<lparr>ta_conn = conn, ta_committed = False\<rparr>"
    and "db_conns s conn = Some c" and "cn_transactions c = Suc n" and "cn_connected c"
  shows "db_each (end_call D a) es s =
    (if Commit \<in> set es
     then (s\<lparr>db_calls := db_calls s @ (if n = 0 then [End_tran (cn_dbc c) Sql_commit] else []),
            db_conns := (db_conns s)(conn \<mapsto> c\<lparr>cn_transactions := n, cn_rollback := cn_rollback c \<or> Rollback \<in> set (takeWhile (\<lambda>e. e \<noteq> Commit) es)\<rparr>),
            db_trans := (db_trans s)(a \<mapsto> \<lparr>ta_conn = conn, ta_committed = True\<rparr>)\<rparr>, Inr ())
     else (s\<lparr>db_conns := (db_conns s)(conn \<mapsto> c\<lparr>cn_rollback := cn_rollback c \<or> Rollback \<in> set es\<rparr>)\<rparr>, Inr ()))"
  using assms
proof (induction es arbitrary: s c)
  case Nil
  then show ?case by (simp add: map_upd_triv)
next
  case (Cons e es)
  show ?case
  proof (cases e)
    case Commit
    have "trans_commit D a s = (s\<lparr>db_calls := db_calls s @ (if n = 0 then [End_tran (cn_dbc c) Sql_commit] else []),
        db_conns := (db_conns s)(conn \<mapsto> c\<lparr>cn_transactions := n\<rparr>), db_trans := (db_trans s)(a \<mapsto> \<lparr>ta_conn = conn, ta_committed = True\<rparr>)\<rparr>, Inr ())"
      using Cons.prems by (simp add: trans_commit_def accepts_def)
    then show ?thesis using Commit Cons.prems by (simp add: endings_committed)
  next
    case Rollback
    have "trans_rollback a s = (s\<lparr>db_conns := (db_conns s)(conn \<mapsto> c\<lparr>cn_rollback := True\<rparr>)\<rparr>, Inr ())"
      using Cons.prems by (simp add: trans_rollback_def)
    then show ?thesis
      using Rollback Cons.prems Cons.IH [of "c\<lparr>cn_rollback := True\<rparr>" "s\<lparr>db_conns := (db_conns s)(conn \<mapsto> c\<lparr>cn_rollback := True\<rparr>)\<rparr>"]
      by (simp add: fun_upd_same del: fun_upd_apply)
  qed
qed

text \<open>A transaction inside another one is destroyed: nothing is sent.\<close>

lemma inner_end:
  assumes "db_trans s a = Some \<lparr>ta_conn = conn, ta_committed = False\<rparr>"
    and "db_conns s conn = Some c" and "cn_transactions c = Suc n" and "n > 0" and "cn_connected c"
  shows "\<exists>s'. db_finally (db_each (end_call D a) es) (trans_destroy D a) s = (s', Inr ()) \<and> db_calls s' = db_calls s \<and>
    db_conns s' conn = Some (c\<lparr>cn_transactions := n, cn_rollback := cn_rollback c \<or> refused es\<rparr>) \<and>
    db_trans s' = (db_trans s)(a := None) \<and> db_next s' = db_next s"
  using assms endings_run [OF _ assms(1-3,5), of D es]
  by (cases "Commit \<in> set es") (simp_all add: trans_destroy_def refused_def)

lemma outer_end:
  assumes "accepts D (End_tran (cn_dbc c) Sql_commit)" and "db_trans s a = Some \<lparr>ta_conn = conn, ta_committed = False\<rparr>"
    and "db_conns s conn = Some c" and "cn_transactions c = Suc 0" and "cn_connected c"
  shows "\<exists>s'. db_finally (db_each (end_call D a) es) (trans_destroy D a) s = (s', Inr ()) \<and>
    db_calls s' = db_calls s @ (if Commit \<in> set es then [End_tran (cn_dbc c) Sql_commit] else []) @
      (if cn_rollback c \<or> refused es then [End_tran (cn_dbc c) Sql_rollback] else []) @
      [Set_connect_attr (cn_dbc c) Attr_autocommit (Value_int 1) sql_is_uinteger] \<and>
    db_conns s' conn = Some (c\<lparr>cn_transactions := 0, cn_rollback := False\<rparr>)"
  using assms endings_run [OF assms, of es]
  by (cases "Commit \<in> set es") (simp_all add: trans_destroy_def refused_def)

lemma run_finally_then: "m s = (s', Inr x) \<Longrightarrow> db_finally (db_then m k) f s = db_finally k f s'"
  by (simp add: db_finally_def)

lemma execs_simps [simp]: "execs [] = []" "execs ((h, q) # qs) = Exec_direct h q # execs qs" "execs (qs @ rs) = execs qs @ execs rs"
  by (simp_all add: execs_def)

text \<open>Work inside a transaction sends its statements and nothing else; it marks the connection when something in it is not committed.\<close>

definition inner_work :: "odbc \<Rightarrow> nat \<Rightarrow> unit dbm \<Rightarrow> (handle \<times> string) list \<Rightarrow> bool \<Rightarrow> bool" where
  "inner_work D conn m qs mark \<longleftrightarrow> (\<forall>s c. db_conns s conn = Some c \<and> cn_transactions c > 0 \<and> cn_connected c \<longrightarrow>
     (\<exists>s'. m s = (s', Inr ()) \<and> db_calls s' = db_calls s @ execs qs \<and> db_conns s' conn = Some (c\<lparr>cn_rollback := cn_rollback c \<or> mark\<rparr>) \<and>
       db_next s \<le> db_next s' \<and> (\<forall>t < db_next s. db_trans s' t = db_trans s t)))"

lemma inner_workE:
  assumes "inner_work D conn m qs mark" and "db_conns s conn = Some c" and "cn_transactions c > 0" and "cn_connected c"
  obtains s' where "m s = (s', Inr ())" "db_calls s' = db_calls s @ execs qs" "db_conns s' conn = Some (c\<lparr>cn_rollback := cn_rollback c \<or> mark\<rparr>)"
    "db_next s \<le> db_next s'" "\<And>t. t < db_next s \<Longrightarrow> db_trans s' t = db_trans s t"
  using assms by (fastforce simp: inner_work_def)

lemma inner_nested:
  assumes "\<And>h q. accepts D (Exec_direct h q)" and "inner_work D conn (run_works D conn ws) qs mark"
  shows "inner_work D conn (run_work D conn (Nested ws es)) qs (mark \<or> refused es)"
  unfolding inner_work_def
proof (intro allI impI, elim conjE)
  fix s :: db and c
  assume c: "db_conns s conn = Some c" "cn_transactions c > 0" "cn_connected c"
  let ?c1 = "c\<lparr>cn_transactions := Suc (cn_transactions c)\<rparr>" and ?a = "db_next s"
  let ?s1 = "s\<lparr>db_conns := (db_conns s)(conn \<mapsto> ?c1), db_next := Suc ?a, db_trans := (db_trans s)(?a \<mapsto> \<lparr>ta_conn = conn, ta_committed = False\<rparr>)\<rparr>"
  have new: "trans_create D conn s = (?s1, Inr ?a)" using c by (simp add: trans_create_def)
  obtain s2 where s2: "run_works D conn ws ?s1 = (s2, Inr ())" "db_calls s2 = db_calls ?s1 @ execs qs"
    "db_conns s2 conn = Some (?c1\<lparr>cn_rollback := cn_rollback ?c1 \<or> mark\<rparr>)" "db_next ?s1 \<le> db_next s2"
    "\<And>t. t < db_next ?s1 \<Longrightarrow> db_trans s2 t = db_trans ?s1 t"
    using c by (auto intro: inner_workE [OF assms(2), of ?s1 ?c1])
  obtain s3 where "db_finally (db_each (end_call D ?a) es) (trans_destroy D ?a) s2 = (s3, Inr ())" "db_calls s3 = db_calls s2"
    "db_conns s3 conn = Some (c\<lparr>cn_rollback := cn_rollback c \<or> mark \<or> refused es\<rparr>)" "db_trans s3 = (db_trans s2)(?a := None)" "db_next s3 = db_next s2"
    using inner_end [of s2 ?a conn _ "cn_transactions c" D es] s2(3,5) c by auto
  then show "\<exists>s'. run_work D conn (Nested ws es) s = (s', Inr ()) \<and> db_calls s' = db_calls s @ execs qs \<and>
      db_conns s' conn = Some (c\<lparr>cn_rollback := cn_rollback c \<or> mark \<or> refused es\<rparr>) \<and> db_next s \<le> db_next s' \<and>
      (\<forall>t < db_next s. db_trans s' t = db_trans s t)"
    using new s2 by (simp add: with_transaction_def run_finally_then)
qed

lemma inner_run:
  assumes "\<And>h q. accepts D (Exec_direct h q)"
  shows "inner_work D conn (run_work D conn w) (statements w) (unsettled w)"
    and "inner_work D conn (run_works D conn ws) (statements_all ws) (unsettled_all ws)"
proof (induction w and ws rule: statements_statements_all.induct)
  case (1 h q)
  then show ?case using assms by (simp add: inner_work_def accepts_def)
next
  case (2 ws es)
  then show ?case using inner_nested [OF assms 2] by simp
next
  case 3
  then show ?case by (simp add: inner_work_def)
next
  case (4 w ws)
  show ?case unfolding inner_work_def
  proof (intro allI impI, elim conjE)
    fix s :: db and c
    assume c: "db_conns s conn = Some c" "cn_transactions c > 0" "cn_connected c"
    obtain s1 where s1: "run_work D conn w s = (s1, Inr ())" "db_calls s1 = db_calls s @ execs (statements w)"
      "db_conns s1 conn = Some (c\<lparr>cn_rollback := cn_rollback c \<or> unsettled w\<rparr>)"
      "db_next s \<le> db_next s1" "\<And>t. t < db_next s \<Longrightarrow> db_trans s1 t = db_trans s t"
      using inner_workE [OF 4(1) c] by blast
    obtain s2 where "run_works D conn ws s1 = (s2, Inr ())" "db_calls s2 = db_calls s1 @ execs (statements_all ws)"
      "db_conns s2 conn = Some (c\<lparr>cn_rollback := (cn_rollback c \<or> unsettled w) \<or> unsettled_all ws\<rparr>)"
      "db_next s1 \<le> db_next s2" "\<And>t. t < db_next s1 \<Longrightarrow> db_trans s2 t = db_trans s1 t"
      using inner_workE [OF 4(2) s1(3)] c by auto
    then show "\<exists>s'. run_works D conn (w # ws) s = (s', Inr ()) \<and> db_calls s' = db_calls s @ execs (statements_all (w # ws)) \<and>
        db_conns s' conn = Some (c\<lparr>cn_rollback := cn_rollback c \<or> unsettled_all (w # ws)\<rparr>) \<and> db_next s \<le> db_next s' \<and>
        (\<forall>t < db_next s. db_trans s' t = db_trans s t)"
      using s1 by auto
  qed
qed

lemma effects_snoc:
  "effects_rev D (rev (h @ [c])) = (if success (od_rc D (h @ [c])) then effect_of c (effects_rev D (rev h)) else effects_rev D (rev h))"
  by simp

lemma effects_accepted: "accepts D c \<Longrightarrow> effects_rev D (c # rev h) = effect_of c (effects_rev D (rev h))"
  by (simp add: accepts_def)

lemma effects_execs:
  assumes "\<And>h q. accepts D (Exec_direct h q)" and "\<not> ef_auto (effects_rev D (rev h))"
  shows "effects_rev D (rev (execs qs) @ rev h) = (effects_rev D (rev h))\<lparr>ef_pending := ef_pending (effects_rev D (rev h)) @ map snd qs\<rparr>"
proof (induction qs rule: rev_induct)
  case (snoc x qs)
  obtain b q where x: "x = (b, q)" by (cases x)
  have "effects_rev D (Exec_direct b q # rev (h @ execs qs)) = effect_of (Exec_direct b q) (effects_rev D (rev (h @ execs qs)))"
    using assms(1) by (rule effects_accepted)
  then show ?case using snoc assms(2) x by simp
qed simp

text \<open>A whole outermost transaction, up to the point where its members end it.\<close>

lemma outer_body:
  assumes "\<And>h q. accepts D (Exec_direct h q)" and "db_conns s conn = Some c" and "cn_transactions c = 0" and "cn_connected c" and "\<not> cn_rollback c"
    and "accepts D (Set_connect_attr (cn_dbc c) Attr_autocommit (Value_int 0) sql_is_uinteger)"
  shows "\<exists>s2 a. run_work D conn (Nested ws es) s = db_finally (db_each (end_call D a) es) (trans_destroy D a) s2 \<and>
    db_calls s2 = db_calls s @ Set_connect_attr (cn_dbc c) Attr_autocommit (Value_int 0) sql_is_uinteger # execs (statements_all ws) \<and>
    db_conns s2 conn = Some (c\<lparr>cn_transactions := Suc 0, cn_rollback := unsettled_all ws\<rparr>) \<and>
    db_trans s2 a = Some \<lparr>ta_conn = conn, ta_committed = False\<rparr>"
proof -
  let ?c1 = "c\<lparr>cn_transactions := Suc 0\<rparr>" and ?a = "db_next s"
  let ?s1 = "s\<lparr>db_calls := db_calls s @ [Set_connect_attr (cn_dbc c) Attr_autocommit (Value_int 0) sql_is_uinteger],
    db_conns := (db_conns s)(conn \<mapsto> ?c1), db_next := Suc ?a, db_trans := (db_trans s)(?a \<mapsto> \<lparr>ta_conn = conn, ta_committed = False\<rparr>)\<rparr>"
  have new: "trans_create D conn s = (?s1, Inr ?a)" using assms(2-6) by (simp add: trans_create_def accepts_def)
  obtain s2 where "run_works D conn ws ?s1 = (s2, Inr ())" "db_calls s2 = db_calls ?s1 @ execs (statements_all ws)"
    "db_conns s2 conn = Some (?c1\<lparr>cn_rollback := cn_rollback ?c1 \<or> unsettled_all ws\<rparr>)"
    "\<And>t. t < db_next ?s1 \<Longrightarrow> db_trans s2 t = db_trans ?s1 t"
    using assms(2,4) by (auto intro: inner_workE [OF inner_run(2) [OF assms(1)], of ?s1 conn ?c1 ws])
  then show ?thesis using new assms(5)
    by (intro exI [of _ s2] exI [of _ ?a]) (simp add: with_transaction_def run_finally_then)
qed

section \<open>Properties\<close>

text \<open>
  C9. Nested transactions are one transaction: whatever the tree of scopes, the driver is told to leave
  autocommit mode, gets the statements in order, a commit exactly when the outermost transaction was
  committed, a rollback exactly when some transaction was not, and is put back in autocommit mode; the connection
  is as before. So the database keeps all statements when the outermost transaction commits, those
  of inner transactions that were rolled back too, and none otherwise.
\<close>

theorem nested_transactions:
  assumes "\<And>x. accepts D x" and "db_conns s conn = Some c" and "cn_transactions c = 0" and "cn_connected c" and "\<not> cn_rollback c"
    and "effects D s = \<lparr>ef_auto = True, ef_pending = [], ef_kept = kept\<rparr>"
  shows "\<exists>s'. run_work D conn (Nested ws es) s = (s', Inr ()) \<and> db_conns s' conn = Some c \<and>
    db_calls s' = db_calls s @ [Set_connect_attr (cn_dbc c) Attr_autocommit (Value_int 0) sql_is_uinteger] @ execs (statements_all ws) @
      (if Commit \<in> set es then [End_tran (cn_dbc c) Sql_commit] else []) @
      (if unsettled (Nested ws es) then [End_tran (cn_dbc c) Sql_rollback] else []) @
      [Set_connect_attr (cn_dbc c) Attr_autocommit (Value_int 1) sql_is_uinteger] \<and>
    effects D s' = \<lparr>ef_auto = True, ef_pending = [], ef_kept = kept @ (if Commit \<in> set es then map snd (statements_all ws) else [])\<rparr>"
proof -
  obtain s2 a where body: "run_work D conn (Nested ws es) s = db_finally (db_each (end_call D a) es) (trans_destroy D a) s2"
    "db_calls s2 = db_calls s @ Set_connect_attr (cn_dbc c) Attr_autocommit (Value_int 0) sql_is_uinteger # execs (statements_all ws)"
    "db_conns s2 conn = Some (c\<lparr>cn_transactions := Suc 0, cn_rollback := unsettled_all ws\<rparr>)"
    "db_trans s2 a = Some \<lparr>ta_conn = conn, ta_committed = False\<rparr>"
    using outer_body [OF assms(1-5,1)] by blast
  obtain s' where s': "db_finally (db_each (end_call D a) es) (trans_destroy D a) s2 = (s', Inr ())"
    "db_calls s' = db_calls s2 @ (if Commit \<in> set es then [End_tran (cn_dbc c) Sql_commit] else []) @
      (if unsettled_all ws \<or> refused es then [End_tran (cn_dbc c) Sql_rollback] else []) @
      [Set_connect_attr (cn_dbc c) Attr_autocommit (Value_int 1) sql_is_uinteger]"
    "db_conns s' conn = Some (c\<lparr>cn_transactions := 0, cn_rollback := False\<rparr>)"
    using outer_end [OF assms(1) body(4,3), of es] assms(4) by auto
  have c: "c\<lparr>cn_transactions := 0, cn_rollback := False\<rparr> = c" using assms(3,5) by simp
  have ok: "success (od_rc D h)" if "h \<noteq> []" for h using assms(1) that by (cases h rule: rev_exhaust) (simp_all add: accepts_def)
  have "\<not> ef_auto (effects_rev D (rev (db_calls s @ [Set_connect_attr (cn_dbc c) Attr_autocommit (Value_int 0) sql_is_uinteger])))"
    using ok by simp
  note pending = effects_execs [OF assms(1) this]
  have "effects D s' = \<lparr>ef_auto = True, ef_pending = [], ef_kept = kept @ (if Commit \<in> set es then map snd (statements_all ws) else [])\<rparr>"
    using s'(2) body(2) ok pending assms(6) by (auto simp: effects_def refused_def)
  then show ?thesis using body s' c by auto
qed

definition connected_db :: db where
  "connected_db = \<lparr>db_calls = [], db_conns = [1 \<mapsto> conn_empty\<lparr>cn_env := 1, cn_dbc := 2, cn_connected := True\<rparr>], db_trans = Map.empty,
     db_stmts = Map.empty, db_results = Map.empty, db_tvps = Map.empty, db_next = 2\<rparr>"

text \<open>An inner transaction rolls back, the outer one commits: the inner statement is kept.\<close>

theorem nested_transactions_witness:
  "ef_kept (effects willing (fst (run_work willing 1 (Nested [Do 5 ''insert'', Nested [Do 5 ''delete''] [Rollback]] [Commit]) connected_db))) =
    [''insert'', ''delete'']"
  using nested_transactions [of willing connected_db 1 "conn_empty\<lparr>cn_env := 1, cn_dbc := 2, cn_connected := True\<rparr>" "[]"
      "[Do 5 ''insert'', Nested [Do 5 ''delete''] [Rollback]]" "[Commit]"]
  by (auto simp: connected_db_def conn_empty_def accepts_def willing_def effects_def)


definition no_commit_driver :: odbc where
  "no_commit_driver = willing\<lparr>od_rc := (\<lambda>h. if h \<noteq> [] \<and> last h = End_tran 2 Sql_commit then Sql_error else Sql_success)\<rparr>"


end
