(* ===== verification/Db_Statement.thy ===== *)
theory Db_Statement
  imports Db_Transaction
begin

text \<open>
  \<^verbatim>\<open>nanodbc::statement\<close>: opening, preparing and executing, asynchronous execution, and
  binding parameters. \<open>st_bind_len_or_null\<close> are the indicator arrays the driver reads:
  \<open>sql_null_data\<close> marks a null. Arrays behind pointers are lists; a read past their
  end is undefined.
\<close>

section \<open>Definitions\<close>

definition sql_null_data :: int where "sql_null_data = -1"
definition sql_nts :: int where "sql_nts = -3"
definition sql_no_total :: int where "sql_no_total = -4"
definition ulong_max :: nat where "ulong_max = 2 ^ 64 - 1"

definition stmt_empty :: "nat \<Rightarrow> statement_impl" where
  "stmt_empty conn = \<lparr>st_stmt = 0, st_open = False, st_conn = conn, st_bind_len_or_null = Map.empty, st_string_data = Map.empty,
     st_binary_data = Map.empty, st_param_descr = Map.empty, st_async = False, st_async_enabled = False, st_async_event = 0,
     st_tvp_data = Map.empty, st_open_tvp = False\<rparr>"

text \<open>The default constructor; its connection is a new one that is not connected.\<close>

definition stmt_create :: "nat dbm" where
  "stmt_create = db_bind conn_create (\<lambda>conn. db_bind db_new (\<lambda>a.
     db_then (db_modify (db_stmts_update (\<lambda>m. m(a \<mapsto> stmt_empty conn)))) (db_return a)))"

definition stmt_connected :: "nat \<Rightarrow> bool dbm" where
  "stmt_connected a = db_bind (stmt_get a) (\<lambda>t. db_bind (conn_get (st_conn t)) (\<lambda>c. db_return (cn_connected c)))"

text \<open>A call on the statement's handle that throws when it fails.\<close>

definition stmt_ok :: "odbc \<Rightarrow> nat \<Rightarrow> (handle \<Rightarrow> sql_call) \<Rightarrow> unit dbm" where
  "stmt_ok D a call = db_bind (stmt_get a) (\<lambda>t. sql_ok D (call (st_stmt t)) (st_stmt t) Handle_stmt)"

definition set_stmt :: "nat \<Rightarrow> handle \<Rightarrow> unit dbm" where
  "set_stmt a h = stmt_put a (\<lambda>t. t\<lparr>st_stmt := h\<rparr>)"

definition reset_parameters :: "odbc \<Rightarrow> nat \<Rightarrow> unit dbm" where
  "reset_parameters D a = db_then (stmt_put a (\<lambda>t. t\<lparr>st_param_descr := Map.empty\<rparr>))
     (db_bind (stmt_get a) (\<lambda>t. db_then (sql D (Free_stmt (st_stmt t) Sql_reset_params)) (db_return ())))"

definition stmt_free :: "odbc \<Rightarrow> nat \<Rightarrow> unit dbm" where
  "stmt_free D a = db_bind (stmt_get a) (\<lambda>t. deallocate_handle D (st_stmt t) (set_stmt a) Handle_stmt)"

text \<open>
  \<^verbatim>\<open>close\<close> drops the table-valued parameters the statement shares; the caller who
  opened them has them still, so nothing is destroyed here.
\<close>

definition stmt_close :: "odbc \<Rightarrow> nat \<Rightarrow> unit dbm" where
  "stmt_close D a = db_then (stmt_put a (\<lambda>t. t\<lparr>st_tvp_data := Map.empty\<rparr>)) (db_bind (stmt_get a) (\<lambda>t. db_bind (stmt_connected a) (\<lambda>conn.
     db_then (db_when (st_open t \<and> conn) (db_then (stmt_ok D a Cancel) (db_then (reset_parameters D a) (stmt_free D a))))
       (stmt_put a (\<lambda>t. t\<lparr>st_open := False, st_stmt := 0\<rparr>)))))"

definition stmt_open :: "odbc \<Rightarrow> nat \<Rightarrow> nat \<Rightarrow> unit dbm" where
  "stmt_open D a conn = db_then (stmt_close D a) (db_bind (conn_get conn) (\<lambda>c.
     db_bind (sql D (Alloc_handle Handle_stmt (cn_dbc c))) (\<lambda>rc. db_bind (written (od_handle D)) (\<lambda>h.
       db_then (stmt_put a (\<lambda>t. t\<lparr>st_stmt := h, st_open := success rc\<rparr>))
        (if \<not> success rc then db_throw (if h = 0 then Database_error (cn_dbc c) Handle_dbc else Database_error h Handle_stmt)
         else stmt_put a (\<lambda>t. t\<lparr>st_conn := conn\<rparr>))))))"

text \<open>The destructor.\<close>

definition stmt_destroy :: "odbc \<Rightarrow> nat \<Rightarrow> unit dbm" where
  "stmt_destroy D a = db_catch (db_bind (stmt_get a) (\<lambda>t. db_bind (stmt_connected a) (\<lambda>conn.
     db_when (st_open t \<and> conn) (db_then (sql D (Cancel (st_stmt t))) (db_then (reset_parameters D a) (stmt_free D a))))))
     (\<lambda>_. db_return ())"

definition stmt_cancel :: "odbc \<Rightarrow> nat \<Rightarrow> unit dbm" where
  "stmt_cancel D a = stmt_ok D a Cancel"

definition stmt_timeout :: "odbc \<Rightarrow> nat \<Rightarrow> int \<Rightarrow> unit dbm" where
  "stmt_timeout D a timeout = db_bind (stmt_get a) (\<lambda>t. db_bind (sql D (Set_stmt_attr (st_stmt t) Attr_query_timeout timeout)) (\<lambda>rc.
     if \<not> success rc \<and> timeout \<noteq> 0 then db_throw (Database_error (st_stmt t) Handle_stmt) else db_return ()))"

text \<open>Asynchronous execution.\<close>

definition enable_async :: "odbc \<Rightarrow> nat \<Rightarrow> nat \<Rightarrow> unit dbm" where
  "enable_async D a event = db_bind (stmt_get a) (\<lambda>t.
     db_then (db_when (\<not> st_async_enabled t)
       (db_then (stmt_ok D a (\<lambda>h. Set_stmt_attr h Attr_async_enable 1)) (stmt_put a (\<lambda>t. t\<lparr>st_async_enabled := True\<rparr>))))
     (db_when (st_async_event t \<noteq> event)
       (db_then (stmt_ok D a (\<lambda>h. Set_stmt_attr h Attr_async_stmt_event (int event))) (stmt_put a (\<lambda>t. t\<lparr>st_async_event := event\<rparr>)))))"

definition disable_async :: "odbc \<Rightarrow> nat \<Rightarrow> unit dbm" where
  "disable_async D a = db_bind (stmt_get a) (\<lambda>t. db_when (st_async_enabled t)
     (db_then (stmt_ok D a (\<lambda>h. Set_stmt_attr h Attr_async_enable 0)) (stmt_put a (\<lambda>t. t\<lparr>st_async_enabled := False\<rparr>))))"

definition use_event :: "odbc \<Rightarrow> nat \<Rightarrow> nat \<Rightarrow> unit dbm" where
  "use_event D a event = (if event = 0 then disable_async D a else enable_async D a event)"

definition async_helper :: "nat \<Rightarrow> retcode \<Rightarrow> bool dbm" where
  "async_helper a rc =
     (if rc = Sql_still_executing then db_then (stmt_put a (\<lambda>t. t\<lparr>st_async := True\<rparr>)) (db_return True)
      else if success rc then db_then (stmt_put a (\<lambda>t. t\<lparr>st_async := False\<rparr>)) (db_return False)
      else db_bind (stmt_get a) (\<lambda>t. db_throw (Database_error (st_stmt t) Handle_stmt)))"

definition call_complete_async :: "odbc \<Rightarrow> nat \<Rightarrow> unit dbm" where
  "call_complete_async D a = db_bind (stmt_get a) (\<lambda>t. db_when (st_async t)
     (db_bind (sql D (Complete_async Handle_stmt (st_stmt t))) (\<lambda>rc. db_bind (written (od_complete D)) (\<lambda>arc.
       if \<not> success rc \<or> \<not> success arc then db_throw (Database_error (st_stmt t) Handle_stmt) else db_return ()))))"

text \<open>Preparing and executing.\<close>

definition stmt_prepare :: "odbc \<Rightarrow> nat \<Rightarrow> string \<Rightarrow> int \<Rightarrow> nat \<Rightarrow> retcode dbm" where
  "stmt_prepare D a query timeout event = db_bind (stmt_get a) (\<lambda>t.
     if \<not> st_open t then db_throw (Programming_error ''statement has no associated open connection'')
     else db_then (use_event D a event) (db_bind (sql D (Prepare (st_stmt t) query)) (\<lambda>rc.
       if \<not> success rc \<and> rc \<noteq> Sql_still_executing then db_throw (Database_error (st_stmt t) Handle_stmt)
       else db_then (stmt_timeout D a timeout) (db_return rc))))"

definition stmt_prepare_on :: "odbc \<Rightarrow> nat \<Rightarrow> nat \<Rightarrow> string \<Rightarrow> int \<Rightarrow> unit dbm" where
  "stmt_prepare_on D a conn query timeout = db_then (stmt_open D a conn) (db_then (stmt_prepare D a query timeout 0) (db_return ()))"

definition just_execute_direct :: "odbc \<Rightarrow> nat \<Rightarrow> nat \<Rightarrow> string \<Rightarrow> int \<Rightarrow> int \<Rightarrow> nat \<Rightarrow> retcode dbm" where
  "just_execute_direct D a conn query batch timeout event =
     db_then (stmt_open D a conn) (db_then (use_event D a event)
      (db_then (stmt_ok D a (\<lambda>h. Set_stmt_attr h Attr_paramset_size batch)) (db_then (stmt_timeout D a timeout)
       (db_bind (stmt_get a) (\<lambda>t. db_bind (sql D (Exec_direct (st_stmt t) query)) (\<lambda>rc.
         if \<not> success rc \<and> rc \<noteq> Sql_no_data \<and> rc \<noteq> Sql_still_executing then db_throw (Database_error (st_stmt t) Handle_stmt)
         else db_return rc))))))"

definition just_execute :: "odbc \<Rightarrow> nat \<Rightarrow> int \<Rightarrow> int \<Rightarrow> nat \<Rightarrow> retcode dbm" where
  "just_execute D a batch timeout event = db_bind (stmt_get a) (\<lambda>t.
     if st_tvp_data t \<noteq> Map.empty \<and> batch \<noteq> 1 then db_throw (Programming_error ''cannot use batch operation when using tvp'')
     else db_then (db_when (st_open t) (stmt_ok D a (\<lambda>h. Free_stmt h Sql_close)))
      (db_then (use_event D a event)
       (db_bind (sql D (Set_stmt_attr (st_stmt t) Attr_paramset_size batch)) (\<lambda>rc.
         if \<not> success rc \<and> rc \<noteq> Sql_no_data then db_throw (Database_error (st_stmt t) Handle_stmt)
         else db_then (stmt_timeout D a timeout) (db_bind (sql D (Execute (st_stmt t))) (\<lambda>rc.
           if \<not> success rc \<and> rc \<noteq> Sql_no_data \<and> rc \<noteq> Sql_still_executing then db_throw (Database_error (st_stmt t) Handle_stmt)
           else db_return rc))))))"

text \<open>
  The constructors with a connection. When the body of a constructor throws, the object is not
  constructed and its destructor does not run.
\<close>

definition stmt_create_on :: "odbc \<Rightarrow> nat \<Rightarrow> nat dbm" where
  "stmt_create_on D conn = db_bind stmt_create (\<lambda>a. db_then (stmt_open D a conn) (db_return a))"

definition stmt_create_prepared :: "odbc \<Rightarrow> nat \<Rightarrow> string \<Rightarrow> int \<Rightarrow> nat dbm" where
  "stmt_create_prepared D conn query timeout = db_bind stmt_create (\<lambda>a. db_then (stmt_prepare_on D a conn query timeout) (db_return a))"

definition async_prepare :: "odbc \<Rightarrow> nat \<Rightarrow> string \<Rightarrow> nat \<Rightarrow> int \<Rightarrow> bool dbm" where
  "async_prepare D a query event timeout = db_bind (stmt_prepare D a query timeout event) (async_helper a)"

definition async_execute_direct :: "odbc \<Rightarrow> nat \<Rightarrow> nat \<Rightarrow> nat \<Rightarrow> string \<Rightarrow> int \<Rightarrow> int \<Rightarrow> bool dbm" where
  "async_execute_direct D a conn event query batch timeout = db_bind (just_execute_direct D a conn query batch timeout event) (async_helper a)"

definition async_execute :: "odbc \<Rightarrow> nat \<Rightarrow> nat \<Rightarrow> int \<Rightarrow> int \<Rightarrow> bool dbm" where
  "async_execute D a event batch timeout = db_bind (just_execute D a batch timeout event) (async_helper a)"

definition affected_rows :: "odbc \<Rightarrow> nat \<Rightarrow> int dbm" where
  "affected_rows D a = db_then (stmt_ok D a Row_count) (written (od_number D))"

definition stmt_columns :: "odbc \<Rightarrow> nat \<Rightarrow> int dbm" where
  "stmt_columns D a = db_then (disable_async D a) (db_then (stmt_ok D a Num_result_cols) (written (od_number D)))"

definition stmt_parameters :: "odbc \<Rightarrow> nat \<Rightarrow> int dbm" where
  "stmt_parameters D a = db_then (disable_async D a) (db_then (stmt_ok D a Num_params) (written (od_number D)))"

text \<open>\<^verbatim>\<open>at\<close> throws for an index that is not in the map.\<close>

definition parameter_size :: "odbc \<Rightarrow> bool \<Rightarrow> nat \<Rightarrow> int \<Rightarrow> nat dbm" where
  "parameter_size D nd a idx = db_bind (stmt_get a) (\<lambda>t.
     if st_param_descr t idx = None
     then (case st_param_descr t idx of None \<Rightarrow> db_throw Std_out_of_range | Some p \<Rightarrow> db_return (bp_size p))
     else db_then (disable_async D a) (db_then (stmt_ok D a (\<lambda>h. Describe_param h (idx + 1)))
       (db_bind (written (od_param D)) (\<lambda>p. db_then (db_assert nd (pd_size p < ulong_max)) (db_return (pd_size p))))))"

section \<open>Binding parameters\<close>

datatype param_direction = PARAM_IN | PARAM_OUT | PARAM_INOUT | PARAM_RETURN

fun param_type_from_direction :: "param_direction \<Rightarrow> int" where
  "param_type_from_direction PARAM_IN = 1"
| "param_type_from_direction PARAM_OUT = 4"
| "param_type_from_direction PARAM_INOUT = 2"
| "param_type_from_direction PARAM_RETURN = 4"

definition parameter_empty :: bound_parameter where
  "parameter_empty = \<lparr>bp_size = 0, bp_index = 0, bp_iotype = 0, bp_type = 0, bp_scale = 0\<rparr>"

text \<open>
  The arguments of \<^verbatim>\<open>SQLDescribeParam\<close> are references into the map of descriptions: the entry is there
  before the call, and stays when the call fails.
\<close>

definition describe_param :: "odbc \<Rightarrow> nat \<Rightarrow> int \<Rightarrow> unit dbm" where
  "describe_param D a idx = db_bind (stmt_get a) (\<lambda>t. if st_param_descr t idx \<noteq> None then db_return ()
     else db_bind (sql D (Describe_param (st_stmt t) (idx + 1))) (\<lambda>rc. db_bind (written (od_param D)) (\<lambda>p.
       db_then (stmt_put a (\<lambda>t. t\<lparr>st_param_descr := (st_param_descr t)(idx \<mapsto> parameter_empty\<lparr>bp_type := pd_type p, bp_size := pd_size p, bp_scale := pd_scale p\<rparr>)\<rparr>))
         (if success rc then db_return () else db_throw (Database_error (st_stmt t) Handle_stmt)))))"

definition prepare_bind :: "odbc \<Rightarrow> bool \<Rightarrow> nat \<Rightarrow> int \<Rightarrow> nat \<Rightarrow> param_direction \<Rightarrow> bound_parameter dbm" where
  "prepare_bind D nd a idx batch dir =
     db_then (db_assert nd (idx \<ge> 0)) (db_then (disable_async D a) (db_then (describe_param D a idx) (db_bind (stmt_get a) (\<lambda>t.
       let p = (case st_param_descr t idx of None \<Rightarrow> parameter_empty | Some p \<Rightarrow> p);
           param = p\<lparr>bp_index := idx, bp_iotype := param_type_from_direction dir\<rparr>
       in db_then (stmt_put a (\<lambda>t. t\<lparr>st_bind_len_or_null := (st_bind_len_or_null t)(idx \<mapsto> replicate (max batch 8) sql_null_data)\<rparr>))
         (db_then (db_assert nd (bp_index param = idx)) (db_then (db_assert nd (bp_iotype param > 0)) (db_return param)))))))"

text \<open>The indicators of a parameter, written for some of its first elements.\<close>

definition set_indicators :: "nat \<Rightarrow> int \<Rightarrow> nat \<Rightarrow> (nat \<Rightarrow> int option) \<Rightarrow> unit dbm" where
  "set_indicators a idx batch f = stmt_put a (\<lambda>t. t\<lparr>st_bind_len_or_null := (st_bind_len_or_null t)(idx :=
     map_option (\<lambda>xs. map (\<lambda>i. if i < batch then (case f i of None \<Rightarrow> xs ! i | Some v \<Rightarrow> v) else xs ! i) [0..<length xs])
       (st_bind_len_or_null t idx))\<rparr>)"

definition refuse_open_tvp :: "nat \<Rightarrow> unit dbm" where
  "refuse_open_tvp a = db_bind (stmt_get a) (\<lambda>t.
     if st_open_tvp t then db_throw (Programming_error ''cannot bind parameter, close tvp first'') else db_return ())"

text \<open>\<open>bind_parameter\<close> for values that are not characters, and for characters.\<close>

definition bind_parameter :: "odbc \<Rightarrow> bool \<Rightarrow> nat \<Rightarrow> bound_parameter \<Rightarrow> int \<Rightarrow> nat \<Rightarrow> unit dbm" where
  "bind_parameter D nd a p ctype buf_value_size =
     db_then (db_assert nd (buf_value_size > 0 \<or> bp_size p > 0)) (db_then (refuse_open_tvp a)
      (let value_size = (if buf_value_size = 0 then bp_size p else buf_value_size);
           param_size = (if value_size > bp_size p then 0 else bp_size p)
       in stmt_ok D a (\<lambda>h. Bind_parameter h (bp_index p + 1) (bp_iotype p) ctype (bp_type p) param_size (bp_scale p) value_size True)))"

definition bind_parameter_chars :: "odbc \<Rightarrow> nat \<Rightarrow> bound_parameter \<Rightarrow> int \<Rightarrow> nat \<Rightarrow> nat \<Rightarrow> unit dbm" where
  "bind_parameter_chars D a p ctype buf_size buf_value_size = db_then (refuse_open_tvp a)
     (stmt_ok D a (\<lambda>h. Bind_parameter h (bp_index p + 1) (bp_iotype p) ctype (bp_type p) (bp_size p) (bp_scale p)
       (if buf_value_size > 0 then buf_value_size else bp_size p) (buf_size > 1)))"

text \<open>\<^verbatim>\<open>bind\<close> of an array of values of one type, with a flag for each null or a value that stands for null.\<close>

definition flag_at :: "bool list \<Rightarrow> nat \<Rightarrow> bool" where
  "flag_at ns i = (i < length ns \<and> ns ! i)"

definition value_indicator :: "('v \<Rightarrow> 'v \<Rightarrow> bool) \<Rightarrow> 'v list \<Rightarrow> bool list option \<Rightarrow> 'v option \<Rightarrow> nat \<Rightarrow> nat \<Rightarrow> int option" where
  "value_indicator equals values nulls sentry len i =
     (if nulls \<noteq> None \<or> sentry \<noteq> None
      then (if (case sentry of None \<Rightarrow> False | Some x \<Rightarrow> \<not> equals (values ! i) x) \<or>
               (case nulls of None \<Rightarrow> True | Some ns \<Rightarrow> \<not> flag_at ns i)
            then Some (int len) else None)
      else Some (int len))"

definition bind_values :: "odbc \<Rightarrow> bool \<Rightarrow> nat \<Rightarrow> ('v \<Rightarrow> 'v \<Rightarrow> bool) \<Rightarrow> int \<Rightarrow> param_direction \<Rightarrow> int \<Rightarrow> 'v list \<Rightarrow> bool list option \<Rightarrow> 'v option \<Rightarrow> unit dbm" where
  "bind_values D nd a equals ctype dir idx values nulls sentry =
     db_bind (prepare_bind D nd a idx (length values) dir) (\<lambda>p.
       if (case nulls of None \<Rightarrow> False | Some ns \<Rightarrow> length ns < length values) then db_fail Db_undefined
       else db_then (set_indicators a idx (length values) (value_indicator equals values nulls sentry (bp_size p)))
         (bind_parameter D nd a p ctype 0))"

text \<open>Strings: \<^verbatim>\<open>strncmp\<close> and the comparison with the value that stands for null.\<close>

definition strneq :: "nat \<Rightarrow> string \<Rightarrow> string \<Rightarrow> bool" where
  "strneq n x y \<longleftrightarrow> take n (cstr x @ [CHR 0x00]) = take n (cstr y @ [CHR 0x00])"

definition equals_string :: "string \<Rightarrow> string \<Rightarrow> bool" where
  "equals_string lhs rhs = strneq (length lhs) lhs rhs"

definition slot :: "nat \<Rightarrow> nat \<Rightarrow> 'a list \<Rightarrow> 'a list" where
  "slot n i xs = take n (drop (i * n) xs)"

definition string_indicator :: "string \<Rightarrow> nat \<Rightarrow> bool list option \<Rightarrow> string option \<Rightarrow> nat \<Rightarrow> int option" where
  "string_indicator values value_size nulls sentry i = (case sentry of
       Some x \<Rightarrow> if \<not> equals_string (slot value_size i values) (cstr x) then Some sql_nts else None
     | None \<Rightarrow> (case nulls of Some ns \<Rightarrow> if \<not> flag_at ns i then Some sql_nts else None | None \<Rightarrow> Some sql_nts))"

definition bind_chars :: "odbc \<Rightarrow> bool \<Rightarrow> nat \<Rightarrow> param_direction \<Rightarrow> int \<Rightarrow> string \<Rightarrow> nat \<Rightarrow> nat \<Rightarrow> bool list option \<Rightarrow> string option \<Rightarrow> unit dbm" where
  "bind_chars D nd a dir idx values value_size batch nulls sentry =
     db_bind (prepare_bind D nd a idx batch dir) (\<lambda>p.
       if length values < batch * value_size \<or> (case nulls of None \<Rightarrow> False | Some ns \<Rightarrow> sentry = None \<and> length ns < batch) then db_fail Db_undefined
       else db_then (set_indicators a idx batch (string_indicator values value_size nulls sentry))
         (bind_parameter_chars D a p 1 batch value_size))"

definition pad_to :: "nat \<Rightarrow> 'a \<Rightarrow> 'a list \<Rightarrow> 'a list" where
  "pad_to n z xs = xs @ replicate (n - length xs) z"

definition max_length :: "'a list list \<Rightarrow> nat" where
  "max_length xss = fold (\<lambda>xs m. max (length xs) m) xss 0"

definition bind_strings :: "odbc \<Rightarrow> bool \<Rightarrow> nat \<Rightarrow> param_direction \<Rightarrow> int \<Rightarrow> string list \<Rightarrow> bool list option \<Rightarrow> string option \<Rightarrow> unit dbm" where
  "bind_strings D nd a dir idx values nulls sentry =
     db_then (stmt_put a (\<lambda>t. if st_string_data t idx = None then t\<lparr>st_string_data := (st_string_data t)(idx \<mapsto> [])\<rparr> else t))
     (db_then (prepare_bind D nd a idx (length values) dir)
      (let n = Suc (max_length values); data = concat (map (pad_to n (CHR 0x00)) values)
       in db_then (stmt_put a (\<lambda>t. t\<lparr>st_string_data := (st_string_data t)(idx \<mapsto> data)\<rparr>))
         (bind_chars D nd a dir idx data n (length values) nulls sentry)))"

text \<open>Binary values; \<^verbatim>\<open>std::equal\<close> compares as many bytes as the value has.\<close>

fun equal_bytes :: "bytes \<Rightarrow> bytes \<Rightarrow> bool option" where
  "equal_bytes [] ys = Some True"
| "equal_bytes (x # xs) [] = None"
| "equal_bytes (x # xs) (y # ys) = (if x = y then equal_bytes xs ys else Some False)"

definition binary_indicator :: "bytes list \<Rightarrow> bool list option \<Rightarrow> bytes option \<Rightarrow> nat \<Rightarrow> int option" where
  "binary_indicator values nulls sentry i = (case sentry of
       Some x \<Rightarrow> if equal_bytes (values ! i) x = Some False then Some (int (length (values ! i))) else None
     | None \<Rightarrow> (case nulls of Some ns \<Rightarrow> if \<not> flag_at ns i then Some (int (length (values ! i))) else None
                | None \<Rightarrow> Some (int (length (values ! i)))))"

definition bind_binary :: "odbc \<Rightarrow> bool \<Rightarrow> nat \<Rightarrow> param_direction \<Rightarrow> int \<Rightarrow> bytes list \<Rightarrow> bool list option \<Rightarrow> bytes option \<Rightarrow> unit dbm" where
  "bind_binary D nd a dir idx values nulls sentry =
     db_bind (prepare_bind D nd a idx (length values) dir) (\<lambda>p.
       let n = max_length values in
       if (case sentry of Some x \<Rightarrow> list_ex (\<lambda>v. equal_bytes v x = None) values
           | None \<Rightarrow> (case nulls of None \<Rightarrow> False | Some ns \<Rightarrow> length ns < length values)) then db_fail Db_undefined
       else db_then (stmt_put a (\<lambda>t. t\<lparr>st_binary_data := (st_binary_data t)(idx \<mapsto> concat (map (pad_to n 0) values))\<rparr>))
        (db_then (set_indicators a idx (length values) (binary_indicator values nulls sentry))
         (bind_parameter D nd a p (-2) n)))"

definition bind_null :: "odbc \<Rightarrow> bool \<Rightarrow> nat \<Rightarrow> int \<Rightarrow> nat \<Rightarrow> unit dbm" where
  "bind_null D nd a idx batch = db_bind (prepare_bind D nd a idx batch PARAM_IN) (\<lambda>p.
     stmt_ok D a (\<lambda>h. Bind_parameter h (bp_index p + 1) (bp_iotype p) 1 (bp_type p) (bp_size p) 0 0 True))"

definition describe_parameters :: "nat \<Rightarrow> int list \<Rightarrow> int list \<Rightarrow> nat list \<Rightarrow> int list \<Rightarrow> unit dbm" where
  "describe_parameters a idx type len scale =
     (if length idx \<noteq> length type \<or> length idx \<noteq> length len \<or> length idx \<noteq> length scale
      then db_throw (Programming_error ''parameter description arrays are of different size'')
      else db_each (\<lambda>i. stmt_put a (\<lambda>t. t\<lparr>st_param_descr := (st_param_descr t)(idx ! i \<mapsto>
             \<lparr>bp_size = len ! i, bp_index = int i, bp_iotype = 0, bp_type = type ! i, bp_scale = scale ! i\<rparr>)\<rparr>)) [0..<length idx])"

section \<open>Lemmas\<close>

lemma run_stmt_ok [simp]: "db_stmts s a = Some t \<Longrightarrow> stmt_ok D a call s = (s\<lparr>db_calls := db_calls s @ [call (st_stmt t)]\<rparr>,
    if success (od_rc D (db_calls s @ [call (st_stmt t)])) then Inr () else Inl (Db_throw (Database_error (st_stmt t) Handle_stmt)))"
  by (simp add: stmt_ok_def)

lemma run_sync [simp]: "db_stmts s a = Some t \<Longrightarrow> \<not> st_async_enabled t \<Longrightarrow> disable_async D a s = (s, Inr ())"
  by (simp add: disable_async_def)

lemma run_refuse_open_tvp [simp]: "db_stmts s a = Some t \<Longrightarrow> \<not> st_open_tvp t \<Longrightarrow> refuse_open_tvp a s = (s, Inr ())"
  by (simp add: refuse_open_tvp_def)

lemma run_prepare_bind:
  assumes "db_stmts s a = Some t" and "\<not> st_async_enabled t" and "st_param_descr t idx = Some p" and "idx \<ge> 0"
  shows "prepare_bind D nd a idx batch dir s =
    (s\<lparr>db_stmts := (db_stmts s)(a \<mapsto> t\<lparr>st_bind_len_or_null := (st_bind_len_or_null t)(idx \<mapsto> replicate (max batch 8) sql_null_data)\<rparr>)\<rparr>,
     Inr (p\<lparr>bp_index := idx, bp_iotype := param_type_from_direction dir\<rparr>))"
  using assms by (cases dir) (simp_all add: prepare_bind_def describe_param_def Let_def)

lemma length_pad_to [simp]: "length xs \<le> n \<Longrightarrow> length (pad_to n z xs) = n"
  by (simp add: pad_to_def)

lemma fold_max_ge: "m \<le> fold (\<lambda>xs m. max (length xs) m) xss m"
proof (induction xss arbitrary: m)
  case (Cons xs xss)
  have "m \<le> max (length xs) m" by simp
  also have "\<dots> \<le> fold (\<lambda>xs m. max (length xs) m) xss (max (length xs) m)" by (rule Cons)
  finally show ?case by simp
qed simp

lemma max_length_bound: "xs \<in> set xss \<Longrightarrow> length xs \<le> max_length xss"
proof -
  have "xs \<in> set xss \<Longrightarrow> length xs \<le> fold (\<lambda>xs m. max (length xs) m) xss m" for m
  proof (induction xss arbitrary: m)
    case (Cons ys xss)
    then show ?case using fold_max_ge [of "max (length xs) m" xss] by auto
  qed simp
  then show "xs \<in> set xss \<Longrightarrow> length xs \<le> max_length xss" by (simp add: max_length_def)
qed

lemma slot_concat: "(\<And>xs. xs \<in> set xss \<Longrightarrow> length xs = n) \<Longrightarrow> i < length xss \<Longrightarrow> slot n i (concat xss) = xss ! i"
proof (induction xss arbitrary: i)
  case (Cons xs xss)
  then show ?case by (cases i) (simp_all add: slot_def)
qed simp

lemma length_concat_pad: "(\<And>xs. xs \<in> set xss \<Longrightarrow> length xs \<le> n) \<Longrightarrow> length (concat (map (pad_to n z) xss)) = length xss * n"
  by (induction xss) simp_all

lemma cstr_pad: "length xs < n \<Longrightarrow> cstr (pad_to n (CHR 0x00) xs) = cstr xs"
proof -
  assume "length xs < n"
  then obtain k where "n - length xs = Suc k" by (metis Suc_diff_Suc)
  then show ?thesis by (simp add: cstr_def pad_to_def takeWhile_tail)
qed

lemma cstr_no_nul: "CHR 0x00 \<notin> set (cstr xs)"
  by (auto simp: cstr_def dest: set_takeWhileD)

lemma cstr_cstr [simp]: "cstr (cstr xs) = cstr xs"
  by (simp add: cstr_def)

lemma length_cstr: "length (cstr xs) \<le> length xs"
  by (simp add: cstr_def length_takeWhile_le)

text \<open>A padded string compares as the string.\<close>

lemma equals_string_pad:
  assumes "length xs < n"
  shows "equals_string (pad_to n (CHR 0x00) xs) (cstr y) \<longleftrightarrow> cstr xs = cstr y"
proof -
  have short: "length (cstr xs) < n" using assms length_cstr order.strict_trans1 by blast
  have "take n (cstr y @ [CHR 0x00]) = cstr xs @ [CHR 0x00] \<longleftrightarrow> cstr xs = cstr y"
  proof
    assume eq: "take n (cstr y @ [CHR 0x00]) = cstr xs @ [CHR 0x00]"
    then have "CHR 0x00 \<in> set (take n (cstr y @ [CHR 0x00]))" by simp
    then have "n > length (cstr y)" using cstr_no_nul [of y] by (metis in_set_takeD leI take_all_iff take_append append_Nil2 diff_is_0_eq' take_0)
    then show "cstr xs = cstr y" using eq by simp
  qed (use short in simp)
  then show ?thesis using assms short by (auto simp: equals_string_def strneq_def cstr_pad)
qed

text \<open>What the indicators are once a described parameter has been prepared and marked.\<close>

lemma indicators_run:
  assumes "db_stmts s a = Some t" and "st_bind_len_or_null t idx = Some (replicate (max batch 8) sql_null_data)"
  shows "\<exists>xs. set_indicators a idx batch f s = (s\<lparr>db_stmts := (db_stmts s)(a \<mapsto> t\<lparr>st_bind_len_or_null := (st_bind_len_or_null t)(idx \<mapsto> xs)\<rparr>)\<rparr>, Inr ()) \<and>
    (\<forall>i < batch. xs ! i = (case f i of None \<Rightarrow> sql_null_data | Some v \<Rightarrow> v))"
  using assms by (auto simp: set_indicators_def split: option.split)

lemma value_indicator_null:
  assumes "\<And>ns. nulls = Some ns \<Longrightarrow> length ns = length values" and "i < length values"
  shows "value_indicator equals values nulls sentry n i = None \<longleftrightarrow>
    (case nulls of None \<Rightarrow> False | Some ns \<Rightarrow> ns ! i \<and> (case sentry of None \<Rightarrow> True | Some x \<Rightarrow> equals (values ! i) x))"
    and "value_indicator equals values nulls sentry n i \<noteq> Some sql_null_data"
  using assms by (cases nulls; cases sentry; auto simp: value_indicator_def flag_at_def sql_null_data_def)+

section \<open>Properties\<close>

text \<open>
  Which values of an array are bound as null: those flagged, and where a value that
  stands for null is given as well, those flagged that equal it. A value that stands for null has no effect on its own:
  without flags no value is bound as null.
\<close>

theorem bind_values_nulls:
  assumes "db_stmts s a = Some t" and "\<not> st_async_enabled t" and "st_param_descr t idx = Some p" and "idx \<ge> 0" and "bp_size p > 0"
    and "\<not> st_open_tvp t" and "\<And>c. accepts D c" and "\<And>ns. nulls = Some ns \<Longrightarrow> length ns = length values"
  shows "\<exists>s' t' xs. bind_values D nd a equals ctype dir idx values nulls sentry s = (s', Inr ()) \<and> db_stmts s' a = Some t' \<and>
    st_bind_len_or_null t' idx = Some xs \<and>
    (\<forall>i < length values. xs ! i = sql_null_data \<longleftrightarrow>
      (case nulls of None \<Rightarrow> False | Some ns \<Rightarrow> ns ! i \<and> (case sentry of None \<Rightarrow> True | Some x \<Rightarrow> equals (values ! i) x)))"
proof -
  let ?t = "t\<lparr>st_bind_len_or_null := (st_bind_len_or_null t)(idx \<mapsto> replicate (max (length values) 8) sql_null_data)\<rparr>"
  let ?s = "s\<lparr>db_stmts := (db_stmts s)(a \<mapsto> ?t)\<rparr>" and ?f = "value_indicator equals values nulls sentry (bp_size p)"
  obtain xs where xs: "set_indicators a idx (length values) ?f ?s =
      (?s\<lparr>db_stmts := (db_stmts ?s)(a \<mapsto> ?t\<lparr>st_bind_len_or_null := (st_bind_len_or_null ?t)(idx \<mapsto> xs)\<rparr>)\<rparr>, Inr ())"
    "\<And>i. i < length values \<Longrightarrow> xs ! i = (case ?f i of None \<Rightarrow> sql_null_data | Some v \<Rightarrow> v)"
    using indicators_run [of ?s a ?t idx "length values" ?f] by auto
  have null: "xs ! i = sql_null_data \<longleftrightarrow> ?f i = None" if "i < length values" for i
    using xs(2) [OF that] value_indicator_null(2) [OF assms(8) that, where sentry = sentry and equals = equals and n = "bp_size p"]
    by (auto split: option.splits)
  have "\<not> (case nulls of None \<Rightarrow> False | Some ns \<Rightarrow> length ns < length values)" using assms(8) by (cases nulls) auto
  then have "bind_values D nd a equals ctype dir idx values nulls sentry s =
      (?s\<lparr>db_stmts := (db_stmts ?s)(a \<mapsto> ?t\<lparr>st_bind_len_or_null := (st_bind_len_or_null ?t)(idx \<mapsto> xs)\<rparr>),
          db_calls := db_calls s @ [Bind_parameter (st_stmt t) (idx + 1) (param_type_from_direction dir) ctype (bp_type p) (bp_size p) (bp_scale p) (bp_size p) True]\<rparr>, Inr ())"
    using xs(1) assms(5-7) by (simp add: bind_values_def run_prepare_bind [OF assms(1-4)] bind_parameter_def Let_def accepts_def)
  then show ?thesis using null value_indicator_null(1) [OF assms(8)] by auto
qed

definition demo_statement :: statement_impl where
  "demo_statement = (stmt_empty 1)\<lparr>st_stmt := 3, st_open := True, st_param_descr := [0 \<mapsto> parameter_empty\<lparr>bp_type := 4, bp_size := 10\<rparr>]\<rparr>"

definition statement_db :: db where
  "statement_db = connected_db\<lparr>db_stmts := [7 \<mapsto> demo_statement], db_next := 8\<rparr>"

lemma statement_db_simps [simp]:
  "db_stmts statement_db 7 = Some demo_statement" "db_calls statement_db = []" "\<not> st_async_enabled demo_statement" "\<not> st_open_tvp demo_statement" "st_stmt demo_statement = 3"
  "st_param_descr demo_statement 0 = Some (parameter_empty\<lparr>bp_type := 4, bp_size := 10\<rparr>)"
  "st_param_descr demo_statement 1 = None" "st_conn demo_statement = 1" "st_open demo_statement"
  by (simp_all add: statement_db_def connected_db_def demo_statement_def stmt_empty_def)

lemma willing_accepts: "accepts willing c"
  by (simp add: accepts_def willing_def)

theorem bind_values_nulls_witness:
  "\<exists>s' t' xs. bind_values willing False 7 (=) (-16) PARAM_IN 0 [5, 0 :: int] None (Some 0) statement_db = (s', Inr ()) \<and>
     db_stmts s' 7 = Some t' \<and> st_bind_len_or_null t' 0 = Some xs \<and> xs ! 1 \<noteq> sql_null_data"
  using bind_values_nulls [of statement_db 7 demo_statement 0 "parameter_empty\<lparr>bp_type := 4, bp_size := 10\<rparr>" willing None "[5, 0 :: int]" False "(=)" "-16" PARAM_IN "Some 0"]
    willing_accepts by fastforce



text \<open>
  When describing a parameter fails, binding it throws; but the entry for its description is already there, so
  binding it again asks the driver nothing and binds with whatever the failed call left.
\<close>

theorem failed_describe_is_remembered:
  assumes "db_stmts s a = Some t" and "\<not> st_async_enabled t" and "st_param_descr t idx = None" and "idx \<ge> 0"
    and "\<not> success (od_rc D (db_calls s @ [Describe_param (st_stmt t) (idx + 1)]))"
    and "od_param D (db_calls s @ [Describe_param (st_stmt t) (idx + 1)]) = left"
  shows "\<exists>s1 s2. bind_null D nd a idx batch s = (s1, Inl (Db_throw (Database_error (st_stmt t) Handle_stmt))) \<and>
    fst (bind_null D nd a idx batch s1) = s2 \<and>
    db_calls s2 = db_calls s @ [Describe_param (st_stmt t) (idx + 1), Bind_parameter (st_stmt t) (idx + 1) 1 1 (pd_type left) (pd_size left) 0 0 True]"
proof -
  let ?t = "t\<lparr>st_param_descr := (st_param_descr t)(idx \<mapsto> parameter_empty\<lparr>bp_type := pd_type left, bp_size := pd_size left, bp_scale := pd_scale left\<rparr>)\<rparr>"
  let ?s1 = "s\<lparr>db_calls := db_calls s @ [Describe_param (st_stmt t) (idx + 1)], db_stmts := (db_stmts s)(a \<mapsto> ?t)\<rparr>"
  have first: "bind_null D nd a idx batch s = (?s1, Inl (Db_throw (Database_error (st_stmt t) Handle_stmt)))"
    using assms by (simp add: bind_null_def prepare_bind_def describe_param_def)
  have "prepare_bind D nd a idx batch PARAM_IN ?s1 = (?s1\<lparr>db_stmts := (db_stmts ?s1)(a \<mapsto> ?t\<lparr>st_bind_len_or_null := (st_bind_len_or_null ?t)(idx \<mapsto> replicate (max batch 8) sql_null_data)\<rparr>)\<rparr>,
      Inr (parameter_empty\<lparr>bp_type := pd_type left, bp_size := pd_size left, bp_scale := pd_scale left, bp_index := idx, bp_iotype := 1\<rparr>))"
    using run_prepare_bind [of ?s1 a ?t idx _ D nd batch PARAM_IN] assms(2,4) by simp
  then show ?thesis using first by (simp add: bind_null_def parameter_empty_def)
qed

theorem failed_describe_is_remembered_witness:
  "\<exists>s1. bind_null (willing\<lparr>od_rc := (\<lambda>_. Sql_error), od_param := (\<lambda>_. \<lparr>pd_type = 0, pd_size = 0, pd_scale = 0\<rparr>)\<rparr>) False 7 1 1 statement_db =
      (s1, Inl (Db_throw (Database_error 3 Handle_stmt))) \<and>
    db_calls (fst (bind_null (willing\<lparr>od_rc := (\<lambda>_. Sql_error), od_param := (\<lambda>_. \<lparr>pd_type = 0, pd_size = 0, pd_scale = 0\<rparr>)\<rparr>) False 7 1 1 s1)) =
      [Describe_param 3 2, Bind_parameter 3 2 1 1 0 0 0 0 True]"
  using failed_describe_is_remembered [of statement_db 7 demo_statement 1
      "willing\<lparr>od_rc := (\<lambda>_. Sql_error), od_param := (\<lambda>_. \<lparr>pd_type = 0, pd_size = 0, pd_scale = 0\<rparr>)\<rparr>" "\<lparr>pd_type = 0, pd_size = 0, pd_scale = 0\<rparr>" False 1]
  by auto

text \<open>
  \<^verbatim>\<open>parameter_size\<close> has its condition the wrong way round: it throws for a parameter that was not
  described, without asking the driver, and asks again for one that was, whatever the user described.
\<close>

theorem parameter_size_inverted:
  assumes "db_stmts s a = Some t" and "\<not> st_async_enabled t"
  shows "(st_param_descr t idx = None \<longrightarrow> parameter_size D nd a idx s = (s, Inl (Db_throw Std_out_of_range))) \<and>
    (st_param_descr t idx \<noteq> None \<longrightarrow> db_calls (fst (parameter_size D nd a idx s)) = db_calls s @ [Describe_param (st_stmt t) (idx + 1)])"
  using assms by (simp add: parameter_size_def db_then_def db_bind_def)

theorem parameter_size_inverted_witness:
  "parameter_size willing False 7 1 statement_db = (statement_db, Inl (Db_throw Std_out_of_range)) \<and>
   db_calls (fst (parameter_size willing False 7 0 statement_db)) = [Describe_param 3 1]"
  using parameter_size_inverted [of statement_db 7 demo_statement 1 willing False] parameter_size_inverted [of statement_db 7 demo_statement 0 willing False]
  by simp

text \<open>
  The constructor that prepares a query leaks its handle when preparing fails: the destructor of an object that
  was not constructed does not run.
\<close>

theorem constructor_leaks_statement:
  assumes "db_conns s conn = Some c" and "conn < db_next s"
    and "h1 = db_calls s @ [Alloc_handle Handle_stmt (cn_dbc c)]" and "success (od_rc D h1)" and "od_handle D h1 = h" and "h \<noteq> 0"
    and "od_rc D (h1 @ [Prepare h query]) = Sql_error"
  shows "\<exists>s'. stmt_create_prepared D conn query timeout s = (s', Inl (Db_throw (Database_error h Handle_stmt))) \<and>
    db_calls s' = h1 @ [Prepare h query] \<and> live_handles D s' = live_handles D s + 1"
  using assms
  by (simp add: stmt_create_prepared_def stmt_create_def conn_create_def stmt_prepare_on_def stmt_open_def stmt_close_def stmt_connected_def stmt_empty_def
      conn_empty_def stmt_prepare_def use_event_def disable_async_def live_handles_def)

theorem constructor_leaks_statement_witness:
  "\<exists>s'. stmt_create_prepared (willing\<lparr>od_rc := (\<lambda>h. if length h = 2 then Sql_error else Sql_success)\<rparr>) 1 ''selec'' 0 connected_db =
      (s', Inl (Db_throw (Database_error 1 Handle_stmt))) \<and> live_handles (willing\<lparr>od_rc := (\<lambda>h. if length h = 2 then Sql_error else Sql_success)\<rparr>) s' = 1"
  using constructor_leaks_statement [of connected_db 1 _ _ "willing\<lparr>od_rc := (\<lambda>h. if length h = 2 then Sql_error else Sql_success)\<rparr>" 1 "''selec''" 0]
  by (auto simp: connected_db_def willing_def live_handles_def)

end
