(* ===== verification/Db_Result.thy ===== *)
theory Db_Result
  imports Db_Statement
begin

text \<open>
  \<^verbatim>\<open>nanodbc::result\<close>: a cursor over the rows of a statement, fetched in rowsets into
  buffers bound to its columns. The data buffer of a column is the list of its cells, one for each row of the rowset,
  where the code has one array and the offset of row \<open>i\<close> is \<open>i\<close> times the
  length of a cell; \<open>bc_cbdata\<close> are the lengths or null marks the driver writes
  beside them. The driver writes to the buffers when it fetches.

  Of the conversions of \<^verbatim>\<open>get\<close> those to \<^verbatim>\<open>int64_t\<close> from whole numbers,
  to narrow text from text, binary and whole numbers, to bytes and to dates and times are modelled, not those that involve floating-point
  numbers, wide characters or the text of dates.
\<close>

section \<open>Definitions\<close>

definition long_max :: int where "long_max = 2 ^ 63 - 1"
definition long_min :: int where "long_min = - (2 ^ 63)"
definition row_number_unknown :: int where "row_number_unknown = 2 ^ 64 - 2"

definition sql_c_char :: int where "sql_c_char = 1"
definition sql_c_wchar :: int where "sql_c_wchar = -8"
definition sql_c_sbigint :: int where "sql_c_sbigint = -25"
definition sql_c_double :: int where "sql_c_double = 8"
definition sql_c_binary :: int where "sql_c_binary = -2"
definition sql_c_date :: int where "sql_c_date = 9"
definition sql_c_time :: int where "sql_c_time = 10"
definition sql_c_timestamp :: int where "sql_c_timestamp = 11"
definition sql_c_slong :: int where "sql_c_slong = -16"
definition sql_c_long :: int where "sql_c_long = 4"

text \<open>How a column of an SQL type is bound: C type, length of a cell, and whether it is a blob, which is not bound.\<close>

definition column_binding :: "int \<Rightarrow> nat \<Rightarrow> int \<times> nat \<times> bool" where
  "column_binding sqltype sqlsize =
     (if sqltype \<in> {-7, -6, 5, 4, -5} then (sql_c_sbigint, 8, False)
      else if sqltype \<in> {8, 6, 7} then (sql_c_double, 8, False)
      else if sqltype \<in> {3, 2} then (sql_c_char, sqlsize + 1 + 1 + 1, False)
      else if sqltype \<in> {9, 91} then (sql_c_date, 6, False)
      else if sqltype \<in> {10, 92, -154} then (sql_c_time, 6, False)
      else if sqltype \<in> {11, 93} then (sql_c_timestamp, 16, False)
      else if sqltype \<in> {1, 12} then (sql_c_char, if sqlsize = 0 then 0 else sqlsize + 1, sqlsize = 0)
      else if sqltype \<in> {-8, -9, -152} then (sql_c_wchar, if sqlsize = 0 then 0 else (sqlsize + 1) * 2, sqlsize = 0)
      else if sqltype = -155 then (sql_c_wchar, (sqlsize + 1) * 2, False)
      else if sqltype = -1 then (sql_c_char, 0, True)
      else if sqltype = -10 then (sql_c_wchar, 0, True)
      else if sqltype \<in> {-2, -3, -4, -151} then (sql_c_binary, 0, True)
      else (sql_c_char, 128, False))"

definition result_stmt_ok :: "odbc \<Rightarrow> nat \<Rightarrow> (handle \<Rightarrow> sql_call) \<Rightarrow> unit dbm" where
  "result_stmt_ok D a call = db_bind (result_get a) (\<lambda>r. stmt_ok D (rs_stmt r) call)"

text \<open>Lengths and null marks are cleared, and what blobs hold is released.\<close>

definition clear_column :: "nat \<Rightarrow> bound_column \<Rightarrow> bound_column" where
  "clear_column n col = (let col1 = col\<lparr>bc_cbdata := map_option (\<lambda>_. replicate n 0) (bc_cbdata col)\<rparr>
     in if bc_blob col \<and> bc_pdata col \<noteq> None then col1\<lparr>bc_pdata := None, bc_clen := 0\<rparr> else col1)"

definition before_move :: "nat \<Rightarrow> unit dbm" where
  "before_move a = db_bind (result_get a) (\<lambda>r.
     if list_ex (\<lambda>col. bc_cbdata col = None) (rs_columns r) \<and> rs_rowset_size r \<noteq> 0 then db_fail Db_undefined
     else result_put a (\<lambda>r. r\<lparr>rs_columns := map (clear_column (nat (rs_rowset_size r))) (rs_columns r)\<rparr>))"

definition cleanup_bound_columns :: "nat \<Rightarrow> unit dbm" where
  "cleanup_bound_columns a = db_then (before_move a) (result_put a (\<lambda>r. r\<lparr>rs_columns := [], rs_by_name := Map.empty\<rparr>))"

definition put_column :: "nat \<Rightarrow> nat \<Rightarrow> (bound_column \<Rightarrow> bound_column) \<Rightarrow> unit dbm" where
  "put_column a i f = result_put a (\<lambda>r. r\<lparr>rs_columns := (rs_columns r)[i := f (rs_columns r ! i)]\<rparr>)"

definition bind_column :: "odbc \<Rightarrow> bool \<Rightarrow> nat \<Rightarrow> nat \<Rightarrow> unit dbm" where
  "bind_column D nd a i = db_bind (result_get a) (\<lambda>r. let col = rs_columns r ! i in
     db_then (db_assert nd (bc_pdata col \<noteq> None)) (db_then (db_assert nd (bc_cbdata col \<noteq> None))
      (db_then (result_stmt_ok D a (\<lambda>h. Bind_col h (int (bc_column col) + 1) (bc_ctype col) True (bc_clen col)))
       (put_column a i (\<lambda>col. col\<lparr>bc_bound := True\<rparr>)))))"

definition unbind_column :: "odbc \<Rightarrow> bool \<Rightarrow> nat \<Rightarrow> nat \<Rightarrow> unit dbm" where
  "unbind_column D nd a i = db_bind (result_get a) (\<lambda>r. let col = rs_columns r ! i in
     db_then (db_assert nd (bc_cbdata col \<noteq> None))
      (db_then (result_stmt_ok D a (\<lambda>h. Bind_col h (int (bc_column col) + 1) (bc_ctype col) False 0))
       (put_column a i (\<lambda>col. col\<lparr>bc_pdata := None, bc_bound := False\<rparr>))))"

definition column_empty :: bound_column where
  "column_empty = \<lparr>bc_name = [], bc_column = 0, bc_sqltype = 0, bc_sqlsize = 0, bc_scale = 0, bc_ctype = 0, bc_clen = 0, bc_blob = False,
     bc_cbdata = None, bc_pdata = None, bc_bound = False\<rparr>"

definition describe_column :: "odbc \<Rightarrow> nat \<Rightarrow> nat \<Rightarrow> unit dbm" where
  "describe_column D a i = db_then (result_stmt_ok D a (\<lambda>h. Describe_col h (int i + 1))) (db_bind (written (od_column D)) (\<lambda>d.
     let name = take 1023 (cd_name d); (ctype, clen, blob) = column_binding (cd_sqltype d) (cd_size d)
     in db_then (put_column a i (\<lambda>col. col\<lparr>bc_name := name, bc_column := i, bc_sqltype := cd_sqltype d, bc_sqlsize := cd_size d,
          bc_scale := cd_scale d, bc_ctype := ctype, bc_clen := clen, bc_blob := blob\<rparr>))
        (result_put a (\<lambda>r. r\<lparr>rs_by_name := (rs_by_name r)(name \<mapsto> i)\<rparr>))))"

definition allocate_column :: "odbc \<Rightarrow> bool \<Rightarrow> nat \<Rightarrow> nat \<Rightarrow> unit dbm" where
  "allocate_column D nd a i = db_bind (result_get a) (\<lambda>r. let n = nat (rs_rowset_size r) in
     db_then (put_column a i (\<lambda>col. col\<lparr>bc_cbdata := Some (replicate n 0)\<rparr>))
      (if bc_blob (rs_columns r ! i) then unbind_column D nd a i
       else db_then (put_column a i (\<lambda>col. col\<lparr>bc_pdata := Some (replicate n [])\<rparr>)) (bind_column D nd a i)))"

definition auto_bind_columns :: "odbc \<Rightarrow> bool \<Rightarrow> nat \<Rightarrow> unit dbm" where
  "auto_bind_columns D nd a = db_then (cleanup_bound_columns a) (db_bind (result_get a) (\<lambda>r. db_bind (stmt_columns D (rs_stmt r)) (\<lambda>n.
     if n < 1 then db_return ()
     else db_then (result_put a (\<lambda>r. r\<lparr>rs_columns := replicate (nat n) column_empty\<rparr>))
      (db_then (disable_async D (rs_stmt r))
       (db_then (db_each (describe_column D a) [0..<nat n]) (db_each (allocate_column D nd a) [0..<nat n]))))))"

definition result_create :: "odbc \<Rightarrow> bool \<Rightarrow> nat \<Rightarrow> int \<Rightarrow> nat dbm" where
  "result_create D nd stmt rowset = db_bind db_new (\<lambda>a.
     db_then (db_modify (db_results_update (\<lambda>m. m(a \<mapsto> \<lparr>rs_stmt = stmt, rs_rowset_size = rowset, rs_row_count = 0, rs_columns = [],
        rs_position = 0, rs_by_name = Map.empty, rs_at_end = False, rs_async = False\<rparr>))))
     (db_then (result_stmt_ok D a (\<lambda>h. Set_stmt_attr h Attr_row_array_size rowset))
     (db_then (result_stmt_ok D a (\<lambda>h. Set_stmt_attr h Attr_rows_fetched_ptr (int a)))
     (db_then (auto_bind_columns D nd a) (db_return a)))))"

definition result_destroy :: "nat \<Rightarrow> unit dbm" where
  "result_destroy a = cleanup_bound_columns a"

text \<open>Executing for a result.\<close>

definition execute_direct :: "odbc \<Rightarrow> bool \<Rightarrow> nat \<Rightarrow> nat \<Rightarrow> string \<Rightarrow> int \<Rightarrow> int \<Rightarrow> nat dbm" where
  "execute_direct D nd a conn query batch timeout =
     db_then (just_execute_direct D a conn query batch timeout 0) (result_create D nd a batch)"

definition stmt_execute :: "odbc \<Rightarrow> bool \<Rightarrow> nat \<Rightarrow> int \<Rightarrow> int \<Rightarrow> nat dbm" where
  "stmt_execute D nd a batch timeout = db_then (just_execute D a batch timeout 0) (result_create D nd a batch)"

definition complete_execute :: "odbc \<Rightarrow> bool \<Rightarrow> nat \<Rightarrow> int \<Rightarrow> nat dbm" where
  "complete_execute D nd a batch = db_then (call_complete_async D a) (result_create D nd a batch)"

definition transact :: "odbc \<Rightarrow> bool \<Rightarrow> nat \<Rightarrow> int \<Rightarrow> int \<Rightarrow> nat dbm" where
  "transact D nd a batch timeout = db_bind (stmt_get a) (\<lambda>t. with_transaction D (st_conn t) (\<lambda>tr.
     db_bind (stmt_execute D nd a batch timeout) (\<lambda>r. db_then (trans_commit D tr) (db_return r))))"

definition just_transact :: "odbc \<Rightarrow> nat \<Rightarrow> int \<Rightarrow> int \<Rightarrow> unit dbm" where
  "just_transact D a batch timeout = db_bind (stmt_get a) (\<lambda>t. with_transaction D (st_conn t) (\<lambda>tr.
     db_then (just_execute D a batch timeout 0) (trans_commit D tr)))"

text \<open>Moving the cursor.\<close>

definition write_cells :: "(int \<times> bytes) list \<Rightarrow> bound_column \<Rightarrow> bound_column" where
  "write_cells cells col = (if bc_bound col
     then col\<lparr>bc_cbdata := map_option (\<lambda>xs. take (length xs) (map fst cells @ drop (length cells) xs)) (bc_cbdata col),
              bc_pdata := map_option (\<lambda>xs. take (length xs) (map snd cells @ drop (length cells) xs)) (bc_pdata col)\<rparr>
     else col)"

definition fetched :: "odbc \<Rightarrow> sql_call list \<Rightarrow> result_impl \<Rightarrow> result_impl" where
  "fetched D h r = r\<lparr>rs_row_count := od_rows_fetched D h,
     rs_columns := map (\<lambda>i. write_cells (od_cells D h i) (rs_columns r ! i)) [0..<length (rs_columns r)]\<rparr>"

definition fetch :: "odbc \<Rightarrow> nat \<Rightarrow> int \<Rightarrow> orientation \<Rightarrow> nat \<Rightarrow> bool dbm" where
  "fetch D a rows orient event = db_then (before_move a) (db_bind (result_get a) (\<lambda>r. db_then (use_event D (rs_stmt r) event)
     (db_bind (stmt_get (rs_stmt r)) (\<lambda>t. db_bind (sql D (Fetch_scroll (st_stmt t) orient rows)) (\<lambda>rc.
       db_bind (db_gets db_calls) (\<lambda>h. db_then (result_put a (fetched D h))
        (if rc = Sql_no_data then db_then (result_put a (\<lambda>r. r\<lparr>rs_at_end := True\<rparr>)) (db_return False)
         else if event \<noteq> 0 then db_return (rc = Sql_still_executing)
         else if \<not> success rc then db_throw (Database_error (st_stmt t) Handle_stmt)
         else db_return True)))))))"

definition rows_in :: "bool \<Rightarrow> nat \<Rightarrow> int dbm" where
  "rows_in nd a = db_bind (result_get a) (\<lambda>r. db_then (db_assert nd (int (rs_row_count r) \<le> long_max))
     (db_return (if int (rs_row_count r) \<le> long_max then int (rs_row_count r) else int (rs_row_count r) - 2 ^ 64)))"

definition set_position :: "nat \<Rightarrow> int \<Rightarrow> unit dbm" where
  "set_position a p = (if long_min \<le> p \<and> p \<le> long_max then result_put a (\<lambda>r. r\<lparr>rs_position := p\<rparr>) else db_fail Db_undefined)"

definition result_first :: "odbc \<Rightarrow> nat \<Rightarrow> bool dbm" where
  "result_first D a = db_then (set_position a 0) (fetch D a 0 Fetch_first 0)"

definition result_last :: "odbc \<Rightarrow> nat \<Rightarrow> bool dbm" where
  "result_last D a = db_then (set_position a 0) (fetch D a 0 Fetch_last 0)"

definition result_next :: "odbc \<Rightarrow> bool \<Rightarrow> nat \<Rightarrow> nat \<Rightarrow> bool dbm" where
  "result_next D nd a event = db_bind (rows_in nd a) (\<lambda>n. db_bind (result_get a) (\<lambda>r.
     let refetch = db_then (set_position a 0) (fetch D a 0 Fetch_next event) in
     if n = 0 then refetch
     else db_then (set_position a (rs_position r + 1))
       (if rs_position r + 1 < rs_rowset_size r then db_return (rs_position r + 1 < n) else refetch)))"

definition result_prior :: "odbc \<Rightarrow> bool \<Rightarrow> nat \<Rightarrow> bool dbm" where
  "result_prior D nd a = db_bind (rows_in nd a) (\<lambda>n. db_bind (result_get a) (\<lambda>r.
     let refetch = db_then (set_position a 0) (fetch D a 0 Fetch_prior 0) in
     if n = 0 then refetch
     else db_then (set_position a (rs_position r - 1)) (if rs_position r - 1 \<ge> 0 then db_return True else refetch)))"

definition result_move :: "odbc \<Rightarrow> nat \<Rightarrow> int \<Rightarrow> bool dbm" where
  "result_move D a row = db_then (set_position a 0) (fetch D a row Fetch_absolute 0)"

definition result_skip :: "odbc \<Rightarrow> bool \<Rightarrow> nat \<Rightarrow> int \<Rightarrow> bool dbm" where
  "result_skip D nd a rows = db_bind (result_get a) (\<lambda>r. db_then (set_position a (rs_position r + rows)) (db_bind (rows_in nd a) (\<lambda>n.
     if n \<noteq> 0 \<and> rs_position r + rows < rs_rowset_size r then db_return (rs_position r + rows < n)
     else db_then (set_position a 0) (fetch D a rows Fetch_relative 0))))"

definition async_next :: "odbc \<Rightarrow> bool \<Rightarrow> nat \<Rightarrow> nat \<Rightarrow> bool dbm" where
  "async_next D nd a event = db_bind (result_next D nd a event) (\<lambda>b. db_then (result_put a (\<lambda>r. r\<lparr>rs_async := b\<rparr>)) (db_return b))"

definition complete_next :: "odbc \<Rightarrow> nat \<Rightarrow> bool dbm" where
  "complete_next D a = db_bind (result_get a) (\<lambda>r. db_bind (stmt_get (rs_stmt r)) (\<lambda>t.
     if \<not> rs_async r then db_return (\<not> rs_at_end r)
     else db_bind (sql D (Complete_async Handle_stmt (st_stmt t))) (\<lambda>rc. db_bind (written (od_complete D)) (\<lambda>arc.
       db_bind (db_gets db_calls) (\<lambda>h. db_then (result_put a (fetched D h))
       (if arc = Sql_no_data then db_then (result_put a (\<lambda>r. r\<lparr>rs_at_end := True\<rparr>)) (db_return False)
        else if \<not> success rc \<or> \<not> success arc then db_throw (Database_error (st_stmt t) Handle_stmt)
        else db_then (result_put a (\<lambda>r. r\<lparr>rs_async := False\<rparr>)) (db_return (\<not> rs_at_end r))))))))"

text \<open>Row numbers are 64-bit words of the driver.\<close>

definition result_position :: "odbc \<Rightarrow> bool \<Rightarrow> nat \<Rightarrow> int dbm" where
  "result_position D nd a = db_bind (result_get a) (\<lambda>r. db_then (result_stmt_ok D a (\<lambda>h. Get_stmt_attr h Attr_row_number))
     (db_bind (written (od_number D)) (\<lambda>pos. if pos = 0 \<or> pos = row_number_unknown then db_return 0
       else db_then (db_assert nd (pos < int ulong_max)) (db_return ((pos + rs_position r) mod 2 ^ 64)))))"

definition at_end :: "odbc \<Rightarrow> bool \<Rightarrow> nat \<Rightarrow> bool dbm" where
  "at_end D nd a = db_bind (result_get a) (\<lambda>r. if rs_at_end r then db_return True
     else db_bind (stmt_get (rs_stmt r)) (\<lambda>t. db_bind (sql D (Get_stmt_attr (st_stmt t) Attr_row_number)) (\<lambda>rc. db_bind (written (od_number D)) (\<lambda>pos.
       if pos = 0 \<or> pos = row_number_unknown then db_return True
       else db_bind (rows_in nd a) (\<lambda>n. db_return (\<not> success rc \<or> \<not> pos < n mod 2 ^ 64))))))"

definition next_result :: "odbc \<Rightarrow> bool \<Rightarrow> nat \<Rightarrow> bool dbm" where
  "next_result D nd a = db_bind (result_get a) (\<lambda>r. db_then (disable_async D (rs_stmt r)) (db_bind (stmt_get (rs_stmt r)) (\<lambda>t.
     db_bind (sql D (More_results (st_stmt t))) (\<lambda>rc.
       if rc = Sql_no_data then db_return False
       else if \<not> success rc then db_throw (Database_error (st_stmt t) Handle_stmt)
       else db_then (auto_bind_columns D nd a) (db_return True)))))"

section \<open>Columns\<close>

definition throw_if_column_is_out_of_range :: "nat \<Rightarrow> int \<Rightarrow> unit dbm" where
  "throw_if_column_is_out_of_range a column = db_bind (result_get a) (\<lambda>r.
     if column < 0 \<or> column \<ge> int (length (rs_columns r)) then db_throw Index_range_error else db_return ())"

text \<open>The bound column at an index; the array is not checked.\<close>

definition column_at :: "nat \<Rightarrow> int \<Rightarrow> bound_column dbm" where
  "column_at a column = db_bind (result_get a) (\<lambda>r.
     if 0 \<le> column \<and> column < int (length (rs_columns r)) then db_return (rs_columns r ! nat column) else db_fail Db_undefined)"

text \<open>The element of an array at the position in the rowset.\<close>

definition at_position :: "int \<Rightarrow> 'a list option \<Rightarrow> 'a dbm" where
  "at_position p xs = (case xs of None \<Rightarrow> db_fail Db_undefined
     | Some ys \<Rightarrow> if 0 \<le> p \<and> p < int (length ys) then db_return (ys ! nat p) else db_fail Db_undefined)"

definition is_null :: "bool \<Rightarrow> nat \<Rightarrow> int \<Rightarrow> bool dbm" where
  "is_null nd a column = db_then (throw_if_column_is_out_of_range a column) (db_bind (column_at a column) (\<lambda>col. db_bind (rows_in nd a) (\<lambda>n.
     db_bind (result_get a) (\<lambda>r. if rs_position r \<ge> n then db_throw Index_range_error
       else db_bind (at_position (rs_position r) (bc_cbdata col)) (\<lambda>x. db_return (x = sql_null_data))))))"

definition column_index :: "nat \<Rightarrow> string \<Rightarrow> int dbm" where
  "column_index a name = db_bind (result_get a) (\<lambda>r. case rs_by_name r name of None \<Rightarrow> db_throw Index_range_error
     | Some i \<Rightarrow> db_bind (column_at a (int i)) (\<lambda>col. db_return (int (bc_column col))))"

definition is_null_named :: "bool \<Rightarrow> nat \<Rightarrow> string \<Rightarrow> bool dbm" where
  "is_null_named nd a name = db_bind (column_index a name) (is_null nd a)"

definition is_bound :: "nat \<Rightarrow> int \<Rightarrow> bool dbm" where
  "is_bound a column = db_then (throw_if_column_is_out_of_range a column) (db_bind (column_at a column) (\<lambda>col. db_return (bc_bound col)))"

definition column_name :: "nat \<Rightarrow> int \<Rightarrow> string dbm" where
  "column_name a column = db_then (throw_if_column_is_out_of_range a column) (db_bind (column_at a column) (\<lambda>col. db_return (bc_name col)))"

definition column_size :: "bool \<Rightarrow> nat \<Rightarrow> int \<Rightarrow> int dbm" where
  "column_size nd a column = db_then (throw_if_column_is_out_of_range a column) (db_bind (column_at a column) (\<lambda>col.
     db_then (db_assert nd (int (bc_sqlsize col) \<le> long_max))
       (db_return (if int (bc_sqlsize col) \<le> long_max then int (bc_sqlsize col) else int (bc_sqlsize col) - 2 ^ 64))))"

definition column_decimal_digits :: "nat \<Rightarrow> int \<Rightarrow> int dbm" where
  "column_decimal_digits a column = db_then (throw_if_column_is_out_of_range a column) (db_bind (column_at a column) (\<lambda>col. db_return (bc_scale col)))"

definition column_datatype :: "nat \<Rightarrow> int \<Rightarrow> int dbm" where
  "column_datatype a column = db_then (throw_if_column_is_out_of_range a column) (db_bind (column_at a column) (\<lambda>col. db_return (bc_sqltype col)))"

definition column_c_datatype :: "nat \<Rightarrow> int \<Rightarrow> int dbm" where
  "column_c_datatype a column = db_then (throw_if_column_is_out_of_range a column) (db_bind (column_at a column) (\<lambda>col. db_return (bc_ctype col)))"

text \<open>The length the driver reports may exceed the buffer of 256 characters.\<close>

definition column_datatype_name :: "odbc \<Rightarrow> nat \<Rightarrow> int \<Rightarrow> string dbm" where
  "column_datatype_name D a column = db_then (throw_if_column_is_out_of_range a column)
     (db_then (result_stmt_ok D a (\<lambda>h. Col_type_name h (column + 1))) (db_bind (written (od_text D)) (\<lambda>(t, _).
       if length t > 256 then db_fail Db_undefined else db_return (take (length t) (char_buffer 256 t)))))"

definition unbind_one :: "odbc \<Rightarrow> bool \<Rightarrow> nat \<Rightarrow> int \<Rightarrow> unit dbm" where
  "unbind_one D nd a column = db_then (throw_if_column_is_out_of_range a column) (db_bind (is_bound a column) (\<lambda>b.
     db_when b (unbind_column D nd a (nat column))))"

definition unbind_all :: "odbc \<Rightarrow> bool \<Rightarrow> nat \<Rightarrow> unit dbm" where
  "unbind_all D nd a = db_bind (result_get a) (\<lambda>r. db_bind (stmt_columns D (rs_stmt r)) (\<lambda>n.
     if n < 1 then db_return () else db_each (\<lambda>i. unbind_one D nd a (int i)) [0..<nat n]))"

section \<open>Values\<close>

text \<open>\<open>get_ref\<close> for a value, an optional and with a fallback; \<open>getter\<close> is \<^verbatim>\<open>get_ref_impl\<close> for the type.\<close>

definition get_ref :: "bool \<Rightarrow> nat \<Rightarrow> (int \<Rightarrow> 'a dbm) \<Rightarrow> int \<Rightarrow> 'a dbm" where
  "get_ref nd a getter column = db_then (throw_if_column_is_out_of_range a column) (db_bind (is_null nd a column) (\<lambda>b.
     if b then db_throw Null_access_error else getter column))"

definition get_ref_optional :: "bool \<Rightarrow> nat \<Rightarrow> (int \<Rightarrow> 'a dbm) \<Rightarrow> int \<Rightarrow> 'a option dbm" where
  "get_ref_optional nd a getter column = db_then (throw_if_column_is_out_of_range a column) (db_bind (is_null nd a column) (\<lambda>b.
     if b then db_return None else db_bind (getter column) (\<lambda>x. db_return (Some x))))"

definition get_ref_fallback :: "bool \<Rightarrow> nat \<Rightarrow> (int \<Rightarrow> 'a dbm) \<Rightarrow> 'a \<Rightarrow> int \<Rightarrow> 'a dbm" where
  "get_ref_fallback nd a getter fallback column = db_then (throw_if_column_is_out_of_range a column) (db_bind (is_null nd a column) (\<lambda>b.
     if b then db_return fallback
     else db_bind (getter column) (\<lambda>x. db_bind (is_null nd a column) (\<lambda>b.
       if b then db_bind (is_bound a column) (\<lambda>bd. db_then (db_assert nd (\<not> bd)) (db_return fallback)) else db_return x))))"

definition get_ref_named :: "bool \<Rightarrow> nat \<Rightarrow> (int \<Rightarrow> 'a dbm) \<Rightarrow> string \<Rightarrow> 'a dbm" where
  "get_ref_named nd a getter name = db_bind (column_index a name) (\<lambda>column. db_bind (is_null nd a column) (\<lambda>b.
     if b then db_throw Null_access_error else getter column))"

definition get_ref_named_fallback :: "bool \<Rightarrow> nat \<Rightarrow> (int \<Rightarrow> 'a dbm) \<Rightarrow> 'a \<Rightarrow> string \<Rightarrow> 'a dbm" where
  "get_ref_named_fallback nd a getter fallback name = db_bind (column_index a name) (\<lambda>column. db_bind (is_null nd a column) (\<lambda>b.
     if b then db_bind (is_bound a column) (\<lambda>bd. db_then (db_assert nd bd) (db_return fallback))
     else db_bind (getter column) (\<lambda>x. db_bind (is_null nd a column) (\<lambda>b.
       if b then db_bind (is_bound a column) (\<lambda>bd. db_then (db_assert nd (\<not> bd)) (db_return fallback)) else db_return x))))"

text \<open>
  The bytes of a value: the cell of a bound column, one \<^verbatim>\<open>SQLGetData\<close> otherwise, which also
  tells whether the value is null.
\<close>

definition mark_null :: "nat \<Rightarrow> int \<Rightarrow> unit dbm" where
  "mark_null a column = db_bind (result_get a) (\<lambda>r. db_bind (column_at a column) (\<lambda>col. db_then (at_position (rs_position r) (bc_cbdata col))
     (put_column a (nat column) (\<lambda>col. col\<lparr>bc_cbdata := map_option (\<lambda>xs. xs[nat (rs_position r) := sql_null_data]) (bc_cbdata col)\<rparr>))))"

definition take_bytes :: "nat \<Rightarrow> bytes \<Rightarrow> bytes dbm" where
  "take_bytes n b = (if n \<le> length b then db_return (take n b) else db_fail Db_undefined)"

definition ensure_pdata :: "odbc \<Rightarrow> nat \<Rightarrow> nat \<Rightarrow> int \<Rightarrow> int \<Rightarrow> bytes dbm" where
  "ensure_pdata D a size_t ctype_t column = db_bind (is_bound a column) (\<lambda>bd. db_bind (result_get a) (\<lambda>r. db_bind (column_at a column) (\<lambda>col.
     if bd then db_bind (at_position (rs_position r) (bc_pdata col)) (take_bytes size_t)
     else db_bind (stmt_get (rs_stmt r)) (\<lambda>t. db_bind (sql D (Get_data (st_stmt t) (column + 1) ctype_t size_t)) (\<lambda>rc. db_bind (written (od_piece D)) (\<lambda>(ind, b).
       db_then (db_when (ind = sql_null_data) (mark_null a column))
        (if \<not> success rc then db_throw (Database_error (st_stmt t) Handle_stmt) else db_return (pad_to size_t 0 (take size_t b)))))))))"

text \<open>Little-endian two's complement.\<close>

fun le_nat :: "bytes \<Rightarrow> nat" where
  "le_nat [] = 0"
| "le_nat (b # bs) = unat b + 256 * le_nat bs"

definition le_int :: "bytes \<Rightarrow> int" where
  "le_int bs = (let n = int (le_nat bs) in if n < 2 ^ (8 * length bs - 1) then n else n - 2 ^ (8 * length bs))"

text \<open>Data in pieces: the loop ends at the first return code other than \<open>Sql_success_with_info\<close>.\<close>

partial_function (option) get_pieces :: "odbc \<Rightarrow> sql_call \<Rightarrow> (int \<Rightarrow> bytes \<Rightarrow> bytes) \<Rightarrow> sql_call list \<Rightarrow> bytes \<Rightarrow> bool
    \<Rightarrow> (sql_call list \<times> retcode \<times> bytes \<times> bool) option" where
  "get_pieces D c piece calls out null =
     (let calls' = calls @ [c]; rc = od_rc D calls'; ind = fst (od_piece D calls'); buffer = pad_to 1024 0 (take 1024 (snd (od_piece D calls')));
          out' = out @ piece ind buffer; null' = (null \<or> ind = sql_null_data)
      in if rc = Sql_success_with_info then get_pieces D c piece calls' out' null' else Some (calls', rc, out', null'))"

definition run_pieces :: "odbc \<Rightarrow> nat \<Rightarrow> int \<Rightarrow> handle \<Rightarrow> int \<Rightarrow> (int \<Rightarrow> bytes \<Rightarrow> bytes) \<Rightarrow> bytes dbm" where
  "run_pieces D a column h ctype piece = db_bind (db_gets db_calls) (\<lambda>calls.
     case get_pieces D (Get_data h (column + 1) ctype 1024) piece calls [] False of
       None \<Rightarrow> db_fail Db_loops
     | Some (calls', rc, out, null) \<Rightarrow> db_then (db_modify (\<lambda>s. s\<lparr>db_calls := calls'\<rparr>)) (db_then (db_when null (mark_null a column))
         (if rc = Sql_success \<or> rc = Sql_no_data then db_return out else db_throw (Database_error h Handle_stmt))))"

definition text_piece :: "int \<Rightarrow> int \<Rightarrow> bytes \<Rightarrow> bytes" where
  "text_piece ctype ind buffer = (let n = (if ctype = sql_c_binary then 1024 else 1023) in
     if ind = sql_no_total then take n buffer else if ind > 0 then take (min (nat ind) n) buffer else [])"

definition binary_piece :: "int \<Rightarrow> bytes \<Rightarrow> bytes" where
  "binary_piece ind buffer = (if ind > 0 then take (min (nat ind) 1024) buffer else [])"

text \<open>Text from a column of characters or bytes.\<close>

definition get_text :: "odbc \<Rightarrow> nat \<Rightarrow> int \<Rightarrow> bytes dbm" where
  "get_text D a column = db_bind (column_at a column) (\<lambda>col. db_bind (is_bound a column) (\<lambda>bd. db_bind (result_get a) (\<lambda>r.
     if \<not> bd then db_then (disable_async D (rs_stmt r)) (db_bind (stmt_get (rs_stmt r)) (\<lambda>t.
       run_pieces D a column (st_stmt t) (bc_ctype col) (text_piece (bc_ctype col))))
     else db_bind (at_position (rs_position r) (bc_pdata col)) (\<lambda>b.
       if 0 \<in> set b then db_return (takeWhile (\<lambda>x. x \<noteq> 0) b) else db_fail Db_undefined))))"

definition get_binary :: "odbc \<Rightarrow> nat \<Rightarrow> int \<Rightarrow> bytes dbm" where
  "get_binary D a column = db_bind (column_at a column) (\<lambda>col. db_bind (is_bound a column) (\<lambda>bd. db_bind (result_get a) (\<lambda>r.
     if bc_ctype col \<noteq> sql_c_binary then db_throw Type_incompatible_error
     else if \<not> bd then db_then (disable_async D (rs_stmt r)) (db_bind (stmt_get (rs_stmt r)) (\<lambda>t.
       run_pieces D a column (st_stmt t) sql_c_binary binary_piece))
     else db_bind (at_position (rs_position r) (bc_pdata col)) (take_bytes (bc_sqlsize col)))))"

text \<open>Whole numbers, and their text, printed into a buffer of the size of the column.\<close>

definition get_int64 :: "odbc \<Rightarrow> nat \<Rightarrow> int \<Rightarrow> int dbm" where
  "get_int64 D a column = db_bind (ensure_pdata D a 8 sql_c_sbigint column) (\<lambda>b. db_return (le_int b))"

fun nat_digits :: "nat \<Rightarrow> string" where
  "nat_digits n = (if n < 10 then [char_of (48 + n)] else nat_digits (n div 10) @ [char_of (48 + n mod 10)])"

definition int_text :: "int \<Rightarrow> string" where
  "int_text i = (if i < 0 then CHR ''-'' # nat_digits (nat (- i)) else nat_digits (nat i))"

definition get_int64_text :: "odbc \<Rightarrow> nat \<Rightarrow> int \<Rightarrow> string dbm" where
  "get_int64_text D a column = db_bind (column_at a column) (\<lambda>col. db_bind (get_int64 D a column) (\<lambda>i.
     db_return (take (bc_sqlsize col) (int_text i))))"

section \<open>The same by name\<close>

definition is_bound_named :: "nat \<Rightarrow> string \<Rightarrow> bool dbm" where
  "is_bound_named a name = db_bind (column_index a name) (is_bound a)"

definition column_size_named :: "bool \<Rightarrow> nat \<Rightarrow> string \<Rightarrow> int dbm" where
  "column_size_named nd a name = db_bind (column_index a name) (column_size nd a)"

definition column_decimal_digits_named :: "nat \<Rightarrow> string \<Rightarrow> int dbm" where
  "column_decimal_digits_named a name = db_bind (column_index a name) (\<lambda>i. db_bind (column_at a i) (\<lambda>col. db_return (bc_scale col)))"

definition column_datatype_named :: "nat \<Rightarrow> string \<Rightarrow> int dbm" where
  "column_datatype_named a name = db_bind (column_index a name) (\<lambda>i. db_bind (column_at a i) (\<lambda>col. db_return (bc_sqltype col)))"

definition column_datatype_name_named :: "odbc \<Rightarrow> nat \<Rightarrow> string \<Rightarrow> string dbm" where
  "column_datatype_name_named D a name = db_bind (column_index a name) (column_datatype_name D a)"

definition column_c_datatype_named :: "nat \<Rightarrow> string \<Rightarrow> int dbm" where
  "column_c_datatype_named a name = db_bind (column_index a name) (\<lambda>i. db_bind (column_at a i) (\<lambda>col. db_return (bc_ctype col)))"

definition unbind_named :: "odbc \<Rightarrow> bool \<Rightarrow> nat \<Rightarrow> string \<Rightarrow> unit dbm" where
  "unbind_named D nd a name = db_bind (column_index a name) (unbind_one D nd a)"

definition get_ref_named_optional :: "bool \<Rightarrow> nat \<Rightarrow> (int \<Rightarrow> 'a dbm) \<Rightarrow> string \<Rightarrow> 'a option dbm" where
  "get_ref_named_optional nd a getter name = db_bind (column_index a name) (\<lambda>column. db_bind (is_null nd a column) (\<lambda>b.
     if b then db_return None else db_bind (getter column) (\<lambda>x. db_return (Some x))))"

definition has_affected_rows :: "odbc \<Rightarrow> nat \<Rightarrow> bool dbm" where
  "has_affected_rows D a = db_bind (result_get a) (\<lambda>r. db_bind (affected_rows D (rs_stmt r)) (\<lambda>n. db_return (n \<noteq> -1)))"

section \<open>Dates and times\<close>

text \<open>The structures are read from memory, field after field.\<close>

record sql_date =
  dt_year :: int
  dt_month :: int
  dt_day :: int

record sql_time =
  tm_hour :: int
  tm_min :: int
  tm_sec :: int

record sql_timestamp =
  ts_year :: int
  ts_month :: int
  ts_day :: int
  ts_hour :: int
  ts_min :: int
  ts_sec :: int
  ts_fract :: int

definition int16_at :: "nat \<Rightarrow> bytes \<Rightarrow> int" where
  "int16_at i b = le_int (take 2 (drop (2 * i) b))"

definition date_of :: "bytes \<Rightarrow> sql_date" where
  "date_of b = \<lparr>dt_year = int16_at 0 b, dt_month = int16_at 1 b, dt_day = int16_at 2 b\<rparr>"

definition time_of :: "bytes \<Rightarrow> sql_time" where
  "time_of b = \<lparr>tm_hour = int16_at 0 b, tm_min = int16_at 1 b, tm_sec = int16_at 2 b\<rparr>"

definition timestamp_of :: "bytes \<Rightarrow> sql_timestamp" where
  "timestamp_of b = \<lparr>ts_year = int16_at 0 b, ts_month = int16_at 1 b, ts_day = int16_at 2 b, ts_hour = int16_at 3 b, ts_min = int16_at 4 b,
     ts_sec = int16_at 5 b, ts_fract = le_int (take 4 (drop 12 b))\<rparr>"

definition equals_date :: "sql_date \<Rightarrow> sql_date \<Rightarrow> bool" where
  "equals_date x y \<longleftrightarrow> dt_year x = dt_year y \<and> dt_month x = dt_month y \<and> dt_day x = dt_day y"

definition equals_time :: "sql_time \<Rightarrow> sql_time \<Rightarrow> bool" where
  "equals_time x y \<longleftrightarrow> tm_hour x = tm_hour y \<and> tm_min x = tm_min y \<and> tm_sec x = tm_sec y"

definition equals_timestamp :: "sql_timestamp \<Rightarrow> sql_timestamp \<Rightarrow> bool" where
  "equals_timestamp x y \<longleftrightarrow> ts_year x = ts_year y \<and> ts_month x = ts_month y \<and> ts_day x = ts_day y \<and> ts_hour x = ts_hour y \<and> ts_min x = ts_min y \<and>
     ts_sec x = ts_sec y \<and> ts_fract x = ts_fract y"

definition get_date :: "odbc \<Rightarrow> nat \<Rightarrow> int \<Rightarrow> sql_date dbm" where
  "get_date D a column = db_bind (column_at a column) (\<lambda>col.
     if bc_ctype col = sql_c_date then db_bind (ensure_pdata D a 6 sql_c_date column) (\<lambda>b. db_return (date_of b))
     else if bc_ctype col = sql_c_timestamp then db_bind (ensure_pdata D a 16 sql_c_timestamp column) (\<lambda>b. let x = timestamp_of b in
       db_return \<lparr>dt_year = ts_year x, dt_month = ts_month x, dt_day = ts_day x\<rparr>)
     else db_throw Type_incompatible_error)"

definition get_time :: "odbc \<Rightarrow> nat \<Rightarrow> int \<Rightarrow> sql_time dbm" where
  "get_time D a column = db_bind (column_at a column) (\<lambda>col.
     if bc_ctype col = sql_c_time then db_bind (ensure_pdata D a 6 sql_c_time column) (\<lambda>b. db_return (time_of b))
     else if bc_ctype col = sql_c_timestamp then db_bind (ensure_pdata D a 16 sql_c_timestamp column) (\<lambda>b. let x = timestamp_of b in
       db_return \<lparr>tm_hour = ts_hour x, tm_min = ts_min x, tm_sec = ts_sec x\<rparr>)
     else db_throw Type_incompatible_error)"

definition get_timestamp :: "odbc \<Rightarrow> nat \<Rightarrow> int \<Rightarrow> sql_timestamp dbm" where
  "get_timestamp D a column = db_bind (column_at a column) (\<lambda>col.
     if bc_ctype col = sql_c_date then db_bind (ensure_pdata D a 6 sql_c_date column) (\<lambda>b. let x = date_of b in
       db_return \<lparr>ts_year = dt_year x, ts_month = dt_month x, ts_day = dt_day x, ts_hour = 0, ts_min = 0, ts_sec = 0, ts_fract = 0\<rparr>)
     else if bc_ctype col = sql_c_timestamp then db_bind (ensure_pdata D a 16 sql_c_timestamp column) (\<lambda>b. db_return (timestamp_of b))
     else db_throw Type_incompatible_error)"

end
