(* ===== verification/Db_Rows.thy ===== *)
theory Db_Rows
  imports Db_Result
begin

text \<open>
  What a client of \<^verbatim>\<open>nanodbc::result\<close> sees: the loop over \<^verbatim>\<open>next\<close> visits every row
  once, whatever the size of a rowset; long values arrive in one piece; and where moving, binding
  and reading go wrong.
\<close>

section \<open>Definitions\<close>

fun db_map :: "('a \<Rightarrow> 'b dbm) \<Rightarrow> 'a list \<Rightarrow> 'b list dbm" where
  "db_map f [] = db_return []"
| "db_map f (x # xs) = db_bind (f x) (\<lambda>y. db_bind (db_map f xs) (\<lambda>ys. db_return (y # ys)))"

text \<open>The loop of a client, with the number of rounds it may take: \<^verbatim>\<open>while (r.next()) rows.push_back(row)\<close>.\<close>

fun while_step :: "nat \<Rightarrow> bool dbm \<Rightarrow> 'a dbm \<Rightarrow> 'a list dbm" where
  "while_step 0 step row = db_fail Db_loops"
| "while_step (Suc n) step row = db_bind step (\<lambda>b.
     if b then db_bind row (\<lambda>x. db_bind (while_step n step row) (\<lambda>xs. db_return (x # xs))) else db_return [])"

abbreviation read_rows :: "nat \<Rightarrow> odbc \<Rightarrow> bool \<Rightarrow> nat \<Rightarrow> 'a dbm \<Rightarrow> 'a list dbm" where
  "read_rows n D nd a \<equiv> while_step n (result_next D nd a 0)"

definition int_row :: "odbc \<Rightarrow> bool \<Rightarrow> nat \<Rightarrow> int option list dbm" where
  "int_row D nd a = db_bind (result_get a) (\<lambda>r. db_map (\<lambda>i. get_ref_optional nd a (get_int64 D a) (int i)) [0..<length (rs_columns r)])"

text \<open>
  What ODBC documents of fetching: a cursor over \<open>rows\<close>, each a list of cells, gives them out in
  rowsets of \<open>R\<close>, the last one shorter, and then reports that there is no more.
\<close>

definition rowset :: "nat \<Rightarrow> 'a list \<Rightarrow> nat \<Rightarrow> 'a list" where
  "rowset R rows k = take R (drop (k * R) rows)"

abbreviation fetch_next_call :: "handle \<Rightarrow> sql_call" where
  "fetch_next_call h \<equiv> Fetch_scroll h Fetch_next 0"

definition serves :: "odbc \<Rightarrow> sql_call list \<Rightarrow> handle \<Rightarrow> nat \<Rightarrow> (int \<times> bytes) list list \<Rightarrow> bool" where
  "serves D h0 st R rows \<longleftrightarrow> (\<forall>k. let h = h0 @ replicate (Suc k) (fetch_next_call st); part = rowset R rows k in
     if part = [] then od_rc D h = Sql_no_data
     else success (od_rc D h) \<and> od_rows_fetched D h = length part \<and> (\<forall>c. od_cells D h c = map (\<lambda>row. row ! c) part))"

definition decode_cell :: "int \<times> bytes \<Rightarrow> int option" where
  "decode_cell x = (if fst x = sql_null_data then None else Some (le_int (take 8 (snd x))))"

text \<open>
  Columns with buffers for \<open>R\<close> rows. The bindings \<open>bs\<close> of a result are the C types of its columns and the lengths
  of their cells.
\<close>

definition column_ready :: "nat \<Rightarrow> bound_column \<Rightarrow> bool" where
  "column_ready R col \<longleftrightarrow> bc_bound col \<and> \<not> bc_blob col \<and> (\<exists>xs. bc_cbdata col = Some xs \<and> length xs = R) \<and> (\<exists>ys. bc_pdata col = Some ys \<and> length ys = R)"

definition cursor_ready :: "nat \<Rightarrow> sql_call list \<Rightarrow> handle \<Rightarrow> nat \<Rightarrow> (int \<times> nat) list \<Rightarrow> nat \<Rightarrow> db \<Rightarrow> result_impl \<Rightarrow> bool" where
  "cursor_ready a h0 st R bs k s r \<longleftrightarrow> db_results s a = Some r \<and> rs_rowset_size r = int R \<and> map bc_ctype (rs_columns r) = map fst bs \<and>
     map bc_column (rs_columns r) = [0..<length bs] \<and> (\<forall>col \<in> set (rs_columns r). column_ready R col) \<and> db_calls s = h0 @ replicate k (fetch_next_call st) \<and>
     (\<exists>t. db_stmts s (rs_stmt r) = Some t \<and> st_stmt t = st \<and> \<not> st_async_enabled t)"

text \<open>The cursor is at row \<open>i\<close>.\<close>

definition at_row :: "nat \<Rightarrow> sql_call list \<Rightarrow> handle \<Rightarrow> nat \<Rightarrow> (int \<times> bytes) list list \<Rightarrow> (int \<times> nat) list \<Rightarrow> nat \<Rightarrow> db \<Rightarrow> bool" where
  "at_row a h0 st R rows bs i s \<longleftrightarrow> (\<exists>r. cursor_ready a h0 st R bs (Suc (i div R)) s r \<and> rs_position r = int (i mod R) \<and>
     rs_row_count r = length (rowset R rows (i div R)) \<and>
     (\<forall>c < length bs. \<forall>j < length (rowset R rows (i div R)). the (bc_cbdata (rs_columns r ! c)) ! j = fst (rowset R rows (i div R) ! j ! c) \<and>
        the (bc_pdata (rs_columns r ! c)) ! j = snd (rowset R rows (i div R) ! j ! c)))"

text \<open>The cursor is past the last row.\<close>

definition after_rows :: "nat \<Rightarrow> sql_call list \<Rightarrow> handle \<Rightarrow> nat \<Rightarrow> (int \<times> nat) list \<Rightarrow> db \<Rightarrow> bool" where
  "after_rows a h0 st R bs s \<longleftrightarrow> (\<exists>k r. cursor_ready a h0 st R bs k s r)"

text \<open>Creating a result: the calls it makes, and a driver that has such columns. Whole numbers are bound as 64-bit integers.\<close>

definition bind_calls :: "handle \<Rightarrow> nat \<Rightarrow> nat \<Rightarrow> (int \<times> nat) list \<Rightarrow> sql_call list" where
  "bind_calls st a R bs = [Set_stmt_attr st Attr_row_array_size (int R), Set_stmt_attr st Attr_rows_fetched_ptr (int a), Num_result_cols st] @
     map (\<lambda>i. Describe_col st (int i + 1)) [0..<length bs] @ map (\<lambda>i. Bind_col st (int i + 1) (fst (bs ! i)) True (snd (bs ! i))) [0..<length bs]"

definition result_driver :: "odbc \<Rightarrow> handle \<Rightarrow> (int \<times> nat) list \<Rightarrow> bool" where
  "result_driver D st bs \<longleftrightarrow> (\<forall>c. (\<forall>k i. c \<noteq> Fetch_scroll st k i) \<longrightarrow> accepts D c) \<and> (\<forall>h. od_number D (h @ [Num_result_cols st]) = int (length bs)) \<and>
     (\<forall>h. \<forall>i < length bs. let d = od_column D (h @ [Describe_col st (int i + 1)]) in column_binding (cd_sqltype d) (cd_size d) = (fst (bs ! i), snd (bs ! i), False))"

abbreviation int_bindings :: "nat \<Rightarrow> (int \<times> nat) list" where
  "int_bindings n \<equiv> replicate n (sql_c_sbigint, 8)"

text \<open>
  What ODBC documents of \<^verbatim>\<open>SQLGetData\<close> on long text: a buffer of 1024 bytes gets 1023 and a terminator; while
  more is left the call says so and reports what is left, or that the total is not known.
\<close>

definition serves_value :: "odbc \<Rightarrow> sql_call list \<Rightarrow> sql_call \<Rightarrow> bytes \<Rightarrow> bool" where
  "serves_value D h0 c data \<longleftrightarrow> (\<forall>k. let rest = drop (1023 * k) data; h = h0 @ replicate (Suc k) c in
     take (length rest) (take 1023 (snd (od_piece D h))) = take 1023 rest \<and>
     (if length rest > 1023 then od_rc D h = Sql_success_with_info \<and> fst (od_piece D h) \<in> {int (length rest), sql_no_total}
      else od_rc D h = Sql_success \<and> fst (od_piece D h) = int (length rest)))"

section \<open>Lemmas\<close>

lemma run_set_position [simp]: "db_results s a = Some r \<Longrightarrow> long_min \<le> p \<Longrightarrow> p \<le> long_max \<Longrightarrow>
    set_position a p s = (s\<lparr>db_results := (db_results s)(a \<mapsto> r\<lparr>rs_position := p\<rparr>)\<rparr>, Inr ())"
  by (simp add: set_position_def)

lemma long_bounds [simp]: "long_min \<le> 0" "0 \<le> long_max"
  by (simp_all add: long_min_def long_max_def)

lemma run_rows_in [simp]: "db_results s a = Some r \<Longrightarrow> int (rs_row_count r) \<le> long_max \<Longrightarrow> rows_in nd a s = (s, Inr (int (rs_row_count r)))"
  by (simp add: rows_in_def)

lemma column_ready_clear: "column_ready R col \<Longrightarrow> column_ready R (clear_column R col)"
  by (auto simp: column_ready_def clear_column_def Let_def)

lemma column_ready_write: "column_ready R col \<Longrightarrow> column_ready R (write_cells cells col)"
  by (auto simp: column_ready_def write_cells_def)

lemma write_cells_nth:
  assumes "column_ready R col" and "length cells \<le> R" and "j < length cells"
  shows "the (bc_cbdata (write_cells cells col)) ! j = fst (cells ! j)" "the (bc_pdata (write_cells cells col)) ! j = snd (cells ! j)"
  using assms by (auto simp: column_ready_def write_cells_def nth_append)

lemma rowset_Nil: "rowset R rows k = [] \<longleftrightarrow> R = 0 \<or> length rows \<le> k * R"
  by (auto simp: rowset_def)

lemma rowset_nth: "j < length (rowset R rows k) \<Longrightarrow> rowset R rows k ! j = rows ! (k * R + j)"
  by (auto simp: rowset_def intro!: nth_drop)

lemma length_rowset: "length (rowset R rows k) = min R (length rows - k * R)"
  by (simp add: rowset_def)

text \<open>Fetching changes neither the types nor the numbers of the columns.\<close>

lemma fetched_types:
  "map bc_ctype (rs_columns (fetched D h (r\<lparr>rs_position := p, rs_columns := map (clear_column R) cols\<rparr>))) = map bc_ctype cols"
  "map bc_column (rs_columns (fetched D h (r\<lparr>rs_position := p, rs_columns := map (clear_column R) cols\<rparr>))) = map bc_column cols"
proof -
  have keep: "bc_ctype (write_cells cells (clear_column R col)) = bc_ctype col" "bc_column (write_cells cells (clear_column R col)) = bc_column col" for cells col
    by (simp_all add: write_cells_def clear_column_def Let_def)
  show "map bc_ctype (rs_columns (fetched D h (r\<lparr>rs_position := p, rs_columns := map (clear_column R) cols\<rparr>))) = map bc_ctype cols"
    "map bc_column (rs_columns (fetched D h (r\<lparr>rs_position := p, rs_columns := map (clear_column R) cols\<rparr>))) = map bc_column cols"
    by (rule nth_equalityI; simp add: fetched_def keep)+
qed

text \<open>Fetching the next rowset.\<close>

lemma refetch:
  assumes "serves D h0 st R rows" and "R > 0" and "cursor_ready a h0 st R bs k s r"
  shows "\<exists>s'. db_then (set_position a 0) (fetch D a 0 Fetch_next 0) s = (s', Inr (rowset R rows k \<noteq> [])) \<and>
    (if rowset R rows k \<noteq> [] then at_row a h0 st R rows bs (k * R) s' else after_rows a h0 st R bs s')"
proof -
  let ?h = "h0 @ replicate (Suc k) (fetch_next_call st)" and ?part = "rowset R rows k"
  let ?r1 = "r\<lparr>rs_position := 0, rs_columns := map (clear_column R) (rs_columns r)\<rparr>"
  let ?s2 = "s\<lparr>db_calls := ?h, db_results := (db_results s)(a \<mapsto> fetched D ?h ?r1)\<rparr>"
  obtain t where r: "db_results s a = Some r" "rs_rowset_size r = int R" "length (rs_columns r) = length bs" "\<And>col. col \<in> set (rs_columns r) \<Longrightarrow> column_ready R col"
    "db_calls s = h0 @ replicate k (fetch_next_call st)" "db_stmts s (rs_stmt r) = Some t" "st_stmt t = st" "\<not> st_async_enabled t"
    using assms(3) by (auto simp: cursor_ready_def dest: map_eq_imp_length_eq)
  have no_null: "\<not> list_ex (\<lambda>col. bc_cbdata col = None) (rs_columns r)" using r(4) by (auto simp: list_ex_iff column_ready_def)
  have calls: "db_calls s @ [fetch_next_call st] = ?h" using r(5) by (simp add: replicate_append_same)
  have run: "db_then (set_position a 0) (fetch D a 0 Fetch_next 0) s =
      (if od_rc D ?h = Sql_no_data then (?s2\<lparr>db_results := (db_results s)(a \<mapsto> (fetched D ?h ?r1)\<lparr>rs_at_end := True\<rparr>)\<rparr>, Inr False)
       else if \<not> success (od_rc D ?h) then (?s2, Inl (Db_throw (Database_error st Handle_stmt))) else (?s2, Inr True))"
    using r(1,2,6-8) no_null calls by (simp add: fetch_def before_move_def use_event_def)
  have ready: "cursor_ready a h0 st R bs (Suc k) ?s2 (fetched D ?h ?r1)"
    using assms(3) r unfolding cursor_ready_def fetched_types by (auto simp: fetched_def intro!: column_ready_write column_ready_clear)
  show ?thesis
  proof (cases "?part = []")
    case True
    then have "od_rc D ?h = Sql_no_data" using assms(1) by (simp add: serves_def Let_def)
    moreover have "after_rows a h0 st R bs (?s2\<lparr>db_results := (db_results s)(a \<mapsto> (fetched D ?h ?r1)\<lparr>rs_at_end := True\<rparr>)\<rparr>)"
      using ready unfolding after_rows_def cursor_ready_def by (intro exI [of _ "Suc k"] exI [of _ "(fetched D ?h ?r1)\<lparr>rs_at_end := True\<rparr>"]) auto
    ultimately show ?thesis using run True by simp
  next
    case False
    have D: "success (od_rc D ?h)" "od_rows_fetched D ?h = length ?part" "\<And>c. od_cells D ?h c = map (\<lambda>row. row ! c) ?part"
      using assms(1) False by (auto simp: serves_def Let_def)
    have cells: "the (bc_cbdata (rs_columns (fetched D ?h ?r1) ! c)) ! j = fst (?part ! j ! c)"
      "the (bc_pdata (rs_columns (fetched D ?h ?r1) ! c)) ! j = snd (?part ! j ! c)" if "c < length bs" "j < length ?part" for c j
    proof -
      have "column_ready R (clear_column R (rs_columns r ! c))" using r(3,4) that(1) by (simp add: column_ready_clear)
      moreover have "length (map (\<lambda>row. row ! c) ?part) \<le> R" by (simp add: length_rowset)
      ultimately show "the (bc_cbdata (rs_columns (fetched D ?h ?r1) ! c)) ! j = fst (?part ! j ! c)"
        "the (bc_pdata (rs_columns (fetched D ?h ?r1) ! c)) ! j = snd (?part ! j ! c)"
        using write_cells_nth [of R "clear_column R (rs_columns r ! c)" "map (\<lambda>row. row ! c) ?part" j] that r(3) D(3) by (simp_all add: fetched_def)
    qed
    have "at_row a h0 st R rows bs (k * R) ?s2"
      using ready assms(2) D(2) cells by (auto simp: at_row_def fetched_def intro!: exI [of _ "fetched D ?h ?r1"])
    moreover have "od_rc D ?h \<noteq> Sql_no_data" using D(1) by auto
    ultimately show ?thesis using run D(1) False by simp
  qed
qed

text \<open>One step of the cursor, within a rowset or to the next one.\<close>

lemma next_step:
  assumes "serves D h0 st R rows" and "R > 0" and "int R \<le> long_max" and "at_row a h0 st R rows bs i s" and "i < length rows"
  shows "\<exists>s'. result_next D nd a 0 s = (s', Inr (Suc i < length rows)) \<and>
    (if Suc i < length rows then at_row a h0 st R rows bs (Suc i) s' else after_rows a h0 st R bs s')"
proof -
  let ?k = "i div R"
  obtain r where r: "cursor_ready a h0 st R bs (Suc ?k) s r" "rs_position r = int (i mod R)" "rs_row_count r = length (rowset R rows ?k)"
    and cells: "\<And>c j. c < length bs \<Longrightarrow> j < length (rowset R rows ?k) \<Longrightarrow> the (bc_cbdata (rs_columns r ! c)) ! j = fst (rowset R rows ?k ! j ! c) \<and>
        the (bc_pdata (rs_columns r ! c)) ! j = snd (rowset R rows ?k ! j ! c)"
    using assms(4) by (auto simp: at_row_def)
  have obj: "db_results s a = Some r" "rs_rowset_size r = int R" using r(1) by (auto simp: cursor_ready_def)
  have some: "rowset R rows ?k \<noteq> []" using assms(2,5) by (simp add: rowset_Nil not_le) (metis div_times_less_eq_dividend order.strict_trans1)
  have small: "int (rs_row_count r) \<le> long_max" using r(3) assms(3) by (simp add: length_rowset)
  have le: "i mod R < R" using assms(2) by simp
  have "int (i mod R) + 1 \<le> int R" using le by linarith
  then have pos: "long_min \<le> int (i mod R) + 1" "int (i mod R) + 1 \<le> long_max" using assms(3) by (simp_all add: long_min_def)
  let ?s1 = "s\<lparr>db_results := (db_results s)(a \<mapsto> r\<lparr>rs_position := int (i mod R) + 1\<rparr>)\<rparr>"
  have set1: "set_position a (rs_position r + 1) s = (?s1, Inr ())" using obj r(2) pos by simp
  show ?thesis
  proof (cases "Suc (i mod R) < R")
    case True
    have dm: "Suc i div R = ?k" "Suc i mod R = Suc (i mod R)" using True by (simp_all add: div_Suc mod_Suc)
    have "i = ?k * R + i mod R" by simp
    then have "Suc (i mod R) < length rows - ?k * R \<longleftrightarrow> Suc i < length rows" by linarith
    then have "Suc (i mod R) < length (rowset R rows ?k) \<longleftrightarrow> Suc i < length rows" using True by (simp add: length_rowset)
    then have "result_next D nd a 0 s = (?s1, Inr (Suc i < length rows))"
      using obj r(2,3) some small set1 True by (auto simp: result_next_def Let_def)
    moreover have "at_row a h0 st R rows bs (Suc i) ?s1"
      unfolding at_row_def dm using r cells
      by (intro exI [of _ "r\<lparr>rs_position := int (i mod R) + 1\<rparr>"]) (auto simp: cursor_ready_def)
    moreover from this have "after_rows a h0 st R bs ?s1" by (auto simp: at_row_def after_rows_def)
    ultimately show ?thesis by auto
  next
    case False
    then have dm: "Suc i = Suc ?k * R" using le by (metis Suc_lessI add_Suc_right add.commute div_mult_mod_eq mult_Suc)
    have "cursor_ready a h0 st R bs (Suc ?k) ?s1 (r\<lparr>rs_position := int (i mod R) + 1\<rparr>)"
      using r(1) by (auto simp: cursor_ready_def)
    then obtain s' where "db_then (set_position a 0) (fetch D a 0 Fetch_next 0) ?s1 = (s', Inr (rowset R rows (Suc ?k) \<noteq> []))"
      "if rowset R rows (Suc ?k) \<noteq> [] then at_row a h0 st R rows bs (Suc ?k * R) s' else after_rows a h0 st R bs s'" using refetch [OF assms(1,2)] by blast
    moreover have "result_next D nd a 0 s = db_then (set_position a 0) (fetch D a 0 Fetch_next 0) ?s1"
      using obj r(2,3) some small set1 False by (simp add: result_next_def Let_def)
    moreover have "rowset R rows (Suc ?k) \<noteq> [] \<longleftrightarrow> Suc i < length rows" using assms(2) dm by (auto simp: rowset_Nil)
    ultimately show ?thesis using dm by auto
  qed
qed

text \<open>Reading the row the cursor is at.\<close>

lemma cell_here:
  assumes "at_row a h0 st R rows bs i s" and "i < length rows" and "R > 0" and "int R \<le> long_max" and "c < length bs"
  obtains r col xs ys p where "db_results s a = Some r" "c < length (rs_columns r)" "rs_columns r ! c = col" "bc_bound col" "bc_ctype col = fst (bs ! c)"
    "bc_column col = c" "bc_cbdata col = Some xs" "bc_pdata col = Some ys" "rs_position r = int p" "p < length xs" "p < length ys"
    "xs ! p = fst (rows ! i ! c)" "ys ! p = snd (rows ! i ! c)" "\<And>nd. is_null nd a (int c) s = (s, Inr (fst (rows ! i ! c) = sql_null_data))"
proof -
  let ?k = "i div R" and ?j = "i mod R"
  obtain r where r: "cursor_ready a h0 st R bs (Suc ?k) s r" "rs_position r = int ?j" "rs_row_count r = length (rowset R rows ?k)"
    and cells: "\<And>c j. c < length bs \<Longrightarrow> j < length (rowset R rows ?k) \<Longrightarrow> the (bc_cbdata (rs_columns r ! c)) ! j = fst (rowset R rows ?k ! j ! c) \<and>
        the (bc_pdata (rs_columns r ! c)) ! j = snd (rowset R rows ?k ! j ! c)"
    using assms(1) by (auto simp: at_row_def)
  have split: "?k * R + ?j = i" by simp
  have j: "?j < length (rowset R rows ?k)" using assms(2,3) split by (simp add: length_rowset less_diff_conv)
  have row: "rowset R rows ?k ! ?j = rows ! i" using rowset_nth [OF j] split by simp
  have types: "map bc_ctype (rs_columns r) = map fst bs" "map bc_column (rs_columns r) = [0..<length bs]" using r(1) by (auto simp: cursor_ready_def)
  have len: "length (rs_columns r) = length bs" using map_eq_imp_length_eq [OF types(1)] .
  have obj: "db_results s a = Some r" "column_ready R (rs_columns r ! c)" using r(1) assms(5) len by (auto simp: cursor_ready_def)
  have ty: "bc_ctype (rs_columns r ! c) = fst (bs ! c)" "bc_column (rs_columns r ! c) = c"
    using arg_cong [OF types(1), of "\<lambda>xs. xs ! c"] arg_cong [OF types(2), of "\<lambda>xs. xs ! c"] assms(5) len by simp_all
  obtain xs ys where b: "bc_bound (rs_columns r ! c)" "bc_cbdata (rs_columns r ! c) = Some xs" "length xs = R"
    "bc_pdata (rs_columns r ! c) = Some ys" "length ys = R" using obj(2) by (auto simp: column_ready_def)
  have vals: "xs ! ?j = fst (rows ! i ! c)" "ys ! ?j = snd (rows ! i ! c)" using cells [OF assms(5) j] b row by simp_all
  have small: "int (rs_row_count r) \<le> long_max" using r(3) assms(4) by (simp add: length_rowset)
  have le: "?j < R" using assms(3) by simp
  have range: "throw_if_column_is_out_of_range a (int c) s = (s, Inr ())" and col: "column_at a (int c) s = (s, Inr (rs_columns r ! c))"
    using obj len assms(5) by (simp_all add: throw_if_column_is_out_of_range_def column_at_def)
  have pos: "\<not> rs_position r \<ge> int (rs_row_count r)" "0 \<le> rs_position r" "rs_position r < int R" "nat (rs_position r) = ?j"
    using r(2,3) j le by simp_all
  have null: "is_null nd a (int c) s = (s, Inr (fst (rows ! i ! c) = sql_null_data))" for nd
    using range col small pos b(2,3) obj(1) vals(1) by (simp add: is_null_def at_position_def)
  have "c < length (rs_columns r)" "?j < length xs" "?j < length ys" using len assms(5) le b(3,5) by simp_all
  from that [OF obj(1) this(1) refl b(1) ty b(2,4) r(2) this(2,3) vals null] show ?thesis .
qed

lemma read_cell:
  assumes "at_row a h0 st R rows bs i s" and "i < length rows" and "R > 0" and "int R \<le> long_max" and "c < length bs" and "8 \<le> length (snd (rows ! i ! c))"
  shows "get_ref_optional nd a (get_int64 D a) (int c) s = (s, Inr (decode_cell (rows ! i ! c)))"
proof (rule cell_here [OF assms(1-5)])
  fix r col xs ys p
  assume h: "db_results s a = Some r" "c < length (rs_columns r)" "rs_columns r ! c = col" "bc_bound col" "bc_pdata col = Some ys" "rs_position r = int p"
    "p < length ys" "ys ! p = snd (rows ! i ! c)" "\<And>nd. is_null nd a (int c) s = (s, Inr (fst (rows ! i ! c) = sql_null_data))"
  then show ?thesis using assms(6)
    by (simp add: get_ref_optional_def decode_cell_def get_int64_def ensure_pdata_def is_bound_def at_position_def take_bytes_def
        throw_if_column_is_out_of_range_def column_at_def)
qed

lemma read_cells:
  assumes "\<And>c. c \<in> set cs \<Longrightarrow> f c s = (s, Inr (g c))"
  shows "db_map f cs s = (s, Inr (map g cs))"
  using assms by (induction cs) simp_all

lemma read_row:
  assumes "at_row a h0 st R rows bs i s" and "i < length rows" and "R > 0" and "int R \<le> long_max"
    and "\<And>row cell. row \<in> set rows \<Longrightarrow> length row = length bs \<and> (cell \<in> set row \<longrightarrow> 8 \<le> length (snd cell))"
  shows "int_row D nd a s = (s, Inr (map decode_cell (rows ! i)))"
proof -
  obtain r where r: "db_results s a = Some r" "length (rs_columns r) = length bs"
    using assms(1) by (auto simp: at_row_def cursor_ready_def dest: map_eq_imp_length_eq)
  have mem: "rows ! i \<in> set rows" using assms(2) by simp
  have row: "length (rows ! i) = length bs" "\<And>c. c < length bs \<Longrightarrow> 8 \<le> length (snd (rows ! i ! c))" using assms(5) [OF mem] by auto
  have "db_map (\<lambda>c. get_ref_optional nd a (get_int64 D a) (int c)) [0..<length bs] s = (s, Inr (map (\<lambda>c. decode_cell (rows ! i ! c)) [0..<length bs]))"
    by (rule read_cells) (use read_cell [OF assms(1-4)] row(2) in simp)
  moreover have "map (\<lambda>c. decode_cell (rows ! i ! c)) [0..<length bs] = map decode_cell (rows ! i)" by (rule nth_equalityI) (simp_all add: row(1))
  ultimately show ?thesis using r by (simp add: int_row_def)
qed

section \<open>Loops over a cursor\<close>

text \<open>
  What a loop relies on: from the start, each step tells whether there is one more row, and at a row
  it can be read without moving.
\<close>

locale cursor =
  fixes step :: "bool dbm" and row :: "'a dbm" and start :: "db \<Rightarrow> bool" and at :: "nat \<Rightarrow> db \<Rightarrow> bool" and past :: "db \<Rightarrow> bool" and rows :: "'a list"
  assumes first_row: "start s \<Longrightarrow> \<exists>s'. step s = (s', Inr (rows \<noteq> [])) \<and> (if rows \<noteq> [] then at 0 s' else past s')"
    and next_row: "at i s \<Longrightarrow> i < length rows \<Longrightarrow> \<exists>s'. step s = (s', Inr (Suc i < length rows)) \<and> (if Suc i < length rows then at (Suc i) s' else past s')"
    and row_here: "at i s \<Longrightarrow> i < length rows \<Longrightarrow> row s = (s, Inr (rows ! i))"
begin

lemma loop_from:
  assumes "at i s" and "i < length rows" and "length rows - i \<le> fuel"
  shows "\<exists>s'. while_step fuel step row s = (s', Inr (drop (Suc i) rows)) \<and> past s'"
  using assms
proof (induction fuel arbitrary: i s)
  case (Suc fuel)
  obtain s1 where s1: "step s = (s1, Inr (Suc i < length rows))" "if Suc i < length rows then at (Suc i) s1 else past s1" using next_row [OF Suc.prems(1,2)] by blast
  show ?case
  proof (cases "Suc i < length rows")
    case True
    obtain s' where "while_step fuel step row s1 = (s', Inr (drop (Suc (Suc i)) rows)) \<and> past s'" using Suc.IH [of "Suc i" s1] True s1(2) Suc.prems(3) by fastforce
    then show ?thesis using s1 True row_here [OF _ True] by (simp add: Cons_nth_drop_Suc [symmetric])
  qed (use s1 in simp)
qed simp

theorem loop_reads_all:
  assumes "start s" and "length rows < fuel"
  shows "\<exists>s'. while_step fuel step row s = (s', Inr rows) \<and> past s'"
proof -
  obtain m where m: "fuel = Suc m" "length rows \<le> m" using assms(2) by (cases fuel) auto
  obtain s1 where s1: "step s = (s1, Inr (rows \<noteq> []))" "if rows \<noteq> [] then at 0 s1 else past s1" using first_row [OF assms(1)] by blast
  show ?thesis
  proof (cases "rows = []")
    case True
    then show ?thesis using s1 m(1) by simp
  next
    case False
    then have at0: "at 0 s1" "0 < length rows" using s1(2) by auto
    obtain s' where "while_step m step row s1 = (s', Inr (drop (Suc 0) rows)) \<and> past s'" using loop_from [OF at0] m(2) by auto
    then show ?thesis using s1(1) False m(1) row_here [OF at0] by (cases rows) simp_all
  qed
qed

end

text \<open>A result is a cursor, over the rows its driver serves; here with whole numbers read from it.\<close>

definition served :: "odbc \<Rightarrow> sql_call list \<Rightarrow> handle \<Rightarrow> nat \<Rightarrow> (int \<times> bytes) list list \<Rightarrow> bool" where
  "served D h0 st R rows \<longleftrightarrow> serves D h0 st R rows \<and> R > 0 \<and> int R \<le> long_max"

definition before_rows :: "nat \<Rightarrow> sql_call list \<Rightarrow> handle \<Rightarrow> nat \<Rightarrow> (int \<times> nat) list \<Rightarrow> db \<Rightarrow> bool" where
  "before_rows a h0 st R bs s \<longleftrightarrow> (\<exists>r. cursor_ready a h0 st R bs 0 s r \<and> rs_row_count r = 0)"

definition int_cells :: "nat \<Rightarrow> (int \<times> bytes) list list \<Rightarrow> bool" where
  "int_cells n rows \<longleftrightarrow> (\<forall>row \<in> set rows. length row = n \<and> (\<forall>cell \<in> set row. 8 \<le> length (snd cell)))"

lemma first_step:
  assumes "served D h0 st R rows" and "before_rows a h0 st R bs s"
  shows "\<exists>s'. result_next D nd a 0 s = (s', Inr (rows \<noteq> [])) \<and> (if rows \<noteq> [] then at_row a h0 st R rows bs 0 s' else after_rows a h0 st R bs s')"
proof -
  obtain r where r: "cursor_ready a h0 st R bs 0 s r" "rs_row_count r = 0" using assms(2) by (auto simp: before_rows_def)
  then have "db_results s a = Some r" by (simp add: cursor_ready_def)
  then have "result_next D nd a 0 s = db_then (set_position a 0) (fetch D a 0 Fetch_next 0) s" using r(2) by (simp add: result_next_def Let_def)
  moreover have "rowset R rows 0 \<noteq> [] \<longleftrightarrow> rows \<noteq> []" using assms(1) by (auto simp: served_def rowset_Nil)
  ultimately show ?thesis using refetch [of D h0 st R rows a bs 0 s r] assms(1) r(1) by (auto simp: served_def)
qed

text \<open>What is read from a row is a function of its cells, for cells that are fit to be read.\<close>

locale served_result =
  fixes D :: odbc and nd :: bool and a :: nat and h0 :: "sql_call list" and st :: handle and R :: nat
    and cells :: "(int \<times> bytes) list list" and bs :: "(int \<times> nat) list" and row :: "'a dbm" and read :: "(int \<times> bytes) list \<Rightarrow> 'a" and fit :: bool
  assumes row_read: "fit \<Longrightarrow> served D h0 st R cells \<Longrightarrow> at_row a h0 st R cells bs i s \<Longrightarrow> i < length cells \<Longrightarrow> row s = (s, Inr (read (cells ! i)))"

sublocale served_result \<subseteq> cursor "result_next D nd a 0" row "\<lambda>s. fit \<and> served D h0 st R cells \<and> before_rows a h0 st R bs s"
  "\<lambda>i s. fit \<and> served D h0 st R cells \<and> at_row a h0 st R cells bs i s" "after_rows a h0 st R bs" "map read cells"
proof unfold_locales
  fix s assume "fit \<and> served D h0 st R cells \<and> before_rows a h0 st R bs s"
  then show "\<exists>s'. result_next D nd a 0 s = (s', Inr (map read cells \<noteq> [])) \<and>
      (if map read cells \<noteq> [] then fit \<and> served D h0 st R cells \<and> at_row a h0 st R cells bs 0 s' else after_rows a h0 st R bs s')"
    using first_step [of D h0 st R cells a bs s nd] by (cases "cells = []") auto
next
  fix i s assume "fit \<and> served D h0 st R cells \<and> at_row a h0 st R cells bs i s" "i < length (map read cells)"
  then show "\<exists>s'. result_next D nd a 0 s = (s', Inr (Suc i < length (map read cells))) \<and>
      (if Suc i < length (map read cells) then fit \<and> served D h0 st R cells \<and> at_row a h0 st R cells bs (Suc i) s' else after_rows a h0 st R bs s')"
    using next_step [of D h0 st R cells a bs i s nd] by (cases "Suc i < length cells") (auto simp: served_def)
next
  fix i s assume "fit \<and> served D h0 st R cells \<and> at_row a h0 st R cells bs i s" "i < length (map read cells)"
  then show "row s = (s, Inr (map read cells ! i))" using row_read by simp
qed

interpretation int_rows: served_result D nd a h0 st R cells bs "int_row D nd a" "map decode_cell" "int_cells (length bs) cells"
  for D nd a h0 st R cells bs
  by unfold_locales (use read_row in \<open>simp add: served_def int_cells_def\<close>)

lemma int_rows_read:
  assumes "int_cells (length bs) cells" and "served D h0 st R cells" and "before_rows a h0 st R bs s" and "length cells < fuel"
  shows "\<exists>s'. read_rows fuel D nd a (int_row D nd a) s = (s', Inr (map (map decode_cell) cells)) \<and> after_rows a h0 st R bs s'"
  using assms by (intro int_rows.loop_reads_all) simp_all

lemma db_each_upto:
  assumes "\<And>i s. i < n \<Longrightarrow> I i s \<Longrightarrow> \<exists>s'. f i s = (s', Inr ()) \<and> I (Suc i) s'" and "I 0 s"
  shows "\<exists>s'. db_each f [0..<n] s = (s', Inr ()) \<and> I n s'"
proof -
  have "I m s \<Longrightarrow> m + k = n \<Longrightarrow> \<exists>s'. db_each f [m..<n] s = (s', Inr ()) \<and> I n s'" for m k s
  proof (induction k arbitrary: m s)
    case (Suc k)
    obtain s1 where "f m s = (s1, Inr ())" "I (Suc m) s1" using assms(1) [of m s] Suc.prems by auto
    then show ?case using Suc.IH [of "Suc m" s1] Suc.prems(2) by (simp add: upt_conv_Cons)
  qed simp
  then show ?thesis using assms(2) by auto
qed

text \<open>The state of a result while its columns are bound: \<open>d\<close> of them described, \<open>b\<close> bound.\<close>

definition binding_at :: "nat \<Rightarrow> nat \<Rightarrow> handle \<Rightarrow> nat \<Rightarrow> (int \<times> nat) list \<Rightarrow> sql_call list \<Rightarrow> nat \<Rightarrow> nat \<Rightarrow> db \<Rightarrow> bool" where
  "binding_at a sa st R bs h d b s \<longleftrightarrow> (\<exists>r t. db_results s a = Some r \<and> rs_stmt r = sa \<and> rs_rowset_size r = int R \<and> rs_row_count r = 0 \<and> length (rs_columns r) = length bs \<and>
     db_stmts s sa = Some t \<and> st_stmt t = st \<and> \<not> st_async_enabled t \<and>
     db_calls s = h @ map (\<lambda>i. Describe_col st (int i + 1)) [0..<d] @ map (\<lambda>i. Bind_col st (int i + 1) (fst (bs ! i)) True (snd (bs ! i))) [0..<b] \<and>
     (\<forall>i < length bs. i < d \<longrightarrow> bc_column (rs_columns r ! i) = i \<and> bc_ctype (rs_columns r ! i) = fst (bs ! i) \<and> bc_clen (rs_columns r ! i) = snd (bs ! i) \<and> \<not> bc_blob (rs_columns r ! i)) \<and>
     (\<forall>i < b. column_ready R (rs_columns r ! i)))"

lemma binding_describe:
  assumes "result_driver D st bs" and "d < length bs" and "binding_at a sa st R bs h d 0 s"
  shows "\<exists>s'. describe_column D a d s = (s', Inr ()) \<and> binding_at a sa st R bs h (Suc d) 0 s'"
proof -
  obtain r t where r: "db_results s a = Some r" "rs_stmt r = sa" "rs_rowset_size r = int R" "rs_row_count r = 0" "length (rs_columns r) = length bs"
    "db_stmts s sa = Some t" "st_stmt t = st" "\<not> st_async_enabled t" "db_calls s = h @ map (\<lambda>i. Describe_col st (int i + 1)) [0..<d]"
    "\<And>i. i < d \<Longrightarrow> bc_column (rs_columns r ! i) = i \<and> bc_ctype (rs_columns r ! i) = fst (bs ! i) \<and> bc_clen (rs_columns r ! i) = snd (bs ! i) \<and> \<not> bc_blob (rs_columns r ! i)"
    using assms(2,3) by (auto simp: binding_at_def)
  let ?c = "Describe_col st (int d + 1)" let ?des = "od_column D (db_calls s @ [?c])" let ?name = "take 1023 (cd_name ?des)"
  let ?r1 = "r\<lparr>rs_columns := (rs_columns r)[d := (rs_columns r ! d)\<lparr>bc_name := ?name, bc_column := d, bc_sqltype := cd_sqltype ?des, bc_sqlsize := cd_size ?des,
      bc_scale := cd_scale ?des, bc_ctype := fst (bs ! d), bc_clen := snd (bs ! d), bc_blob := False\<rparr>], rs_by_name := (rs_by_name r)(?name \<mapsto> d)\<rparr>"
  have D: "success (od_rc D (db_calls s @ [?c]))" "column_binding (cd_sqltype ?des) (cd_size ?des) = (fst (bs ! d), snd (bs ! d), False)"
    using assms(1,2) by (simp_all add: result_driver_def accepts_def Let_def)
  have "describe_column D a d s = (s\<lparr>db_calls := db_calls s @ [?c], db_results := (db_results s)(a \<mapsto> ?r1)\<rparr>, Inr ())"
    using r(1,2,6,7) D by (simp add: describe_column_def result_stmt_ok_def put_column_def Let_def)
  moreover have "binding_at a sa st R bs h (Suc d) 0 (s\<lparr>db_calls := db_calls s @ [?c], db_results := (db_results s)(a \<mapsto> ?r1)\<rparr>)"
    unfolding binding_at_def
    by (intro exI [of _ ?r1] exI [of _ t]) (use r assms(2) in \<open>simp add: nth_list_update less_Suc_eq\<close>)
  ultimately show ?thesis by blast
qed

lemma binding_bind:
  assumes "result_driver D st bs" and "b < length bs" and "binding_at a sa st R bs h (length bs) b s"
  shows "\<exists>s'. allocate_column D nd a b s = (s', Inr ()) \<and> binding_at a sa st R bs h (length bs) (Suc b) s'"
proof -
  obtain r t where r: "db_results s a = Some r" "rs_stmt r = sa" "rs_rowset_size r = int R" "rs_row_count r = 0" "length (rs_columns r) = length bs"
    "db_stmts s sa = Some t" "st_stmt t = st" "\<not> st_async_enabled t"
    "db_calls s = h @ map (\<lambda>i. Describe_col st (int i + 1)) [0..<length bs] @ map (\<lambda>i. Bind_col st (int i + 1) (fst (bs ! i)) True (snd (bs ! i))) [0..<b]"
    "\<And>i. i < length bs \<Longrightarrow> bc_column (rs_columns r ! i) = i \<and> bc_ctype (rs_columns r ! i) = fst (bs ! i) \<and> bc_clen (rs_columns r ! i) = snd (bs ! i) \<and> \<not> bc_blob (rs_columns r ! i)"
    "\<And>i. i < b \<Longrightarrow> column_ready R (rs_columns r ! i)"
    using assms(3) by (auto simp: binding_at_def)
  let ?c = "Bind_col st (int b + 1) (fst (bs ! b)) True (snd (bs ! b))"
  let ?col = "(rs_columns r ! b)\<lparr>bc_cbdata := Some (replicate R 0), bc_pdata := Some (replicate R []), bc_bound := True\<rparr>"
  let ?r1 = "r\<lparr>rs_columns := (rs_columns r)[b := ?col]\<rparr>"
  have D: "success (od_rc D (db_calls s @ [?c]))" using assms(1) by (simp add: result_driver_def accepts_def)
  have col: "bc_column (rs_columns r ! b) = b" "bc_ctype (rs_columns r ! b) = fst (bs ! b)" "bc_clen (rs_columns r ! b) = snd (bs ! b)" "\<not> bc_blob (rs_columns r ! b)"
    using r(10) [OF assms(2)] by simp_all
  have "allocate_column D nd a b s = (s\<lparr>db_calls := db_calls s @ [?c], db_results := (db_results s)(a \<mapsto> ?r1)\<rparr>, Inr ())"
    using r(1-3,5-7) D col assms(2) by (simp add: allocate_column_def bind_column_def result_stmt_ok_def put_column_def Let_def)
  moreover have "binding_at a sa st R bs h (length bs) (Suc b) (s\<lparr>db_calls := db_calls s @ [?c], db_results := (db_results s)(a \<mapsto> ?r1)\<rparr>)"
    unfolding binding_at_def
    by (intro exI [of _ ?r1] exI [of _ t]) (use r col assms(2) in \<open>simp add: nth_list_update less_Suc_eq column_ready_def\<close>)
  ultimately show ?thesis by blast
qed

lemma result_create_ready:
  assumes "result_driver D st bs" and "bs \<noteq> []" and "db_stmts s sa = Some t" and "st_stmt t = st" and "\<not> st_async_enabled t"
  shows "\<exists>s'. result_create D nd sa (int R) s = (s', Inr (db_next s)) \<and> before_rows (db_next s) (db_calls s @ bind_calls st (db_next s) R bs) st R bs s'"
proof -
  let ?n = "length bs"
  let ?a = "db_next s" and ?h = "db_calls s @ [Set_stmt_attr st Attr_row_array_size (int R), Set_stmt_attr st Attr_rows_fetched_ptr (int (db_next s)), Num_result_cols st]"
  have acc: "success (od_rc D (h @ [c]))" if "\<And>k i. c \<noteq> Fetch_scroll st k i" for h c using assms(1) that by (auto simp: result_driver_def accepts_def)
  have acc3: "success (od_rc D (h @ [x, c]))" "success (od_rc D (h @ [x, y, c]))" if "\<And>k i. c \<noteq> Fetch_scroll st k i" for h x y c
    using acc [OF that, of "h @ [x]"] acc [OF that, of "h @ [x, y]"] by simp_all
  have num: "od_number D (h @ [x, y, Num_result_cols st]) = int ?n" for h x y
    using assms(1) [unfolded result_driver_def] by (metis append.assoc append_Cons append_Nil)
  let ?r = "\<lparr>rs_stmt = sa, rs_rowset_size = int R, rs_row_count = 0, rs_columns = replicate ?n column_empty,
        rs_position = 0, rs_by_name = Map.empty, rs_at_end = False, rs_async = False\<rparr>"
  let ?s1 = "s\<lparr>db_next := Suc ?a, db_calls := ?h, db_results := (db_results s)(?a \<mapsto> ?r)\<rparr>"
  have bound: "binding_at ?a sa st R bs ?h 0 0 ?s1" using assms(3-5) by (auto simp: binding_at_def)
  obtain s2 where s2: "db_each (describe_column D ?a) [0..<?n] ?s1 = (s2, Inr ())" "binding_at ?a sa st R bs ?h ?n 0 s2"
    using db_each_upto [of ?n "\<lambda>d. binding_at ?a sa st R bs ?h d 0" "describe_column D ?a" ?s1] binding_describe [OF assms(1)] bound by fast
  obtain s3 where s3: "db_each (allocate_column D nd ?a) [0..<?n] s2 = (s3, Inr ())" "binding_at ?a sa st R bs ?h ?n ?n s3"
    using db_each_upto [of ?n "\<lambda>b. binding_at ?a sa st R bs ?h ?n b" "allocate_column D nd ?a" s2] binding_bind [OF assms(1)] s2(2) by fast
  have "result_create D nd sa (int R) s = (s3, Inr ?a)"
    using assms(2-5) acc acc3 num s2(1) s3(1)
    by (simp add: result_create_def result_stmt_ok_def auto_bind_columns_def cleanup_bound_columns_def before_move_def stmt_columns_def fun_upd_same del: fun_upd_apply)
  moreover have "before_rows ?a (db_calls s @ bind_calls st ?a R bs) st R bs s3"
  proof -
    obtain r t where r: "db_results s3 ?a = Some r" "rs_stmt r = sa" "rs_rowset_size r = int R" "rs_row_count r = 0" "length (rs_columns r) = ?n"
      "db_stmts s3 sa = Some t" "st_stmt t = st" "\<not> st_async_enabled t" "db_calls s3 = db_calls s @ bind_calls st ?a R bs"
      "\<And>i. i < ?n \<Longrightarrow> bc_column (rs_columns r ! i) = i \<and> bc_ctype (rs_columns r ! i) = fst (bs ! i)" "\<And>i. i < ?n \<Longrightarrow> column_ready R (rs_columns r ! i)"
      using s3(2) by (auto simp: binding_at_def bind_calls_def)
    have "map bc_ctype (rs_columns r) = map fst bs" "map bc_column (rs_columns r) = [0..<?n]"
      by (rule nth_equalityI; simp add: r(5,10))+
    moreover have "\<forall>col \<in> set (rs_columns r). column_ready R col" using r(5,11) by (simp add: all_set_conv_all_nth)
    ultimately show ?thesis using r(1-4,6-9) by (auto simp: before_rows_def cursor_ready_def)
  qed
  ultimately show ?thesis by blast
qed

lemma text_piece_served:
  assumes "take (length rest) (take 1023 buf) = take 1023 rest" and "ctype \<noteq> sql_c_binary"
    and "ind = int (length rest) \<or> length rest > 1023 \<and> ind = sql_no_total"
  shows "text_piece ctype ind (pad_to 1024 0 (take 1024 buf)) = take 1023 rest"
proof -
  have len: "length rest \<le> length buf \<or> 1023 \<le> length buf" using arg_cong [OF assms(1), of length] by (auto simp: min_def split: if_splits)
  have big: "take 1023 buf = take 1023 rest" if "length rest > 1023" using assms(1) that by (simp add: min_def)
  show ?thesis
  proof (cases "length rest > 1023")
    case True
    then have "take 1023 (pad_to 1024 0 (take 1024 buf)) = take 1023 rest" using len big by (auto simp: pad_to_def)
    then show ?thesis using assms(2,3) True by (auto simp: text_piece_def Let_def sql_no_total_def)
  next
    case False
    then have "take (length rest) buf = rest" using assms(1) by (simp add: min_def)
    moreover from this have "length rest \<le> length buf" by (metis length_take min.bounded_iff order_refl)
    ultimately have "take (length rest) (pad_to 1024 0 (take 1024 buf)) = rest" using False by (simp add: pad_to_def min_def)
    then show ?thesis using assms(2,3) False by (auto simp: text_piece_def Let_def sql_no_total_def)
  qed
qed

lemma get_pieces_served:
  assumes "serves_value D h0 c data" and "ctype \<noteq> sql_c_binary" and "length data \<le> 1023 * k + m" and "1023 * k \<le> length data"
  shows "\<exists>calls. get_pieces D c (text_piece ctype) (h0 @ replicate k c) (take (1023 * k) data) False = Some (calls, Sql_success, data, False)"
  using assms(3,4)
proof (induction m arbitrary: k rule: less_induct)
  case (less m)
  let ?rest = "drop (1023 * k) data" and ?h = "h0 @ replicate (Suc k) c"
  have law: "take (length ?rest) (take 1023 (snd (od_piece D ?h))) = take 1023 ?rest"
    "length ?rest > 1023 \<Longrightarrow> od_rc D ?h = Sql_success_with_info \<and> fst (od_piece D ?h) \<in> {int (length ?rest), sql_no_total}"
    "length ?rest \<le> 1023 \<Longrightarrow> od_rc D ?h = Sql_success \<and> fst (od_piece D ?h) = int (length ?rest)"
    using assms(1) unfolding serves_value_def Let_def by (metis not_less)+
  have ind: "fst (od_piece D ?h) = int (length ?rest) \<or> length ?rest > 1023 \<and> fst (od_piece D ?h) = sql_no_total"
    using law(2,3) by (cases "length ?rest > 1023") auto
  have piece: "text_piece ctype (fst (od_piece D ?h)) (pad_to 1024 0 (take 1024 (snd (od_piece D ?h)))) = take 1023 ?rest"
    by (rule text_piece_served [OF law(1) assms(2) ind])
  have out: "take (1023 * k) data @ take 1023 ?rest = take (1023 * Suc k) data" by (metis add.commute mult_Suc_right take_add)
  have null: "fst (od_piece D ?h) \<noteq> sql_null_data" using ind by (auto simp: sql_null_data_def sql_no_total_def)
  have h: "(h0 @ replicate k c) @ [c] = ?h" by (simp add: replicate_append_same)
  show ?case
  proof (cases "length ?rest > 1023")
    case True
    then have "m - 1023 < m" "length data \<le> 1023 * Suc k + (m - 1023)" "1023 * Suc k \<le> length data" 
      using less.prems unfolding length_drop mult_Suc_right by linarith+
    then obtain calls where "get_pieces D c (text_piece ctype) ?h (take (1023 * Suc k) data) False = Some (calls, Sql_success, data, False)"
      using less.IH [of "m - 1023" "Suc k"] by blast
    then show ?thesis using law(2) [OF True] piece null h by (subst get_pieces.simps) (simp add: Let_def out)
  next
    case False
    then have "take (1023 * Suc k) data = data" using less.prems by simp
    then show ?thesis using law(3) False piece null h by (subst get_pieces.simps) (simp add: Let_def out)
  qed
qed

section \<open>Properties\<close>


text \<open>A driver with three rows of one column, the second null, in rowsets of two.\<close>

definition three_rows :: "(int \<times> bytes) list list" where
  "three_rows = [[(8, [5, 0, 0, 0, 0, 0, 0, 0])], [(-1, [0, 0, 0, 0, 0, 0, 0, 0])], [(8, [255, 255, 255, 255, 255, 255, 255, 255])]]"

definition fetches :: "sql_call list \<Rightarrow> nat" where
  "fetches h = length (filter (\<lambda>c. c = fetch_next_call 3) h)"

definition three_row_driver :: odbc where
  "three_row_driver = willing\<lparr>od_number := (\<lambda>_. 1),
     od_rc := (\<lambda>h. if h \<noteq> [] \<and> last h = fetch_next_call 3 \<and> rowset 2 three_rows (fetches h - 1) = [] then Sql_no_data else Sql_success),
     od_rows_fetched := (\<lambda>h. length (rowset 2 three_rows (fetches h - 1))),
     od_cells := (\<lambda>h c. map (\<lambda>row. row ! c) (rowset 2 three_rows (fetches h - 1)))\<rparr>"

lemma three_row_driver_serves: "serves three_row_driver (bind_calls 3 8 2 (int_bindings 1)) 3 2 three_rows"
proof -
  have "fetches (bind_calls 3 8 2 (int_bindings 1) @ replicate k (fetch_next_call 3)) = k" for k by (simp add: fetches_def bind_calls_def)
  then have "fetches (bind_calls 3 8 2 (int_bindings 1) @ fetch_next_call 3 # replicate k (fetch_next_call 3)) = Suc k" for k by (metis replicate_Suc)
  then show ?thesis by (simp add: serves_def three_row_driver_def Let_def)
qed



definition blob_column :: bound_column where
  "blob_column = column_empty\<lparr>bc_name := ''note'', bc_sqltype := -1, bc_ctype := sql_c_char, bc_blob := True, bc_cbdata := Some [0]\<rparr>"

definition blob_result :: result_impl where
  "blob_result = \<lparr>rs_stmt = 7, rs_rowset_size = 1, rs_row_count = 1, rs_columns = [blob_column], rs_position = 0, rs_by_name = [''note'' \<mapsto> 0],
     rs_at_end = False, rs_async = False\<rparr>"

definition blob_db :: db where
  "blob_db = statement_db\<lparr>db_results := [8 \<mapsto> blob_result]\<rparr>"

text \<open>1500 bytes, so that two pieces are needed.\<close>

definition long_text :: bytes where
  "long_text = replicate 1500 65"

definition long_text_driver :: odbc where
  "long_text_driver = willing\<lparr>od_rc := (\<lambda>h. if length h < 2 then Sql_success_with_info else Sql_success),
     od_piece := (\<lambda>h. let rest = drop (1023 * (length h - 1)) long_text in (int (length rest), take 1023 rest @ [0]))\<rparr>"


text \<open>
  A null in a column that is not bound is seen only when its value is read: \<^verbatim>\<open>get\<close> without a fallback
  has checked for null before, and returns an empty text instead of throwing; with a fallback it checks
  again and returns the fallback.
\<close>

theorem null_blob_reads_as_empty:
  assumes "db_results s a = Some r" and "rs_columns r = [col]" and "\<not> bc_bound col" and "bc_ctype col = sql_c_char" and "bc_cbdata col = Some [0]"
    and "rs_position r = 0" and "rs_row_count r = 1" and "db_stmts s (rs_stmt r) = Some t" and "\<not> st_async_enabled t"
    and "od_rc D (db_calls s @ [Get_data (st_stmt t) 1 sql_c_char 1024]) = Sql_success"
    and "fst (od_piece D (db_calls s @ [Get_data (st_stmt t) 1 sql_c_char 1024])) = sql_null_data"
  shows "snd (get_ref nd a (get_text D a) 0 s) = Inr [] \<and> snd (get_ref_fallback nd a (get_text D a) fallback 0 s) = Inr fallback"
proof -
  have one: "int (rs_row_count r) \<le> long_max" using assms(7) by (simp add: long_max_def)
  have null: "is_null nd a 0 s = (s, Inr False)"
    using assms(1,2,5,6,7) one by (simp add: is_null_def throw_if_column_is_out_of_range_def column_at_def at_position_def sql_null_data_def)
  let ?col = "col\<lparr>bc_cbdata := Some [sql_null_data]\<rparr>"
  let ?s = "s\<lparr>db_calls := db_calls s @ [Get_data (st_stmt t) 1 sql_c_char 1024], db_results := (db_results s)(a \<mapsto> r\<lparr>rs_columns := [?col]\<rparr>)\<rparr>"
  have read: "get_text D a 0 s = (?s, Inr [])"
    using assms one
    by (simp add: get_text_def column_at_def is_bound_def throw_if_column_is_out_of_range_def run_pieces_def get_pieces.simps Let_def text_piece_def
        sql_null_data_def sql_no_total_def mark_null_def at_position_def put_column_def)
  have "is_null nd a 0 ?s = (?s, Inr True)" "is_bound a 0 ?s = (?s, Inr False)"
    using assms(3,6,7) one by (simp_all add: is_null_def is_bound_def throw_if_column_is_out_of_range_def column_at_def at_position_def)
  then show ?thesis
    using null read assms(1,2) by (simp add: get_ref_def get_ref_fallback_def throw_if_column_is_out_of_range_def)
qed

theorem null_blob_reads_as_empty_witness:
  "snd (get_ref False 8 (get_text (willing\<lparr>od_piece := (\<lambda>_. (-1, []))\<rparr>) 8) 0 blob_db) = Inr []"
  using null_blob_reads_as_empty [of blob_db 8 blob_result blob_column demo_statement "willing\<lparr>od_piece := (\<lambda>_. (-1, []))\<rparr>" False "[1]"]
  by (simp add: blob_db_def blob_result_def blob_column_def column_empty_def willing_def sql_null_data_def)

text \<open>
  When describing the columns of the next result set fails, \<^verbatim>\<open>next_result\<close> throws and leaves columns without
  buffers; destroying the result writes to them through a null pointer.
\<close>

theorem next_result_failure_breaks_destructor:
  assumes "db_results s a = Some r" and "rs_rowset_size r > 0" and "\<forall>col \<in> set (rs_columns r). bc_cbdata col \<noteq> None"
    and "db_stmts s (rs_stmt r) = Some t" and "\<not> st_async_enabled t" and "st_stmt t = st"
    and "success (od_rc D (db_calls s @ [More_results st]))" and "success (od_rc D (db_calls s @ [More_results st, Num_result_cols st]))"
    and "od_number D (db_calls s @ [More_results st, Num_result_cols st]) = int (Suc n)"
    and "\<not> success (od_rc D (db_calls s @ [More_results st, Num_result_cols st, Describe_col st 1]))"
  shows "\<exists>s'. next_result D nd a s = (s', Inl (Db_throw (Database_error st Handle_stmt))) \<and> snd (result_destroy a s') = Inl Db_undefined"
proof -
  have ok: "\<not> list_ex (\<lambda>col. bc_cbdata col = None) (rs_columns r)" "od_rc D (db_calls s @ [More_results st]) \<noteq> Sql_no_data"
    using assms(3,7) by (auto simp: list_ex_iff)
  let ?s = "s\<lparr>db_results := (db_results s)(a \<mapsto> r\<lparr>rs_by_name := Map.empty, rs_columns := replicate (Suc n) column_empty\<rparr>),
    db_calls := db_calls s @ [More_results st, Num_result_cols st, Describe_col st 1]\<rparr>"
  have nonnull: "nat (int (Suc n)) = Suc n" "[0..<Suc n] = 0 # [Suc 0..<Suc n]" by (simp_all add: upt_conv_Cons)
  have "next_result D nd a s = (?s, Inl (Db_throw (Database_error st Handle_stmt)))"
    using assms(1,4-10) ok nonnull
    by (simp add: next_result_def auto_bind_columns_def cleanup_bound_columns_def before_move_def stmt_columns_def describe_column_def
        result_stmt_ok_def fun_upd_same del: fun_upd_apply upt_Suc replicate_Suc)
  moreover have "snd (result_destroy a ?s) = Inl Db_undefined"
    using assms(2) by (simp add: result_destroy_def cleanup_bound_columns_def before_move_def column_empty_def)
  ultimately show ?thesis by blast
qed

theorem next_result_failure_breaks_destructor_witness:
  "\<exists>s'. next_result (willing\<lparr>od_number := (\<lambda>_. 1), od_rc := (\<lambda>h. if length h = 3 then Sql_error else Sql_success)\<rparr>) False 8 blob_db =
       (s', Inl (Db_throw (Database_error 3 Handle_stmt))) \<and> snd (result_destroy 8 s') = Inl Db_undefined"
  using next_result_failure_breaks_destructor [of blob_db 8 blob_result demo_statement 3
      "willing\<lparr>od_number := (\<lambda>_. 1), od_rc := (\<lambda>h. if length h = 3 then Sql_error else Sql_success)\<rparr>" 0 False]
  by (simp add: blob_db_def blob_result_def blob_column_def)

text \<open>
  Moving the other way is wrong in three places. \<^verbatim>\<open>prior\<close> at the first row of a rowset
  goes to the first row of the rowset before, not to its last. \<^verbatim>\<open>skip\<close> by a negative number
  leaves the rowset at its front without fetching, and reports a row. And the mark of the end is never
  taken back: once a fetch has found no row, \<^verbatim>\<open>at_end\<close> is true on every row.
\<close>

definition fetch_state :: "db \<Rightarrow> nat \<Rightarrow> result_impl \<Rightarrow> bool" where
  "fetch_state s a r \<longleftrightarrow> db_results s a = Some r \<and> (\<forall>col \<in> set (rs_columns r). bc_cbdata col \<noteq> None) \<and>
     (\<exists>t. db_stmts s (rs_stmt r) = Some t \<and> \<not> st_async_enabled t)"

lemma fetch_succeeds:
  assumes "fetch_state s a r" and "\<And>h. success (od_rc D (db_calls s @ [Fetch_scroll h orient rows]))"
  shows "\<exists>s' r' h. fetch D a rows orient 0 s = (s', Inr True) \<and> db_results s' a = Some r' \<and> rs_position r' = rs_position r \<and> rs_at_end r' = rs_at_end r \<and>
    rs_row_count r' = od_rows_fetched D (db_calls s @ [Fetch_scroll h orient rows])"
proof -
  have "\<not> list_ex (\<lambda>col. bc_cbdata col = None) (rs_columns r)" using assms(1) by (auto simp: fetch_state_def list_ex_iff)
  moreover have "od_rc D (db_calls s @ [Fetch_scroll h orient rows]) \<noteq> Sql_no_data" for h using assms(2) [of h] by auto
  ultimately show ?thesis
    using assms by (auto simp: fetch_state_def fetch_def before_move_def use_event_def fetched_def)
qed

theorem moving_back_goes_wrong:
  assumes "fetch_state s a r" and "0 < rs_row_count r" and "int (rs_row_count r) \<le> long_max" and "rs_rowset_size r > 0"
    and "\<And>h d n. success (od_rc D (db_calls s @ [Fetch_scroll h d n]))"
  shows "(rs_position r = 0 \<longrightarrow> (\<exists>s' r' h. result_prior D nd a s = (s', Inr True) \<and> db_results s' a = Some r' \<and> rs_position r' = 0 \<and>
      rs_row_count r' = od_rows_fetched D (db_calls s @ [Fetch_scroll h Fetch_prior 0]))) \<and>
    (rs_position r = 0 \<longrightarrow> (\<exists>s' r'. result_skip D nd a (-1) s = (s', Inr True) \<and> db_calls s' = db_calls s \<and> db_results s' a = Some r' \<and> rs_position r' = -1)) \<and>
    (rs_at_end r \<longrightarrow> (\<exists>s'. result_first D a s = (s', Inr True) \<and> at_end D nd a s' = (s', Inr True)))"
proof (intro conjI impI)
  have obj: "db_results s a = Some r" using assms(1) by (simp add: fetch_state_def)
  have lo: "long_min \<le> - 1" "- 1 \<le> long_max" by (simp_all add: long_min_def long_max_def)
  show "\<exists>s' r' h. result_prior D nd a s = (s', Inr True) \<and> db_results s' a = Some r' \<and> rs_position r' = 0 \<and>
      rs_row_count r' = od_rows_fetched D (db_calls s @ [Fetch_scroll h Fetch_prior 0])" if "rs_position r = 0"
  proof -
    have "fetch_state (s\<lparr>db_results := (db_results s)(a \<mapsto> r\<lparr>rs_position := 0\<rparr>)\<rparr>) a (r\<lparr>rs_position := 0\<rparr>)" using assms(1) by (simp add: fetch_state_def)
    from fetch_succeeds [OF this, of D Fetch_prior 0] show ?thesis
      using obj that assms(2,3,5) lo by (auto simp: result_prior_def Let_def)
  qed
  show "\<exists>s' r'. result_skip D nd a (-1) s = (s', Inr True) \<and> db_calls s' = db_calls s \<and> db_results s' a = Some r' \<and> rs_position r' = -1" if "rs_position r = 0"
    using obj that assms(2-4) lo by (simp add: result_skip_def)
  show "\<exists>s'. result_first D a s = (s', Inr True) \<and> at_end D nd a s' = (s', Inr True)" if "rs_at_end r"
  proof -
    have "fetch_state (s\<lparr>db_results := (db_results s)(a \<mapsto> r\<lparr>rs_position := 0\<rparr>)\<rparr>) a (r\<lparr>rs_position := 0\<rparr>)" using assms(1) by (simp add: fetch_state_def)
    from fetch_succeeds [OF this, of D Fetch_first 0] show ?thesis
      using obj that assms(5) by (auto simp: result_first_def at_end_def)
  qed
qed

theorem moving_back_goes_wrong_witness:
  "\<exists>s' r'. result_prior (willing\<lparr>od_rows_fetched := (\<lambda>_. 5)\<rparr>) False 8 blob_db = (s', Inr True) \<and> db_results s' 8 = Some r' \<and>
     rs_position r' = 0 \<and> rs_row_count r' = 5"
  using moving_back_goes_wrong [of blob_db 8 blob_result "willing\<lparr>od_rows_fetched := (\<lambda>_. 5)\<rparr>" False]
  by (auto simp: fetch_state_def blob_db_def blob_result_def blob_column_def long_max_def willing_def)

text \<open>
  A whole number read as text is cut at the size of its column, which does not count the sign: the
  smallest numbers of a type lose their last digit without an error.
\<close>

theorem int_text_is_cut:
  assumes "db_results s a = Some r" and "column < length (rs_columns r)" and "rs_columns r ! column = col" and "bc_bound col" and "bc_pdata col = Some cells"
    and "rs_position r = int p" and "p < length cells" and "8 \<le> length (cells ! p)" and "le_int (take 8 (cells ! p)) = i"
  shows "get_int64_text D a (int column) s = (s, Inr (take (bc_sqlsize col) (int_text i)))"
  using assms by (simp add: get_int64_text_def get_int64_def ensure_pdata_def column_at_def is_bound_def throw_if_column_is_out_of_range_def
      at_position_def take_bytes_def)

theorem int_text_is_cut_witness:
  "snd (get_int64_text willing 8 0 (blob_db\<lparr>db_results := [8 \<mapsto> blob_result\<lparr>rs_columns := [column_empty\<lparr>bc_sqltype := 4, bc_sqlsize := 3,
      bc_ctype := sql_c_sbigint, bc_clen := 8, bc_bound := True, bc_cbdata := Some [8], bc_pdata := Some [[25, 252, 255, 255, 255, 255, 255, 255]]\<rparr>]\<rparr>]\<rparr>)) =
    Inr ''-99''"
  using int_text_is_cut [of "blob_db\<lparr>db_results := [8 \<mapsto> blob_result\<lparr>rs_columns := [column_empty\<lparr>bc_sqltype := 4, bc_sqlsize := 3,
      bc_ctype := sql_c_sbigint, bc_clen := 8, bc_bound := True, bc_cbdata := Some [8], bc_pdata := Some [[25, 252, 255, 255, 255, 255, 255, 255]]\<rparr>]\<rparr>]\<rparr>"
      8 "blob_result\<lparr>rs_columns := [column_empty\<lparr>bc_sqltype := 4, bc_sqlsize := 3,
      bc_ctype := sql_c_sbigint, bc_clen := 8, bc_bound := True, bc_cbdata := Some [8], bc_pdata := Some [[25, 252, 255, 255, 255, 255, 255, 255]]\<rparr>]\<rparr>" 0 _
      "[[25, 252, 255, 255, 255, 255, 255, 255]]" 0 "-999" willing]
  by (simp add: blob_result_def column_empty_def le_int_def int_text_def char_of_def bit_0)

end
