(* ===== verification/Db_Iterator.thy ===== *)
theory Db_Iterator
  imports Db_Rows
begin

text \<open>
  \<^verbatim>\<open>nanodbc::result_iterator\<close> and the loop of a client over it. An iterator is the result it holds: the address of an implementation, or
  none. The result it was made from lives as long as the loop, so that dropping the iterator's result
  destroys nothing.
\<close>

section \<open>Definitions\<close>

type_synonym result_iterator = "nat option"

text \<open>\<^verbatim>\<open>operator++\<close>: any exception of \<^verbatim>\<open>next\<close> counts as the end. Calling \<^verbatim>\<open>next\<close> of an empty result is undefined.\<close>

definition iter_advance :: "odbc \<Rightarrow> bool \<Rightarrow> result_iterator \<Rightarrow> result_iterator dbm" where
  "iter_advance D nd it = (case it of None \<Rightarrow> db_fail Db_undefined
     | Some a \<Rightarrow> db_catch (db_bind (result_next D nd a 0) (\<lambda>b. db_return (if b then Some a else None))) (\<lambda>e. db_return None))"

definition iter_begin :: "odbc \<Rightarrow> bool \<Rightarrow> nat \<Rightarrow> result_iterator dbm" where
  "iter_begin D nd a = iter_advance D nd (Some a)"

definition iter_end :: result_iterator where
  "iter_end = None"

text \<open>\<^verbatim>\<open>it++\<close>: the iterator returned, and the one left.\<close>

definition iter_post :: "odbc \<Rightarrow> bool \<Rightarrow> result_iterator \<Rightarrow> (result_iterator \<times> result_iterator) dbm" where
  "iter_post D nd it = db_bind (iter_advance D nd it) (\<lambda>it'. db_return (it, it'))"

text \<open>\<^verbatim>\<open>operator->\<close>; \<^verbatim>\<open>operator*\<close> does not check, and a member of the empty result is undefined.\<close>

definition iter_arrow :: "result_iterator \<Rightarrow> nat dbm" where
  "iter_arrow it = (case it of None \<Rightarrow> db_throw (Std_runtime_error ''result is empty'') | Some a \<Rightarrow> db_return a)"

definition iter_deref :: "result_iterator \<Rightarrow> nat dbm" where
  "iter_deref it = the_obj it"

definition result_native_handle :: "nat \<Rightarrow> handle dbm" where
  "result_native_handle a = db_bind (result_get a) (\<lambda>r. db_bind (stmt_get (rs_stmt r)) (\<lambda>t. db_return (st_stmt t)))"

definition iter_eq :: "result_iterator \<Rightarrow> result_iterator \<Rightarrow> bool dbm" where
  "iter_eq x y = (case (x, y) of
     (Some a, Some b) \<Rightarrow> db_bind (result_native_handle a) (\<lambda>h. db_bind (result_native_handle b) (\<lambda>h'. db_return (h = h')))
   | _ \<Rightarrow> db_return (x = None \<and> y = None))"

text \<open>\<^verbatim>\<open>for (auto& r : res) rows.push_back(row(r))\<close>, with the number of rounds it may take.\<close>

fun iter_rows :: "nat \<Rightarrow> odbc \<Rightarrow> bool \<Rightarrow> (nat \<Rightarrow> 'a dbm) \<Rightarrow> result_iterator \<Rightarrow> 'a list dbm" where
  "iter_rows 0 D nd row it = db_fail Db_loops"
| "iter_rows (Suc n) D nd row it = db_bind (iter_eq it iter_end) (\<lambda>e. if e then db_return []
     else db_bind (iter_deref it) (\<lambda>a. db_bind (row a) (\<lambda>x. db_bind (iter_advance D nd it) (\<lambda>it'.
       db_bind (iter_rows n D nd row it') (\<lambda>xs. db_return (x # xs))))))"

definition for_each_row :: "nat \<Rightarrow> odbc \<Rightarrow> bool \<Rightarrow> nat \<Rightarrow> (nat \<Rightarrow> 'a dbm) \<Rightarrow> 'a list dbm" where
  "for_each_row n D nd a row = db_bind (iter_begin D nd a) (iter_rows n D nd row)"

section \<open>Lemmas\<close>

lemma iter_eq_end [simp]: "iter_eq None iter_end s = (s, Inr True)" "iter_eq (Some a) iter_end s = (s, Inr False)"
  by (simp_all add: iter_eq_def iter_end_def)

lemma iter_deref_Some [simp]: "iter_deref (Some a) s = (s, Inr a)"
  by (simp add: iter_deref_def the_obj_def)

lemma iter_advance_cases:
  "result_next D nd a 0 s = (s', Inr b) \<Longrightarrow> iter_advance D nd (Some a) s = (s', Inr (if b then Some a else None))"
  "result_next D nd a 0 s = (s', Inl (Db_throw e)) \<Longrightarrow> iter_advance D nd (Some a) s = (s', Inr None)"
  by (simp_all add: iter_advance_def)

text \<open>A loop over the iterator against one over \<^verbatim>\<open>next\<close>: what ends the one in an exception ends the other.\<close>

lemma iterator_follows_next:
  assumes "read_rows n D nd a (row a) s = (s', r)"
  shows "(\<forall>xs. r = Inr xs \<longrightarrow> for_each_row n D nd a row s = (s', Inr xs)) \<and>
    (\<forall>e. (\<forall>s. \<exists>s' x. row a s = (s', Inr x)) \<longrightarrow> r = Inl (Db_throw e) \<longrightarrow> (\<exists>xs. for_each_row n D nd a row s = (s', Inr xs)))"
  using assms
proof (induction n arbitrary: s s' r)
  case 0
  then show ?case by auto
next
  case (Suc n)
  obtain s1 q where n: "result_next D nd a 0 s = (s1, q)" by fastforce
  consider e where "q = Inl (Db_throw e)" | f where "q = Inl f" "\<forall>e. f \<noteq> Db_throw e" | "q = Inr False" | "q = Inr True"
    by (metis (full_types) sum.exhaust)
  then show ?case
  proof cases
    case 1
    then show ?thesis using Suc.prems n by (auto simp: for_each_row_def iter_begin_def iter_advance_cases(2))
  next
    case 2
    then show ?thesis using Suc.prems n by auto
  next
    case 3
    then have "iter_advance D nd (Some a) s = (s1, Inr None)" using n iter_advance_cases(1) by fastforce
    then show ?thesis using Suc.prems n 3 by (auto simp: for_each_row_def iter_begin_def)
  next
    case 4
    show ?thesis
    proof (cases "row a s1")
      case (Pair s2 y)
      show ?thesis
      proof (cases y)
        case (Inl f)
        then show ?thesis using Suc.prems n 4 Pair by (auto dest!: spec [of _ s1])
      next
        case (Inr x)
        obtain s3 t where t: "read_rows n D nd a (row a) s2 = (s3, t)" by fastforce
        have "for_each_row (Suc n) D nd a row s = db_bind (for_each_row n D nd a row) (\<lambda>xs. db_return (x # xs)) s2"
          using n 4 Pair Inr by (simp add: for_each_row_def iter_begin_def iter_advance_cases(1) db_bind_def split: prod.splits sum.splits)
        moreover have "s' = s3" "r = (case t of Inl e \<Rightarrow> Inl e | Inr xs \<Rightarrow> Inr (x # xs))"
          using Suc.prems n 4 Pair Inr t by (auto split: sum.splits simp: db_bind_def)
        ultimately show ?thesis using Suc.IH [OF t] by (auto split: sum.splits)
      qed
    qed
  qed
qed

section \<open>Iterating over a result\<close>

text \<open>
  A loop over the iterators of a result reads what a loop over \<^verbatim>\<open>next\<close> reads: every row once, in
  order, and it ends.
\<close>

theorem iterator_reads_all_rows:
  assumes "result_driver D st (int_bindings n)" and "n > 0" and "R > 0" and "int R \<le> long_max"
    and "db_stmts s sa = Some t" and "st_stmt t = st" and "\<not> st_async_enabled t"
    and "serves D (db_calls s @ bind_calls st (db_next s) R (int_bindings n)) st R rows"
    and "\<And>row cell. row \<in> set rows \<Longrightarrow> length row = n \<and> (cell \<in> set row \<longrightarrow> 8 \<le> length (snd cell))" and "length rows < fuel"
  shows "\<exists>s'. db_bind (result_create D nd sa (int R)) (\<lambda>a. for_each_row fuel D nd a (int_row D nd)) s = (s', Inr (map (map decode_cell) rows))"
proof -
  let ?h = "db_calls s @ bind_calls st (db_next s) R (int_bindings n)"
  obtain s1 where s1: "result_create D nd sa (int R) s = (s1, Inr (db_next s))" "before_rows (db_next s) ?h st R (int_bindings n) s1"
    using result_create_ready [OF assms(1) _ assms(5-7)] assms(2) by auto
  have "served D ?h st R rows" "int_cells (length (int_bindings n)) rows" using assms(3,4,8,9) by (auto simp: served_def int_cells_def)
  then obtain s2 where "read_rows fuel D nd (db_next s) (int_row D nd (db_next s)) s1 = (s2, Inr (map (map decode_cell) rows))"
    using int_rows_read [of "int_bindings n" rows D ?h st R "db_next s" s1 fuel nd] s1(2) assms(10) by auto
  then show ?thesis using s1(1) iterator_follows_next [of fuel D nd "db_next s" "int_row D nd"] by fastforce
qed

theorem iterator_reads_all_rows_witness:
  "\<exists>s'. db_bind (result_create three_row_driver False 7 2) (\<lambda>a. for_each_row 4 three_row_driver False a (int_row three_row_driver False)) statement_db =
     (s', Inr [[Some 5], [None], [Some (-1)]])"
proof -
  have D: "result_driver three_row_driver 3 (int_bindings 1)"
    by (auto simp: result_driver_def three_row_driver_def accepts_def willing_def column_binding_def)
  have next8: "db_next statement_db = 8" by (simp add: statement_db_def)
  have "\<exists>s'. db_bind (result_create three_row_driver False 7 (int 2)) (\<lambda>a. for_each_row 4 three_row_driver False a (int_row three_row_driver False)) statement_db =
      (s', Inr (map (map decode_cell) three_rows))"
    by (rule iterator_reads_all_rows [OF D, of 2 _ _ demo_statement])
      (use three_row_driver_serves in \<open>auto simp: next8 three_rows_def long_max_def\<close>)
  then show ?thesis by (simp add: three_rows_def decode_cell_def sql_null_data_def le_int_def)
qed

text \<open>
  The iterators hide failures: where the loop over \<^verbatim>\<open>next\<close> ends in an exception of the driver, the
  loop over the iterators ends as if there were no more rows.
\<close>

theorem iterator_hides_failures:
  assumes "\<And>s. \<exists>s' x. row a s = (s', Inr x)" and "read_rows n D nd a (row a) s = (s', Inl (Db_throw e))"
  shows "\<exists>xs. for_each_row n D nd a row s = (s', Inr xs)"
  using iterator_follows_next [of n D nd a row s] assms by blast

text \<open>A driver that gives one row and fails at the next.\<close>

definition failing_driver :: odbc where
  "failing_driver = willing\<lparr>od_rc := (\<lambda>h. if length h < 2 then Sql_success else Sql_error), od_rows_fetched := (\<lambda>h. 1)\<rparr>"

theorem iterator_hides_failures_witness:
  "snd (read_rows 3 failing_driver False 8 (db_return ()) blob_db) = Inl (Db_throw (Database_error 3 Handle_stmt)) \<and>
   (\<exists>xs. snd (for_each_row 3 failing_driver False 8 (\<lambda>_. db_return ()) blob_db) = Inr xs)"
proof -
  let ?h = "Fetch_scroll 3 Fetch_next 0" and ?r = "blob_result\<lparr>rs_columns := [blob_column]\<rparr>"
  let ?s = "\<lambda>k. blob_db\<lparr>db_calls := replicate k ?h, db_results := [8 \<mapsto> ?r]\<rparr>"
  have start: "blob_db = ?s 0" by (simp add: blob_db_def blob_result_def)
  have run: "result_next failing_driver False 8 0 (?s k) =
      (?s (Suc k), if k = 0 then Inr True else Inl (Db_throw (Database_error 3 Handle_stmt)))" for k
    by (simp add: result_next_def fetch_def before_move_def use_event_def fetched_def clear_column_def write_cells_def Let_def replicate_append_same
        failing_driver_def blob_db_def blob_result_def blob_column_def column_empty_def rows_in_def set_position_def long_max_def long_min_def)
  have step: "read_rows (Suc (Suc (Suc 0))) D False 8 (db_return ()) s = (s2, Inl f)"
    if "result_next D False 8 0 s = (s1, Inr True)" and "result_next D False 8 0 s1 = (s2, Inl f)" for D s s1 s2 f
    using that by simp
  have "result_next failing_driver False 8 0 blob_db = (?s 1, Inr True)" using run [of 0] by (simp only: start [symmetric] One_nat_def simp_thms if_True)
  then have "read_rows 3 failing_driver False 8 (db_return ()) blob_db = (?s (Suc 1), Inl (Db_throw (Database_error 3 Handle_stmt)))"
    using step [OF _ trans [OF run [of 1]]] by (simp only: numeral_3_eq_3 [symmetric] one_neq_zero if_False refl)
  then show ?thesis
    using iterator_hides_failures [of "\<lambda>_. db_return ()" 8 3 failing_driver False blob_db _ "Database_error 3 Handle_stmt"] by auto
qed

text \<open>
  \<^verbatim>\<open>*it++\<close> is not the row \<^verbatim>\<open>it\<close> was at, as an input iterator promises: the copy
  that is returned shares the result, which has moved on.
\<close>

theorem post_increment_reads_next_row:
  assumes "serves D h0 st R rows" and "R > 0" and "int R \<le> long_max" and "at_row a h0 st R rows bs i s" and "Suc i < length rows"
    and "c < length bs" and "8 \<le> length (snd (rows ! Suc i ! c))"
  shows "\<exists>s'. db_bind (iter_post D nd (Some a)) (\<lambda>(old, it). db_bind (iter_deref old) (\<lambda>r. get_ref_optional nd r (get_int64 D r) (int c))) s =
    (s', Inr (decode_cell (rows ! Suc i ! c)))"
proof -
  obtain s' where s': "result_next D nd a 0 s = (s', Inr True)" "at_row a h0 st R rows bs (Suc i) s'"
    using next_step [OF assms(1-4)] assms(5) by (metis Suc_lessD)
  have "iter_post D nd (Some a) s = (s', Inr (Some a, Some a))" using s'(1) by (simp add: iter_post_def iter_advance_cases(1))
  then show ?thesis using read_cell [OF s'(2) assms(5,2,3,6,7)] by simp
qed

end
