(* ===== verification/Db_Diag.thy ===== *)
theory Db_Diag
  imports Db_Connection
begin

text \<open>
  What a \<^verbatim>\<open>database_error\<close> says: its constructor asks the driver for the diagnostic record of
  the handle. The driver is a parameter here too: from the number of the record and the buffer offered
  (none, or a length) it gives a return code and what it writes.
\<close>

section \<open>Definitions\<close>

text \<open>
  \<open>dg_state\<close> is what the array for the state holds after the call, \<open>dg_written\<close> all that is written to the
  buffer for the message, with its terminator; \<open>dg_total\<close> is the length of the whole message.
\<close>

record diag_answer =
  dg_rc :: retcode
  dg_state :: string
  dg_native :: int
  dg_written :: string
  dg_total :: int

type_synonym diag_source = "int \<Rightarrow> int option \<Rightarrow> diag_answer"

definition sql_max_message_length :: nat where
  "sql_max_message_length = 512"

text \<open>\<^verbatim>\<open>vector::resize\<close>.\<close>

definition resize_chars :: "nat \<Rightarrow> string \<Rightarrow> string" where
  "resize_chars n xs = take n xs @ replicate (n - length xs) (CHR 0x00)"

text \<open>
  The result: the text, the native error and the state. Outside of Visual C++ the loop ends after its
  first round. A driver that writes past the buffer makes it undefined (\<^const>\<open>None\<close>).
\<close>

definition blank_nuls :: "string \<Rightarrow> string" where
  "blank_nuls = map (\<lambda>c. if c = CHR 0x00 then CHR '' '' else c)"

definition diag_status :: "string \<Rightarrow> string \<Rightarrow> diag_answer \<Rightarrow> string \<times> int \<times> string" where
  "diag_status result state g = (let state' = (if sqlchar_size (dg_state g) > 0 then take (sqlchar_size (dg_state g)) (dg_state g) else state)
     in (blank_nuls (state' @ '': '' @ result), dg_native g, state'))"

definition recent_error :: "diag_source \<Rightarrow> int \<Rightarrow> string \<Rightarrow> (string \<times> int \<times> string) option" where
  "recent_error dg native state = (let message = replicate sql_max_message_length (CHR 0x00); g1 = dg 1 None;
     message = (if success (dg_rc g1) \<and> dg_total g1 > 0 then resize_chars (nat (dg_total g1) + 1) message else message) in
     if dg_rc g1 = Sql_no_data then Some (diag_status [] state g1)
     else let g2 = dg 1 (Some (to_smallint (int (length message)))) in
       if length (dg_written g2) > length message then None
       else if \<not> success (dg_rc g2) then Some ([], native, state)
       else Some (diag_status (dg_written g2 @ drop (length (dg_written g2)) message) state g2))"

text \<open>The constructor of \<^verbatim>\<open>database_error\<close>: what \<^verbatim>\<open>what\<close>, \<^verbatim>\<open>native\<close> and \<^verbatim>\<open>state\<close> return.\<close>

definition database_error :: "diag_source \<Rightarrow> string \<Rightarrow> (string \<times> int \<times> string) option" where
  "database_error dg info = map_option (\<lambda>(txt1, native, state). (info @ txt1, native, state)) (recent_error dg 0 ''00000'')"

section \<open>Lemmas\<close>

text \<open>
  What ODBC documents of \<^verbatim>\<open>SQLGetDiagRec\<close> for a record with a state of five characters and a message: the state
  and the total are reported with and without a buffer, and the message is cut to fit the buffer.
\<close>

definition reports :: "diag_source \<Rightarrow> string \<Rightarrow> int \<Rightarrow> string \<Rightarrow> bool" where
  "reports dg st native msg \<longleftrightarrow> length st = 5 \<and> CHR 0x00 \<notin> set st \<and> CHR 0x00 \<notin> set msg \<and>
     (\<forall>b. let g = dg 1 b in success (dg_rc g) \<and> dg_state g = st @ [CHR 0x00] \<and> dg_native g = native \<and> dg_total g = int (length msg)) \<and>
     (\<forall>n > 0. dg_written (dg 1 (Some n)) = take (nat n - 1) msg @ [CHR 0x00])"

lemma blank_nuls_simps [simp]: "CHR 0x00 \<notin> set xs \<Longrightarrow> blank_nuls xs = xs" "blank_nuls (xs @ ys) = blank_nuls xs @ blank_nuls ys"
  "blank_nuls (c # xs) = (if c = CHR 0x00 then CHR '' '' else c) # blank_nuls xs"
  "blank_nuls (replicate n (CHR 0x00)) = replicate n (CHR '' '')"
  by (auto simp: blank_nuls_def intro: map_idI)

lemma sqlchar_size_terminated: "CHR 0x00 \<notin> set st \<Longrightarrow> sqlchar_size (st @ [CHR 0x00]) = length st"
proof -
  assume "CHR 0x00 \<notin> set st"
  then have "cstr st = st" by (rule cstr_plain)
  then have "cstr (st @ [CHR 0x00]) = st" by (simp add: cstr_def takeWhile_tail)
  then show ?thesis by (simp add: sqlchar_size_def)
qed

text \<open>
  An exception tells the state, the native error and the whole message of the first record. A message of
  \<open>n\<close> characters ends with a blank, the terminator of the buffer; where the record has no message,
  512 blanks stand for it.
\<close>

theorem database_error_tells:
  assumes "reports dg st native msg" and "length msg < 2 ^ 15 - 1"
  shows "database_error dg info = Some (info @ st @ '': '' @ msg @ replicate (if msg = [] then 512 else 1) (CHR '' ''), native, st)"
proof -
  let ?n = "if msg = [] then 512 else length msg + 1"
  let ?message = "if success (dg_rc (dg 1 None)) \<and> dg_total (dg 1 None) > 0
    then resize_chars (nat (dg_total (dg 1 None)) + 1) (replicate sql_max_message_length (CHR 0x00)) else replicate sql_max_message_length (CHR 0x00)"
  have g: "success (dg_rc (dg 1 b))" "dg_state (dg 1 b) = st @ [CHR 0x00]" "dg_native (dg 1 b) = native" "dg_total (dg 1 b) = int (length msg)"
    "n > 0 \<Longrightarrow> dg_written (dg 1 (Some n)) = take (nat n - 1) msg @ [CHR 0x00]" for b n using assms(1) by (auto simp: reports_def Let_def)
  have st: "length st = 5" "CHR 0x00 \<notin> set st" "CHR 0x00 \<notin> set msg" using assms(1) by (auto simp: reports_def)
  have m: "?message = replicate ?n (CHR 0x00)"
    using g(1,4) by (auto simp: resize_chars_def sql_max_message_length_def min_def simp flip: replicate_add)
  have n: "to_smallint (int ?n) = int ?n" using assms(2) by (intro to_smallint_id) auto
  have w: "dg_written (dg 1 (Some (int ?n))) = msg @ [CHR 0x00]" using g(5) [of "int ?n"] by auto
  have "dg_rc (dg 1 None) \<noteq> Sql_no_data" using g(1) [of None] by auto
  then have "recent_error dg 0 ''00000'' = Some (diag_status (msg @ CHR 0x00 # replicate (?n - Suc (length msg)) (CHR 0x00)) ''00000'' (dg 1 (Some (int ?n))))"
    unfolding recent_error_def m Let_def length_replicate n using g(1) w by auto
  then show ?thesis
    using st g(2,3) by (simp add: database_error_def diag_status_def Let_def sqlchar_size_terminated numeral_eq_Suc)
qed

text \<open>A driver with a message of five characters, and one with none.\<close>

definition demo_diag :: "string \<Rightarrow> diag_source" where
  "demo_diag msg = (\<lambda>i b. \<lparr>dg_rc = Sql_success, dg_state = ''42S02'' @ [CHR 0x00], dg_native = 7,
     dg_written = (case b of None \<Rightarrow> [] | Some n \<Rightarrow> take (nat n - 1) msg @ [CHR 0x00]), dg_total = int (length msg)\<rparr>)"

theorem database_error_tells_witness:
  "database_error (demo_diag ''table'') ''db: '' = Some (''db: 42S02: table '', 7, ''42S02'') \<and>
   (\<exists>t. database_error (demo_diag []) ''db: '' = Some (t, 7, ''42S02'') \<and> length t = 523)"
proof -
  have r: "reports (demo_diag ''table'') ''42S02'' 7 ''table''" "reports (demo_diag []) ''42S02'' 7 []"
    by (simp_all add: reports_def demo_diag_def)
  show ?thesis using database_error_tells [OF r(1), of "''db: ''"] database_error_tells [OF r(2), of "''db: ''"] by simp
qed

text \<open>When the driver cannot give the record, the text is only where the error was thrown, and the state stays \<^verbatim>\<open>00000\<close>.\<close>

theorem database_error_without_record:
  assumes "dg_rc (dg 1 None) \<noteq> Sql_no_data" and "\<And>n. \<not> success (dg_rc (dg 1 (Some n))) \<and> dg_written (dg 1 (Some n)) = []"
  shows "database_error dg info = Some (info, 0, ''00000'')"
  using assms by (simp add: database_error_def recent_error_def Let_def)

end
