(* ===== verification/Db_Lists.thy ===== *)
theory Db_Lists
  imports Db_Result
begin

text \<open>
  The free functions of \<^verbatim>\<open>nanodbc\<close>: executing without a statement of one's own, and listing data sources
  and drivers. Local objects are destroyed when their scope is left.
\<close>

section \<open>Definitions\<close>

text \<open>The result of \<^verbatim>\<open>execute\<close> keeps the local statement alive; an exception destroys it.\<close>

definition free_execute :: "odbc \<Rightarrow> bool \<Rightarrow> nat \<Rightarrow> string \<Rightarrow> int \<Rightarrow> int \<Rightarrow> nat dbm" where
  "free_execute D nd conn query batch timeout = db_bind stmt_create (\<lambda>a.
     db_catch (execute_direct D nd a conn query batch timeout) (\<lambda>e. db_then (stmt_destroy D a) (db_throw e)))"

definition free_just_execute :: "odbc \<Rightarrow> nat \<Rightarrow> string \<Rightarrow> int \<Rightarrow> int \<Rightarrow> unit dbm" where
  "free_just_execute D conn query batch timeout = db_bind stmt_create (\<lambda>a.
     db_finally (db_then (just_execute_direct D a conn query batch timeout 0) (db_return ())) (stmt_destroy D a))"

definition free_prepare :: "odbc \<Rightarrow> nat \<Rightarrow> string \<Rightarrow> int \<Rightarrow> unit dbm" where
  "free_prepare D a query timeout = db_bind (stmt_get a) (\<lambda>t. stmt_prepare_on D a (st_conn t) query timeout)"

text \<open>Asking for one entry after the other; only plain success counts.\<close>

partial_function (option) list_loop :: "odbc \<Rightarrow> (orientation \<Rightarrow> sql_call) \<Rightarrow> sql_call list \<Rightarrow> orientation \<Rightarrow> (string \<times> string) list
    \<Rightarrow> (sql_call list \<times> retcode \<times> (string \<times> string) list) option" where
  "list_loop D call calls dir acc =
     (let calls' = calls @ [call dir] in
      if od_rc D calls' = Sql_success then list_loop D call calls' Fetch_next (acc @ [od_text D calls'])
      else Some (calls', od_rc D calls', acc))"

definition list_entries :: "odbc \<Rightarrow> bool \<Rightarrow> (handle \<Rightarrow> orientation \<Rightarrow> sql_call) \<Rightarrow> (string \<times> string) list dbm" where
  "list_entries D nd call = db_bind conn_create (\<lambda>env. db_finally
     (db_then (conn_allocate D nd env) (db_bind (conn_get env) (\<lambda>c. db_then (db_assert nd (cn_env c \<noteq> 0))
       (db_bind (db_gets db_calls) (\<lambda>calls. case list_loop D (call (cn_env c)) calls Fetch_first [] of
            None \<Rightarrow> db_fail Db_loops
          | Some (calls', rc, entries) \<Rightarrow> db_then (db_modify (\<lambda>s. s\<lparr>db_calls := calls'\<rparr>))
              (if rc = Sql_no_data then db_return entries else db_throw (Database_error (cn_env c) Handle_env)))))))
     (conn_destroy D env))"

definition list_datasources :: "odbc \<Rightarrow> bool \<Rightarrow> (string \<times> string) list dbm" where
  "list_datasources D nd = db_bind (list_entries D nd Data_sources) (\<lambda>es. db_return (map (\<lambda>(n, d). (cstr n, cstr d)) es))"

text \<open>
  Splitting \<^verbatim>\<open>Key1=Value1\0Key2=Value2\0\<close>: the position of \<^verbatim>\<open>=\<close> is compared with
  the end of the whole text, not with the end of the pair, so a pair without it is taken apart at its end, which
  is undefined.
\<close>

function split_attributes :: "string \<Rightarrow> (string \<times> string) list option" where
  "split_attributes s =
     (if CHR 0x00 \<notin> set s then Some []
      else let pair = takeWhile (\<lambda>c. c \<noteq> CHR 0x00) s; rest = tl (dropWhile (\<lambda>c. c \<noteq> CHR 0x00) s) in
        if CHR ''='' \<notin> set pair then None
        else map_option ((#) (takeWhile (\<lambda>c. c \<noteq> CHR ''='') pair, tl (dropWhile (\<lambda>c. c \<noteq> CHR ''='') pair))) (split_attributes rest))"
  by pat_completeness auto

lemma split_rest_shorter: "CHR 0x00 \<in> set s \<Longrightarrow> length (tl (dropWhile (\<lambda>c. c \<noteq> CHR 0x00) s)) < length s"
  by (induction s) auto

termination split_attributes
  by (relation "measure length") (use split_rest_shorter in auto)

declare split_attributes.simps [simp del]

definition driver_entry :: "string \<times> string \<Rightarrow> (string \<times> (string \<times> string) list) dbm" where
  "driver_entry e = (case split_attributes (snd e) of
       None \<Rightarrow> db_fail Db_undefined
     | Some kvs \<Rightarrow> if length (snd e) > 1024 then db_fail Db_undefined else db_return (cstr (fst e), kvs))"

fun driver_entries :: "(string \<times> string) list \<Rightarrow> (string \<times> (string \<times> string) list) list dbm" where
  "driver_entries [] = db_return []"
| "driver_entries (e # es) = db_bind (driver_entry e) (\<lambda>x. db_bind (driver_entries es) (\<lambda>xs. db_return (x # xs)))"

definition list_drivers :: "odbc \<Rightarrow> bool \<Rightarrow> (string \<times> (string \<times> string) list) list dbm" where
  "list_drivers D nd = db_bind (list_entries D nd Drivers) driver_entries"

definition join_attributes :: "(string \<times> string) list \<Rightarrow> string" where
  "join_attributes kvs = concat (map (\<lambda>(k, v). k @ CHR ''='' # v @ [CHR 0x00]) kvs)"

section \<open>Lemmas\<close>

lemma takeWhile_before: "x \<notin> set xs \<Longrightarrow> takeWhile (\<lambda>c. c \<noteq> x) (xs @ x # ys) = xs \<and> dropWhile (\<lambda>c. c \<noteq> x) (xs @ x # ys) = x # ys"
  by (induction xs) auto

lemma split_pair:
  assumes "CHR ''='' \<notin> set k" and "CHR 0x00 \<notin> set k" and "CHR 0x00 \<notin> set v"
  shows "split_attributes (k @ CHR ''='' # v @ CHR 0x00 # rest) = map_option ((#) (k, v)) (split_attributes rest)"
proof -
  let ?p = "k @ CHR ''='' # v"
  have nul: "CHR 0x00 \<notin> set ?p" using assms by auto
  have "takeWhile (\<lambda>c. c \<noteq> CHR 0x00) (?p @ CHR 0x00 # rest) = ?p" "dropWhile (\<lambda>c. c \<noteq> CHR 0x00) (?p @ CHR 0x00 # rest) = CHR 0x00 # rest"
    using takeWhile_before [OF nul] by simp_all
  moreover have "takeWhile (\<lambda>c. c \<noteq> CHR ''='') ?p = k" "dropWhile (\<lambda>c. c \<noteq> CHR ''='') ?p = CHR ''='' # v"
    using takeWhile_before [OF assms(1)] by simp_all
  ultimately have "split_attributes (?p @ CHR 0x00 # rest) = map_option ((#) (k, v)) (split_attributes rest)"
    by (subst split_attributes.simps) (simp add: Let_def)
  then show ?thesis by simp
qed

section \<open>Properties\<close>

text \<open>
  The attributes of a driver survive: splitting a text of pairs gives the pairs, in order. A pair without \<^verbatim>\<open>=\<close>
  is undefined, and so is an empty one: a second terminator at the end, where the length covers it.
\<close>

theorem driver_attributes_roundtrip:
  assumes "\<And>k v. (k, v) \<in> set kvs \<Longrightarrow> CHR ''='' \<notin> set k \<and> CHR 0x00 \<notin> set k \<and> CHR 0x00 \<notin> set v"
    and "CHR ''='' \<notin> set bad" and "CHR 0x00 \<notin> set bad"
  shows "split_attributes (join_attributes kvs) = Some kvs \<and> split_attributes (join_attributes kvs @ bad @ [CHR 0x00]) = None"
  using assms(1)
proof (induction kvs)
  case Nil
  have "takeWhile (\<lambda>c. c \<noteq> CHR 0x00) (bad @ [CHR 0x00]) = bad" using takeWhile_before [OF assms(3)] by simp
  then have "split_attributes (bad @ [CHR 0x00]) = None" using assms(2) by (subst split_attributes.simps) (simp add: Let_def)
  then show ?case by (simp add: join_attributes_def split_attributes.simps [of "[]"])
next
  case (Cons kv kvs)
  obtain k v where kv: "kv = (k, v)" by (cases kv)
  then have ok: "CHR ''='' \<notin> set k" "CHR 0x00 \<notin> set k" "CHR 0x00 \<notin> set v" using Cons.prems [of k v] by simp_all
  have join: "join_attributes (kv # kvs) = k @ CHR ''='' # v @ CHR 0x00 # join_attributes kvs" using kv by (simp add: join_attributes_def)
  have "split_attributes (join_attributes kvs) = Some kvs" "split_attributes (join_attributes kvs @ bad @ [CHR 0x00]) = None"
    using Cons.IH Cons.prems by auto
  then show ?case using split_pair [OF ok, of "join_attributes kvs"] split_pair [OF ok, of "join_attributes kvs @ bad @ [CHR 0x00]"]
    unfolding join by (simp add: kv)
qed

theorem driver_attributes_roundtrip_witness:
  "split_attributes (join_attributes [(''Driver'', ''libx.so''), (''Setup'', ''a=b'')]) = Some [(''Driver'', ''libx.so''), (''Setup'', ''a=b'')] \<and>
   split_attributes (join_attributes [(''Driver'', ''libx.so'')] @ [] @ [CHR 0x00]) = None"
proof
  show "split_attributes (join_attributes [(''Driver'', ''libx.so''), (''Setup'', ''a=b'')]) = Some [(''Driver'', ''libx.so''), (''Setup'', ''a=b'')]"
    by (rule conjunct1 [OF driver_attributes_roundtrip [of _ "[]"]]) auto
  show "split_attributes (join_attributes [(''Driver'', ''libx.so'')] @ [] @ [CHR 0x00]) = None"
    by (rule conjunct2 [OF driver_attributes_roundtrip [of _ "[]"]]) auto
qed

text \<open>
  \<^verbatim>\<open>just_execute\<close> leaves nothing behind: its statement is allocated, executed, cancelled and freed, in
  this order, whether the query succeeds or throws.
\<close>

theorem just_execute_cleans_up:
  assumes "\<And>x. (\<And>h q. x \<noteq> Exec_direct h q) \<Longrightarrow> accepts D x" and "db_conns s conn = Some c" and "cn_connected c" and "conn < db_next s"
    and "od_handle D (db_calls s @ [Alloc_handle Handle_stmt (cn_dbc c)]) = h" and "h \<noteq> 0"
    and "od_rc D (db_calls s @ [Alloc_handle Handle_stmt (cn_dbc c), Set_stmt_attr h Attr_paramset_size batch, Set_stmt_attr h Attr_query_timeout timeout,
      Exec_direct h query]) = rc"
  shows "\<exists>s'. free_just_execute D conn query batch timeout s =
      (s', if success rc \<or> rc = Sql_no_data \<or> rc = Sql_still_executing then Inr () else Inl (Db_throw (Database_error h Handle_stmt))) \<and>
    db_calls s' = db_calls s @ [Alloc_handle Handle_stmt (cn_dbc c), Set_stmt_attr h Attr_paramset_size batch, Set_stmt_attr h Attr_query_timeout timeout,
      Exec_direct h query, Cancel h, Free_stmt h Sql_reset_params, Free_handle Handle_stmt h]"
proof -
  have acc: "success (od_rc D (cs @ [x]))" if "\<And>h q. x \<noteq> Exec_direct h q" for cs x using assms(1) [of x] that by (simp add: accepts_def)
  have acc': "success (od_rc D (cs @ [y, x]))" "success (od_rc D (cs @ [y, z, x]))" "success (od_rc D (cs @ [y, z, u, v, w, x', x]))"
    if "\<And>h q. x \<noteq> Exec_direct h q" for cs x y z u v w x'
    using acc [OF that, of "cs @ [y]"] acc [OF that, of "cs @ [y, z]"] acc [OF that, of "cs @ [y, z, u, v, w, x']"] by simp_all
  show ?thesis
    using assms(2-7) acc acc'
    by (cases "success rc \<or> rc = Sql_no_data \<or> rc = Sql_still_executing")
      (simp_all add: free_just_execute_def stmt_create_def conn_create_def just_execute_direct_def stmt_open_def stmt_close_def stmt_connected_def
        stmt_empty_def conn_empty_def use_event_def disable_async_def stmt_timeout_def stmt_destroy_def reset_parameters_def stmt_free_def
        deallocate_handle_def set_stmt_def)
qed

theorem just_execute_cleans_up_witness:
  "db_calls (fst (free_just_execute willing 1 ''drop'' 1 0 connected_db)) =
     [Alloc_handle Handle_stmt 2, Set_stmt_attr 1 Attr_paramset_size 1, Set_stmt_attr 1 Attr_query_timeout 0, Exec_direct 1 ''drop'', Cancel 1,
      Free_stmt 1 Sql_reset_params, Free_handle Handle_stmt 1]"
  using just_execute_cleans_up [of willing connected_db 1 "conn_empty\<lparr>cn_env := 1, cn_dbc := 2, cn_connected := True\<rparr>" 1 1 0 "''drop''" Sql_success]
  by (auto simp: connected_db_def accepts_def willing_def)

end
