(* ===== verification/Db_Tvp.thy ===== *)
theory Db_Tvp
  imports Db_Result
begin

text \<open>
  \<^verbatim>\<open>nanodbc::table_valued_parameter\<close>: a parameter that is a table. It is opened on a
  parameter of a statement, whose columns it asks the driver for, has arrays bound to its columns, and is
  closed; while it is open the statement refuses to bind parameters of its own. It holds its
  statement weakly: a statement that is gone is not in the store.

  The name of the table's type is handed to the driver as it was received; text that does not convert to wide
  characters, for which opening throws, is left out.
\<close>

section \<open>Definitions\<close>

definition sql_ss_table :: int where "sql_ss_table = -153"
definition sql_default_param :: int where "sql_default_param = -5"
definition sql_ca_ss_type_name :: int where "sql_ca_ss_type_name = 1227"
definition sql_c_sshort :: int where "sql_c_sshort = -15"

definition tvp_get :: "nat \<Rightarrow> tvp_impl dbm" where
  "tvp_get x = db_bind (db_gets db_tvps) (\<lambda>m. the_obj (m x))"

definition tvp_put :: "nat \<Rightarrow> (tvp_impl \<Rightarrow> tvp_impl) \<Rightarrow> unit dbm" where
  "tvp_put x f = db_bind (tvp_get x) (\<lambda>v. db_modify (db_tvps_update (\<lambda>m. m(x \<mapsto> f v))))"

definition tvp_empty :: tvp_impl where
  "tvp_empty = \<lparr>tv_stmt = None, tv_row_count = 0, tv_name = [], tv_param_index = 0, tv_open = False, tv_bind_len_or_null = Map.empty,
     tv_string_data = Map.empty, tv_binary_data = Map.empty, tv_param_descr = Map.empty\<rparr>"

definition tvp_create :: "nat dbm" where
  "tvp_create = db_bind db_new (\<lambda>x. db_then (db_modify (db_tvps_update (\<lambda>m. m(x \<mapsto> tvp_empty)))) (db_return x))"

text \<open>\<^verbatim>\<open>weak_ptr::lock\<close>, and its result where it is asserted.\<close>

definition tvp_lock :: "nat \<Rightarrow> nat option dbm" where
  "tvp_lock x = db_bind (tvp_get x) (\<lambda>v. db_gets (\<lambda>s. case tv_stmt v of None \<Rightarrow> None | Some a \<Rightarrow> if db_stmts s a = None then None else Some a))"

definition tvp_stmt :: "bool \<Rightarrow> nat \<Rightarrow> nat dbm" where
  "tvp_stmt nd x = db_bind (tvp_lock x) (\<lambda>st. db_then (db_assert nd (st \<noteq> None)) (the_obj st))"

text \<open>The statement's side; \<^verbatim>\<open>emplace\<close> keeps an entry that is there.\<close>

definition open_tvp :: "odbc \<Rightarrow> bool \<Rightarrow> nat \<Rightarrow> nat \<Rightarrow> int \<Rightarrow> unit dbm" where
  "open_tvp D nd a x idx = db_bind (stmt_get a) (\<lambda>t.
     if st_open_tvp t then db_throw (Programming_error ''tvp already opened'')
     else db_bind (prepare_bind D nd a idx 1 PARAM_IN) (\<lambda>p.
       if bp_type p \<noteq> sql_ss_table then db_throw (Programming_error ''invalid tvp param type'')
       else stmt_put a (\<lambda>t. t\<lparr>st_tvp_data := (if st_tvp_data t idx = None then (st_tvp_data t)(idx \<mapsto> x) else st_tvp_data t), st_open_tvp := True\<rparr>)))"

definition close_tvp :: "nat \<Rightarrow> unit dbm" where
  "close_tvp a = db_bind (stmt_get a) (\<lambda>t.
     if \<not> st_open_tvp t then db_throw (Programming_error ''tvp already closed'') else stmt_put a (\<lambda>t. t\<lparr>st_open_tvp := False\<rparr>))"

definition tvp_close :: "odbc \<Rightarrow> nat \<Rightarrow> unit dbm" where
  "tvp_close D x = db_bind (tvp_get x) (\<lambda>v. db_when (tv_open v) (db_bind (tvp_lock x) (\<lambda>st.
     db_then (case st of None \<Rightarrow> db_return () | Some a \<Rightarrow> db_when (0 < tv_row_count v) (stmt_ok D a (\<lambda>h. Set_stmt_attr h Attr_param_focus 0)))
      (db_then (tvp_put x (\<lambda>v. v\<lparr>tv_row_count := 0, tv_name := [], tv_param_index := 0, tv_open := False\<rparr>))
       (case st of None \<Rightarrow> db_return () | Some a \<Rightarrow> close_tvp a)))))"

definition tvp_destroy :: "odbc \<Rightarrow> nat \<Rightarrow> unit dbm" where
  "tvp_destroy D x = db_catch (tvp_close D x) (\<lambda>_. db_return ())"

text \<open>The name of the table's type: its length is asked for first, and the text is written into a buffer of that length.\<close>

definition prepare_tvp_name :: "odbc \<Rightarrow> bool \<Rightarrow> nat \<Rightarrow> unit dbm" where
  "prepare_tvp_name D nd x = db_bind (tvp_stmt nd x) (\<lambda>a. db_then (stmt_ok D a (\<lambda>h. Get_stmt_attr h Attr_imp_param_desc))
     (db_bind (written (od_handle D)) (\<lambda>hipd. db_bind (tvp_get x) (\<lambda>v.
       db_then (sql_ok D (Get_desc_field hipd (tv_param_index v + 1) sql_ca_ss_type_name None) hipd Handle_desc) (db_bind (written (od_number D)) (\<lambda>len.
         if len < 0 then db_throw Std_length_error
         else let n = nat len; old = pad_to n (CHR 0x00) (take n (tv_name v)) in db_then (tvp_put x (\<lambda>v. v\<lparr>tv_name := old\<rparr>))
          (db_then (sql_ok D (Get_desc_field hipd (tv_param_index v + 1) sql_ca_ss_type_name (Some (n + 1))) hipd Handle_desc) (db_bind (written (od_text D)) (\<lambda>(name, _).
            let w = take n (name @ [CHR 0x00]) in tvp_put x (\<lambda>v. v\<lparr>tv_name := w @ drop (length w) old\<rparr>))))))))))"

text \<open>
  The columns of the type, one description for each row fetched: a cell that is null is not written, so the
  value of the row before stays; the size is written to the lower half of its variable.
\<close>

definition bound_cell :: "(nat \<Rightarrow> (int \<times> bytes) list) \<Rightarrow> nat \<Rightarrow> bytes option" where
  "bound_cell cells c = (case cells c of [] \<Rightarrow> None | (ind, b) # _ \<Rightarrow> if ind = sql_null_data then None else Some b)"

definition read_descr :: "(nat \<Rightarrow> (int \<times> bytes) list) \<Rightarrow> bound_parameter \<Rightarrow> bound_parameter" where
  "read_descr cells p = p\<lparr>
     bp_type := (case bound_cell cells 4 of None \<Rightarrow> bp_type p | Some b \<Rightarrow> le_int (pad_to 2 0 (take 2 b))),
     bp_size := (case bound_cell cells 6 of None \<Rightarrow> bp_size p | Some b \<Rightarrow> bp_size p div 2 ^ 32 * 2 ^ 32 + le_nat (pad_to 4 0 (take 4 b))),
     bp_scale := (case bound_cell cells 8 of None \<Rightarrow> bp_scale p | Some b \<Rightarrow> le_int (pad_to 2 0 (take 2 b)))\<rparr>"

partial_function (option) tvp_fetch :: "odbc \<Rightarrow> handle \<Rightarrow> sql_call list \<Rightarrow> nat \<Rightarrow> bound_parameter \<Rightarrow> (int \<rightharpoonup> bound_parameter)
    \<Rightarrow> (sql_call list \<times> (int \<rightharpoonup> bound_parameter)) option" where
  "tvp_fetch D h calls n p descr =
     (let calls' = calls @ [Fetch h]; p' = (read_descr (od_cells D calls') p)\<lparr>bp_index := int n mod 2 ^ 16\<rparr> in
      if od_rc D calls' \<noteq> Sql_success then Some (calls', descr)
      else tvp_fetch D h calls' (Suc n) p' (descr(to_smallint (int n) \<mapsto> p')))"

definition prepare_tvp_param_all :: "odbc \<Rightarrow> bool \<Rightarrow> nat \<Rightarrow> unit dbm" where
  "prepare_tvp_param_all D nd x = db_bind (tvp_stmt nd x) (\<lambda>a. db_bind (stmt_get a) (\<lambda>t. db_bind (stmt_create_on D (st_conn t)) (\<lambda>local. db_finally
     (db_bind (tvp_get x) (\<lambda>v.
      db_then (stmt_ok D local (\<lambda>h. Set_stmt_attr h Attr_name_scope 1))
     (db_then (stmt_ok D local (\<lambda>h. Columns h None None (Some (cstr (tv_name v))) None))
     (db_then (stmt_ok D local (\<lambda>h. Bind_col h 5 sql_c_sshort True 0))
     (db_then (stmt_ok D local (\<lambda>h. Bind_col h 7 sql_c_slong True 0))
     (db_then (stmt_ok D local (\<lambda>h. Bind_col h 9 sql_c_sshort True 0))
     (db_bind (stmt_get local) (\<lambda>t. db_bind (db_gets db_calls) (\<lambda>calls.
       case tvp_fetch D (st_stmt t) calls 0 (parameter_empty\<lparr>bp_iotype := 1\<rparr>) (tv_param_descr v) of
         None \<Rightarrow> db_fail Db_loops
       | Some (calls', descr) \<Rightarrow> db_then (db_modify (\<lambda>s. s\<lparr>db_calls := calls'\<rparr>)) (tvp_put x (\<lambda>v. v\<lparr>tv_param_descr := descr\<rparr>)))))))))))
     (stmt_destroy D local))))"

definition tvp_open :: "odbc \<Rightarrow> bool \<Rightarrow> nat \<Rightarrow> nat \<Rightarrow> int \<Rightarrow> nat \<Rightarrow> unit dbm" where
  "tvp_open D nd x a idx rows =
     db_then (tvp_close D x) (db_then (open_tvp D nd a x idx)
     (db_then (tvp_put x (\<lambda>v. v\<lparr>tv_open := True, tv_stmt := Some a, tv_row_count := rows, tv_param_index := idx\<rparr>))
     (db_then (prepare_tvp_name D nd x) (db_then (prepare_tvp_param_all D nd x)
     (db_then (stmt_put a (\<lambda>t. t\<lparr>st_bind_len_or_null := (st_bind_len_or_null t)(idx :=
          map_option (\<lambda>xs. xs[0 := if 0 < rows then int rows else sql_default_param]) (st_bind_len_or_null t idx))\<rparr>))
     (db_bind (tvp_get x) (\<lambda>v. db_then (stmt_ok D a (\<lambda>h. Bind_table h (idx + 1) rows (tv_name v)))
       (if rows = 0 then db_return () else stmt_ok D a (\<lambda>h. Set_stmt_attr h Attr_param_focus (idx + 1))))))))))"

section \<open>Binding arrays to its columns\<close>

definition tvp_prepare_bind :: "bool \<Rightarrow> nat \<Rightarrow> int \<Rightarrow> nat \<Rightarrow> bound_parameter dbm" where
  "tvp_prepare_bind nd x idx batch = db_then (db_assert nd (idx \<ge> 0)) (db_bind (tvp_get x) (\<lambda>v. case tv_param_descr v idx of
       None \<Rightarrow> db_throw (Programming_error ''invalid param index'')
     | Some p \<Rightarrow> db_then (tvp_put x (\<lambda>v. v\<lparr>tv_bind_len_or_null := (tv_bind_len_or_null v)(idx \<mapsto> replicate (max batch 8) sql_null_data)\<rparr>))
         (db_return (p\<lparr>bp_index := idx, bp_iotype := 1\<rparr>))))"

definition tvp_set_indicators :: "nat \<Rightarrow> int \<Rightarrow> nat \<Rightarrow> (nat \<Rightarrow> int option) \<Rightarrow> unit dbm" where
  "tvp_set_indicators x idx batch f = tvp_put x (\<lambda>v. v\<lparr>tv_bind_len_or_null := (tv_bind_len_or_null v)(idx :=
     map_option (\<lambda>xs. map (\<lambda>i. if i < batch then (case f i of None \<Rightarrow> xs ! i | Some w \<Rightarrow> w) else xs ! i) [0..<length xs])
       (tv_bind_len_or_null v idx))\<rparr>)"

definition tvp_bind_parameter :: "odbc \<Rightarrow> bool \<Rightarrow> nat \<Rightarrow> bound_parameter \<Rightarrow> int \<Rightarrow> nat \<Rightarrow> unit dbm" where
  "tvp_bind_parameter D nd x p ctype buf_value_size =
     db_then (db_assert nd (buf_value_size > 0 \<or> bp_size p > 0)) (db_bind (tvp_stmt nd x) (\<lambda>a.
       let value_size = (if buf_value_size = 0 then bp_size p else buf_value_size);
           param_size = (if value_size > bp_size p then 0 else bp_size p)
       in stmt_ok D a (\<lambda>h. Bind_parameter h (bp_index p + 1) (bp_iotype p) ctype (bp_type p) param_size (bp_scale p) value_size True)))"

definition tvp_bind_parameter_chars :: "odbc \<Rightarrow> bool \<Rightarrow> nat \<Rightarrow> bound_parameter \<Rightarrow> int \<Rightarrow> nat \<Rightarrow> nat \<Rightarrow> unit dbm" where
  "tvp_bind_parameter_chars D nd x p ctype buf_size buf_value_size = db_bind (tvp_stmt nd x) (\<lambda>a.
     stmt_ok D a (\<lambda>h. Bind_parameter h (bp_index p + 1) (bp_iotype p) ctype (bp_type p) (bp_size p) (bp_scale p)
       (if buf_value_size > 0 then buf_value_size else bp_size p) (buf_size > 1)))"

text \<open>Arrays must have an element for every row of the table; more are ignored.\<close>

definition tvp_bind_values :: "odbc \<Rightarrow> bool \<Rightarrow> nat \<Rightarrow> ('v \<Rightarrow> 'v \<Rightarrow> bool) \<Rightarrow> int \<Rightarrow> int \<Rightarrow> 'v list \<Rightarrow> bool list option \<Rightarrow> 'v option \<Rightarrow> unit dbm" where
  "tvp_bind_values D nd x equals ctype idx values nulls sentry = db_bind (tvp_get x) (\<lambda>v. let batch = tv_row_count v in
     if length values < batch then db_throw (Programming_error ''invalid batch_size'')
     else db_bind (tvp_prepare_bind nd x idx batch) (\<lambda>p.
       if (case nulls of None \<Rightarrow> False | Some ns \<Rightarrow> length ns < batch) then db_fail Db_undefined
       else db_then (tvp_set_indicators x idx batch (value_indicator equals values nulls sentry (bp_size p)))
         (tvp_bind_parameter D nd x p ctype 0)))"

definition tvp_bind_chars :: "odbc \<Rightarrow> bool \<Rightarrow> nat \<Rightarrow> int \<Rightarrow> string \<Rightarrow> nat \<Rightarrow> nat \<Rightarrow> bool list option \<Rightarrow> string option \<Rightarrow> unit dbm" where
  "tvp_bind_chars D nd x idx values value_size batch_size nulls sentry = db_bind (tvp_get x) (\<lambda>v. let batch = tv_row_count v in
     if batch_size < batch then db_throw (Programming_error ''invalid batch_size'')
     else db_bind (tvp_prepare_bind nd x idx batch) (\<lambda>p.
       if length values < batch * value_size \<or> (case nulls of None \<Rightarrow> False | Some ns \<Rightarrow> sentry = None \<and> length ns < batch) then db_fail Db_undefined
       else db_then (tvp_set_indicators x idx batch (string_indicator values value_size nulls sentry))
         (tvp_bind_parameter_chars D nd x p 1 batch value_size)))"

definition tvp_bind_strings :: "odbc \<Rightarrow> bool \<Rightarrow> nat \<Rightarrow> int \<Rightarrow> string list \<Rightarrow> bool list option \<Rightarrow> string option \<Rightarrow> unit dbm" where
  "tvp_bind_strings D nd x idx values nulls sentry = db_bind (tvp_get x) (\<lambda>v. let batch = tv_row_count v in
     if length values < batch then db_throw (Programming_error ''invalid values.size()'')
     else db_then (tvp_put x (\<lambda>v. if tv_string_data v idx = None then v\<lparr>tv_string_data := (tv_string_data v)(idx \<mapsto> [])\<rparr> else v))
      (db_then (tvp_prepare_bind nd x idx batch)
       (let n = Suc (max_length (take batch values)); data = concat (map (pad_to n (CHR 0x00)) (take batch values))
        in db_then (tvp_put x (\<lambda>v. v\<lparr>tv_string_data := (tv_string_data v)(idx \<mapsto> data)\<rparr>))
          (tvp_bind_chars D nd x idx data n batch nulls sentry))))"

definition tvp_bind_binary :: "odbc \<Rightarrow> bool \<Rightarrow> nat \<Rightarrow> int \<Rightarrow> bytes list \<Rightarrow> bool list option \<Rightarrow> bytes option \<Rightarrow> unit dbm" where
  "tvp_bind_binary D nd x idx values nulls sentry = db_bind (tvp_get x) (\<lambda>v. let batch = tv_row_count v in
     if length values < batch then db_throw (Programming_error ''invalid values.size()'')
     else db_bind (tvp_prepare_bind nd x idx batch) (\<lambda>p. let vs = take batch values; n = max_length vs in
       if (case sentry of Some y \<Rightarrow> list_ex (\<lambda>v. equal_bytes v y = None) vs
           | None \<Rightarrow> (case nulls of None \<Rightarrow> False | Some ns \<Rightarrow> length ns < batch)) then db_fail Db_undefined
       else db_then (tvp_put x (\<lambda>v. v\<lparr>tv_binary_data := (tv_binary_data v)(idx \<mapsto> concat (map (pad_to n 0) vs))\<rparr>))
        (db_then (tvp_set_indicators x idx batch (binary_indicator vs nulls sentry))
         (tvp_bind_parameter D nd x p (-2) n))))"

definition tvp_bind_null :: "odbc \<Rightarrow> bool \<Rightarrow> nat \<Rightarrow> int \<Rightarrow> unit dbm" where
  "tvp_bind_null D nd x idx = db_bind (tvp_get x) (\<lambda>v. db_bind (tvp_prepare_bind nd x idx (tv_row_count v)) (\<lambda>p. db_bind (tvp_stmt nd x) (\<lambda>a.
     stmt_ok D a (\<lambda>h. Bind_parameter h (bp_index p + 1) (bp_iotype p) 1 (bp_type p) (bp_size p) 0 0 True))))"

definition tvp_describe_parameters :: "nat \<Rightarrow> int list \<Rightarrow> int list \<Rightarrow> nat list \<Rightarrow> int list \<Rightarrow> unit dbm" where
  "tvp_describe_parameters x idx type len scale =
     (if length idx \<noteq> length type \<or> length idx \<noteq> length len \<or> length idx \<noteq> length scale
      then db_throw (Programming_error ''parameter description arrays are of different size'')
      else db_each (\<lambda>i. tvp_put x (\<lambda>v. v\<lparr>tv_param_descr := (tv_param_descr v)(idx ! i \<mapsto>
             \<lparr>bp_size = len ! i, bp_index = int i mod 2 ^ 16, bp_iotype = 1, bp_type = type ! i, bp_scale = scale ! i\<rparr>)\<rparr>)) [0..<length idx])"

section \<open>Who is open\<close>

text \<open>
  The invariant: a statement is marked exactly when one table-valued parameter is open on it, and
  then only one is. New addresses are not in use.
\<close>

definition open_on :: "db \<Rightarrow> nat \<Rightarrow> nat set" where
  "open_on s a = {x. \<exists>v. db_tvps s x = Some v \<and> tv_open v \<and> tv_stmt v = Some a}"

definition marked :: "db \<Rightarrow> nat \<Rightarrow> bool option" where
  "marked s a = map_option st_open_tvp (db_stmts s a)"

definition tvp_inv :: "db \<Rightarrow> bool" where
  "tvp_inv s \<longleftrightarrow> (\<forall>a. (marked s a = Some True \<longrightarrow> (\<exists>x. open_on s a = {x})) \<and> (marked s a = Some False \<longrightarrow> open_on s a = {})) \<and>
     (\<forall>a \<ge> db_next s. marked s a = None \<and> db_tvps s a = None \<and> open_on s a = {})"

text \<open>Computations that change nothing the invariant speaks of, and those that keep it.\<close>

definition same_open :: "db \<Rightarrow> db \<Rightarrow> bool" where
  "same_open s s' \<longleftrightarrow> db_tvps s' = db_tvps s \<and> db_next s' = db_next s \<and> marked s' = marked s"

definition keeps_inv :: "db \<Rightarrow> db \<Rightarrow> bool" where
  "keeps_inv s s' \<longleftrightarrow> (tvp_inv s \<longrightarrow> tvp_inv s')"

interpretation so: db_preorder same_open
  by unfold_locales (simp_all add: same_open_def)

interpretation ki: db_preorder keeps_inv
  by unfold_locales (simp_all add: keeps_inv_def)

lemma same_open_keeps: "same_open s s' \<Longrightarrow> keeps_inv s s'"
  by (simp add: same_open_def keeps_inv_def tvp_inv_def open_on_def)

lemma keeps_same: "within same_open m \<Longrightarrow> within keeps_inv m"
  by (simp add: within_def same_open_keeps)

named_theorems same_open \<open>computations that open and close no table-valued parameter\<close>
named_theorems keeps_inv \<open>computations that keep the invariant of table-valued parameters\<close>

lemmas so.within_rules [same_open] so.within_finally [same_open]
lemmas ki.within_rules [keeps_inv] ki.within_finally [keeps_inv]

lemma same_open_sql [same_open]: "within same_open (sql D c)" "within same_open (sql_ok D c h ht)"
  by (simp_all add: within_def same_open_def marked_def fun_eq_iff)

lemma same_open_stmt_put [same_open]: "(\<And>t. st_open_tvp (f t) = st_open_tvp t) \<Longrightarrow> within same_open (stmt_put a f)"
  by (auto simp: within_def same_open_def marked_def fun_eq_iff stmt_put_def stmt_get_def the_obj_def db_bind_def split: option.split)

lemma same_open_stmt_ok [same_open]: "within same_open (stmt_ok D a call)"
  unfolding stmt_ok_def by (intro same_open)

lemma same_open_async [same_open]: "within same_open (disable_async D a)" "within same_open (enable_async D a e)" "within same_open (use_event D a e)"
proof -
  show "within same_open (disable_async D a)" "within same_open (enable_async D a e)"
    unfolding disable_async_def enable_async_def by (intro same_open; simp)+
  then show "within same_open (use_event D a e)" unfolding use_event_def by (intro same_open)
qed

lemma same_open_prepare_bind [same_open]: "within same_open (prepare_bind D nd a idx batch dir)"
  unfolding prepare_bind_def describe_param_def Let_def by (intro same_open; simp)

lemma same_open_modify [same_open]: "(\<And>s. db_tvps (f s) = db_tvps s \<and> db_next (f s) = db_next s \<and> db_stmts (f s) = db_stmts s) \<Longrightarrow> within same_open (db_modify f)"
  by (simp add: within_def same_open_def marked_def fun_eq_iff)

lemma same_open_gets [same_open]: "within same_open (tvp_get x)" "within same_open (tvp_lock x)" "within same_open (tvp_stmt nd x)"
  unfolding tvp_get_def tvp_lock_def tvp_stmt_def by (intro same_open)+

text \<open>Opening and closing, on states.\<close>

lemma open_on_update:
  "open_on (s\<lparr>db_tvps := (db_tvps s)(x \<mapsto> v)\<rparr>) a = (if tv_open v \<and> tv_stmt v = Some a then insert x (open_on s a) else open_on s a - {x})"
  by (auto simp: open_on_def)

lemma inv_update:
  assumes "tvp_inv s" and "db_tvps s x = Some v" and "tv_open v' = tv_open v" and "tv_stmt v' = tv_stmt v"
  shows "tvp_inv (s\<lparr>db_tvps := (db_tvps s)(x \<mapsto> v')\<rparr>)"
proof -
  have "open_on (s\<lparr>db_tvps := (db_tvps s)(x \<mapsto> v')\<rparr>) = open_on s"
    using assms(2-4) by (auto simp: fun_eq_iff open_on_update) (auto simp: open_on_def)
  moreover have "x < db_next s" using assms(1,2) by (auto simp: tvp_inv_def not_le [symmetric])
  ultimately show ?thesis using assms(1) by (simp add: tvp_inv_def marked_def)
qed

lemma inv_close_gone:
  assumes "tvp_inv s" and "db_tvps s x = Some v" and "\<And>b. tv_stmt v = Some b \<Longrightarrow> db_stmts s b = None" and "\<not> tv_open v'"
  shows "tvp_inv (s\<lparr>db_tvps := (db_tvps s)(x \<mapsto> v')\<rparr>)"
proof -
  have "open_on (s\<lparr>db_tvps := (db_tvps s)(x \<mapsto> v')\<rparr>) a = open_on s a" if "marked s a \<noteq> None" for a
    using assms(2-4) that by (auto simp: open_on_update) (auto simp: open_on_def marked_def)
  moreover have "x < db_next s" using assms(1,2) by (auto simp: tvp_inv_def not_le [symmetric])
  ultimately show ?thesis using assms(1,4) by (simp add: tvp_inv_def marked_def open_on_update) metis
qed

lemma inv_close:
  assumes "tvp_inv s" and "db_tvps s x = Some v" and "tv_open v" and "tv_stmt v = Some a" and "db_stmts s a = Some t" and "\<not> tv_open v'" and "\<not> st_open_tvp t'"
  shows "st_open_tvp t" "tvp_inv (s\<lparr>db_tvps := (db_tvps s)(x \<mapsto> v'), db_stmts := (db_stmts s)(a \<mapsto> t')\<rparr>)"
proof -
  have on: "x \<in> open_on s a" using assms(2-4) by (simp add: open_on_def)
  then show "st_open_tvp t" using assms(1,5) by (force simp: tvp_inv_def marked_def)
  then have only: "open_on s a = {x}" using assms(1,5) on by (force simp: tvp_inv_def marked_def)
  let ?s = "s\<lparr>db_tvps := (db_tvps s)(x \<mapsto> v'), db_stmts := (db_stmts s)(a \<mapsto> t')\<rparr>"
  have "open_on ?s b = (if b = a then {} else open_on s b)" for b
  proof -
    have "open_on ?s b = open_on s b - {x}" using assms(6) open_on_update [of s x v' b] by (simp add: open_on_def)
    moreover have "b \<noteq> a \<Longrightarrow> x \<notin> open_on s b" using assms(2,4) by (simp add: open_on_def)
    ultimately show ?thesis using only by simp
  qed
  moreover have "x < db_next s" "a < db_next s" using assms(1,2,5) by (force simp: tvp_inv_def marked_def not_le [symmetric])+
  ultimately show "tvp_inv ?s" using assms(1,7) by (simp add: tvp_inv_def marked_def)
qed

lemma inv_open:
  assumes "tvp_inv s" and "db_tvps s x = Some v" and "\<not> tv_open v" and "db_stmts s a = Some t" and "\<not> st_open_tvp t"
    and "tv_open v'" and "tv_stmt v' = Some a" and "st_open_tvp t'"
  shows "tvp_inv (s\<lparr>db_stmts := (db_stmts s)(a \<mapsto> t'), db_tvps := (db_tvps s)(x \<mapsto> v')\<rparr>)"
proof -
  let ?s = "s\<lparr>db_stmts := (db_stmts s)(a \<mapsto> t'), db_tvps := (db_tvps s)(x \<mapsto> v')\<rparr>"
  have none: "open_on s a = {}" using assms(1,4,5) by (simp add: tvp_inv_def marked_def)
  have "open_on ?s b = (if b = a then {x} else open_on s b)" for b
  proof -
    have "open_on ?s b = (if b = a then insert x (open_on s b) else open_on s b - {x})"
      using assms(6,7) open_on_update [of s x v' b] by (auto simp: open_on_def)
    moreover have "x \<notin> open_on s b" using assms(2,3) by (simp add: open_on_def)
    ultimately show ?thesis using none by simp
  qed
  moreover have "x < db_next s" "a < db_next s" using assms(1,2,4) by (force simp: tvp_inv_def marked_def not_le [symmetric])+
  ultimately show ?thesis using assms(1,8) by (simp add: tvp_inv_def marked_def)
qed

lemma run_tvp_get [simp]: "db_tvps s x = Some v \<Longrightarrow> tvp_get x s = (s, Inr v)" "db_tvps s x = None \<Longrightarrow> tvp_get x s = (s, Inl Db_undefined)"
  by (simp_all add: tvp_get_def the_obj_def)

lemma run_tvp_put [simp]: "db_tvps s x = Some v \<Longrightarrow> tvp_put x f s = (s\<lparr>db_tvps := (db_tvps s)(x \<mapsto> f v)\<rparr>, Inr ())"
  by (simp add: tvp_put_def)

lemma keeps_inv_put [keeps_inv]:
  assumes "\<And>v. tv_open (f v) = tv_open v \<and> tv_stmt (f v) = tv_stmt v"
  shows "within keeps_inv (tvp_put x f)"
  unfolding within_def
proof
  fix s show "keeps_inv s (fst (tvp_put x f s))"
  proof (cases "db_tvps s x")
    case None
    then show ?thesis by (simp add: keeps_inv_def tvp_put_def)
  next
    case (Some v)
    then show ?thesis using assms inv_update by (simp add: keeps_inv_def)
  qed
qed

text \<open>Closing: only the driver can refuse it, and then the parameter is still open.\<close>

lemma run_tvp_close:
  assumes "tvp_inv s" and "db_tvps s x = Some v" and "tv_open v" and "tv_stmt v = Some a" and "db_stmts s a = Some t"
    and "tv_row_count v > 0" and "h = db_calls s @ [Set_stmt_attr (st_stmt t) Attr_param_focus 0]"
  shows "tvp_close D x s = (if success (od_rc D h)
    then (s\<lparr>db_calls := h, db_tvps := (db_tvps s)(x \<mapsto> v\<lparr>tv_row_count := 0, tv_name := [], tv_param_index := 0, tv_open := False\<rparr>),
            db_stmts := (db_stmts s)(a \<mapsto> t\<lparr>st_open_tvp := False\<rparr>)\<rparr>, Inr ())
    else (s\<lparr>db_calls := h\<rparr>, Inl (Db_throw (Database_error (st_stmt t) Handle_stmt))))"
proof -
  have "st_open_tvp t" using inv_close(1) [OF assms(1-5), of "v\<lparr>tv_open := False\<rparr>" "t\<lparr>st_open_tvp := False\<rparr>"] by simp
  then show ?thesis using assms(2-7) by (simp add: tvp_close_def tvp_lock_def close_tvp_def)
qed

lemma run_tvp_close_empty:
  assumes "tvp_inv s" and "db_tvps s x = Some v" and "tv_open v" and "tv_stmt v = Some a" and "db_stmts s a = Some t" and "tv_row_count v = 0"
  shows "tvp_close D x s = (s\<lparr>db_tvps := (db_tvps s)(x \<mapsto> v\<lparr>tv_row_count := 0, tv_name := [], tv_param_index := 0, tv_open := False\<rparr>),
            db_stmts := (db_stmts s)(a \<mapsto> t\<lparr>st_open_tvp := False\<rparr>)\<rparr>, Inr ())"
proof -
  have "st_open_tvp t" using inv_close(1) [OF assms(1-5), of "v\<lparr>tv_open := False\<rparr>" "t\<lparr>st_open_tvp := False\<rparr>"] by simp
  then show ?thesis using assms(2-6) by (simp add: tvp_close_def tvp_lock_def close_tvp_def)
qed

lemma run_tvp_close_gone:
  assumes "db_tvps s x = Some v" and "tv_open v" and "\<And>b. tv_stmt v = Some b \<Longrightarrow> db_stmts s b = None"
  shows "tvp_close D x s = (s\<lparr>db_tvps := (db_tvps s)(x \<mapsto> v\<lparr>tv_row_count := 0, tv_name := [], tv_param_index := 0, tv_open := False\<rparr>)\<rparr>, Inr ())"
  using assms by (auto simp: tvp_close_def tvp_lock_def split: option.splits)

lemma run_tvp_close_closed: "db_tvps s x = Some v \<Longrightarrow> \<not> tv_open v \<Longrightarrow> tvp_close D x s = (s, Inr ())"
  by (simp add: tvp_close_def)

lemma inv_calls [simp]: "tvp_inv (s\<lparr>db_calls := h\<rparr>) = tvp_inv s"
  by (simp add: tvp_inv_def marked_def open_on_def)

lemma tvp_close_keeps [keeps_inv]: "within keeps_inv (tvp_close D x)"
  unfolding within_def keeps_inv_def
proof (intro allI impI)
  fix s assume inv: "tvp_inv s"
  show "tvp_inv (fst (tvp_close D x s))"
  proof (cases "db_tvps s x")
    case (Some v)
    consider "\<not> tv_open v" | "tv_open v" "\<And>b. tv_stmt v = Some b \<Longrightarrow> db_stmts s b = None"
      | a t where "tv_open v" "tv_stmt v = Some a" "db_stmts s a = Some t" by (metis not_None_eq)
    then show ?thesis
    proof cases
      case 1
      then show ?thesis using Some inv by (simp add: run_tvp_close_closed)
    next
      case 2
      then show ?thesis using Some inv inv_close_gone [OF inv Some 2(2)] by (simp add: run_tvp_close_gone)
    next
      case 3
      have "tvp_inv (s\<lparr>db_tvps := (db_tvps s)(x \<mapsto> v\<lparr>tv_row_count := 0, tv_name := [], tv_param_index := 0, tv_open := False\<rparr>),
          db_stmts := (db_stmts s)(a \<mapsto> t\<lparr>st_open_tvp := False\<rparr>)\<rparr>)" using inv_close(2) [OF inv Some 3] by simp
      moreover have "tvp_inv (s\<lparr>db_calls := h, db_tvps := d, db_stmts := e\<rparr>) = tvp_inv (s\<lparr>db_tvps := d, db_stmts := e\<rparr>)" for h d e
        by (simp add: tvp_inv_def marked_def open_on_def)
      ultimately show ?thesis using inv
        by (cases "tv_row_count v = 0") (simp_all add: run_tvp_close_empty [OF inv Some 3] run_tvp_close [OF inv Some 3 _ refl])
    qed
  qed (use inv in \<open>simp add: tvp_close_def\<close>)
qed

text \<open>New objects have new addresses.\<close>

lemma keeps_inv_new [keeps_inv]: "within keeps_inv db_new"
  by (simp add: within_def keeps_inv_def tvp_inv_def marked_def open_on_def)

lemma conn_create_keeps [keeps_inv]: "within keeps_inv conn_create"
  unfolding conn_create_def by (intro keeps_inv keeps_same same_open_modify) simp

lemma stmt_create_keeps [keeps_inv]: "within keeps_inv stmt_create"
proof -
  have "within keeps_inv (db_bind db_new (\<lambda>a. db_then (db_modify (db_stmts_update (\<lambda>m. m(a \<mapsto> stmt_empty conn)))) (db_return a)))" for conn
    by (auto simp: within_def keeps_inv_def tvp_inv_def marked_def open_on_def stmt_empty_def)
  then show ?thesis unfolding stmt_create_def by (rule ki.within_bind [OF conn_create_keeps])
qed

lemma tvp_create_keeps [keeps_inv]: "within keeps_inv tvp_create"
proof -
  have "open_on (db_tvps_update (\<lambda>d. d(m \<mapsto> tvp_empty)) (s\<lparr>db_next := n\<rparr>)) a = open_on s a" if "db_tvps s m = None" for s n m a
    using that by (auto simp: open_on_def tvp_empty_def)
  then show ?thesis by (auto simp: within_def keeps_inv_def tvp_inv_def marked_def tvp_create_def)
qed

text \<open>What statements do for themselves does not open or close a table-valued parameter.\<close>

lemma same_open_stmt [same_open]:
  "within same_open (set_stmt a h)" "within same_open (reset_parameters D a)" "within same_open (stmt_connected a)"
  unfolding set_stmt_def reset_parameters_def stmt_connected_def by (intro same_open; simp)+

lemma same_open_stmt_free [same_open]: "within same_open (stmt_free D a)"
  unfolding stmt_free_def deallocate_handle_def by (intro same_open)

lemma same_open_stmt_close [same_open]: "within same_open (stmt_close D a)" "within same_open (stmt_destroy D a)"
  unfolding stmt_close_def stmt_destroy_def by (intro same_open; simp)+

lemma same_open_stmt_open [same_open]: "within same_open (stmt_open D a conn)"
  unfolding stmt_open_def by (intro same_open; simp)

lemma same_open_timeout [same_open]: "within same_open (stmt_timeout D a n)"
  unfolding stmt_timeout_def by (intro same_open)

lemma same_open_execute [same_open]:
  "within same_open (stmt_prepare D a query timeout event)" "within same_open (just_execute_direct D a conn query batch timeout event)"
  "within same_open (just_execute D a batch timeout event)"
  unfolding stmt_prepare_def just_execute_direct_def just_execute_def by (intro same_open)+

lemma same_open_bind [same_open]:
  "within same_open (set_indicators a idx batch f)" "within same_open (refuse_open_tvp a)"
  "within same_open (bind_parameter D nd a p ctype n)" "within same_open (bind_parameter_chars D a p ctype m n)"
  unfolding set_indicators_def refuse_open_tvp_def bind_parameter_def bind_parameter_chars_def Let_def by (intro same_open; simp)+

lemma same_open_binds [same_open]:
  "within same_open (bind_values D nd a equals ctype dir idx values nulls sentry)"
  "within same_open (bind_chars D nd a dir idx chars value_size batch nulls txt)" "within same_open (bind_binary D nd a dir idx bs nulls b)"
  "within same_open (bind_null D nd a idx batch)"
  unfolding bind_values_def bind_chars_def bind_binary_def bind_null_def Let_def by (intro same_open; simp)+

lemma same_open_bind_strings [same_open]: "within same_open (bind_strings D nd a dir idx strs nulls txt)"
  unfolding bind_strings_def Let_def by (intro same_open; simp)

text \<open>Opening: the mark of the statement and the parameter's own are set together, or neither is.\<close>

lemma tvp_close_closes:
  assumes "tvp_inv s" and "tvp_close D x s = (s', Inr ())"
  shows "\<exists>v. db_tvps s' x = Some v \<and> \<not> tv_open v"
proof (cases "db_tvps s x")
  case (Some v)
  consider "\<not> tv_open v" | "tv_open v" "\<And>b. tv_stmt v = Some b \<Longrightarrow> db_stmts s b = None"
    | a t where "tv_open v" "tv_stmt v = Some a" "db_stmts s a = Some t" by (metis not_None_eq)
  then show ?thesis
  proof cases
    case 1
    then show ?thesis using Some assms by (simp add: run_tvp_close_closed)
  next
    case 2
    then show ?thesis using Some assms by (auto simp: run_tvp_close_gone)
  next
    case 3
    then show ?thesis using assms(2)
      by (cases "tv_row_count v = 0") (auto simp: run_tvp_close_empty [OF assms(1) Some 3] run_tvp_close [OF assms(1) Some 3 _ refl] split: if_splits)
  qed
qed (use assms(2) in \<open>simp add: tvp_close_def\<close>)

lemma open_tvp_run:
  assumes "open_tvp D nd a x idx s = (s', r)"
  shows "(\<exists>e. r = Inl e) \<and> same_open s s' \<or>
    (\<exists>s0 t t'. r = Inr () \<and> same_open s s0 \<and> db_stmts s0 a = Some t \<and> \<not> st_open_tvp t \<and> st_open_tvp t' \<and> s' = s0\<lparr>db_stmts := (db_stmts s0)(a \<mapsto> t')\<rparr>)"
proof (cases "db_stmts s a")
  case None
  then show ?thesis using assms by (auto simp: open_tvp_def stmt_get_def the_obj_def db_bind_def same_open_def)
next
  case (Some t)
  show ?thesis
  proof (cases "st_open_tvp t")
    case True
    then show ?thesis using assms Some by (auto simp: open_tvp_def so.reflexive)
  next
    case False
    obtain s0 q where p: "prepare_bind D nd a idx 1 PARAM_IN s = (s0, q)" by fastforce
    have so: "same_open s s0" using same_open_prepare_bind p by (rule withinD)
    then have "marked s0 a = Some False" using Some False by (simp add: same_open_def marked_def)
    then obtain t0 where t0: "db_stmts s0 a = Some t0" "\<not> st_open_tvp t0" by (auto simp: marked_def)
    show ?thesis
    proof (cases "\<exists>b. q = Inr b \<and> bp_type b = sql_ss_table")
      case True
      then obtain b where b: "q = Inr b" "bp_type b = sql_ss_table" by blast
      let ?t = "t0\<lparr>st_tvp_data := (if st_tvp_data t0 idx = None then (st_tvp_data t0)(idx \<mapsto> x) else st_tvp_data t0), st_open_tvp := True\<rparr>"
      have "s' = s0\<lparr>db_stmts := (db_stmts s0)(a \<mapsto> ?t)\<rparr>" "r = Inr ()" using assms Some False p t0 b by (simp_all add: open_tvp_def)
      then show ?thesis using so t0 by (intro disjI2 exI [of _ s0] exI [of _ t0] exI [of _ ?t]) simp
    next
      case False
      then show ?thesis using assms Some \<open>\<not> st_open_tvp t\<close> p so by (cases q) (auto simp: open_tvp_def)
    qed
  qed
qed

lemma tvp_rest_keeps [keeps_inv]:
  "within keeps_inv (prepare_tvp_name D nd x)" "within keeps_inv (prepare_tvp_param_all D nd x)"
  unfolding prepare_tvp_name_def prepare_tvp_param_all_def stmt_create_on_def Let_def
  by (intro keeps_inv keeps_same [OF same_open_sql(2)] keeps_same [OF same_open_gets(1)] keeps_same [OF same_open_gets(3)] keeps_same [OF same_open_stmt_ok]
      keeps_same [OF same_open_stmt_open] keeps_same [OF same_open_stmt_close(2)] keeps_same [OF same_open_modify]; simp)+

lemma tvp_open_keeps [keeps_inv]: "within keeps_inv (tvp_open D nd x a idx rows)"
  unfolding within_def keeps_inv_def
proof (intro allI impI)
  fix s assume inv: "tvp_inv s"
  let ?mark = "tvp_put x (\<lambda>v. v\<lparr>tv_open := True, tv_stmt := Some a, tv_row_count := rows, tv_param_index := idx\<rparr>)"
  obtain rest where rest: "tvp_open D nd x a idx rows = db_then (tvp_close D x) (db_then (open_tvp D nd a x idx) (db_then ?mark rest))" "within keeps_inv rest"
  proof -
    show thesis
      by (rule that, unfold tvp_open_def, rule refl)
        (intro keeps_inv keeps_same [OF same_open_gets(1)] keeps_same [OF same_open_stmt_ok] keeps_same [OF same_open_stmt_put]; simp)
  qed
  obtain s1 r1 where c: "tvp_close D x s = (s1, r1)" by fastforce
  have inv1: "tvp_inv s1" using withinD [OF tvp_close_keeps c] inv by (simp add: keeps_inv_def)
  show "tvp_inv (fst (tvp_open D nd x a idx rows s))"
  proof (cases r1)
    case (Inr u)
    then obtain v where v: "db_tvps s1 x = Some v" "\<not> tv_open v" using tvp_close_closes inv c by fastforce
    obtain s2 r2 where op: "open_tvp D nd a x idx s1 = (s2, r2)" by fastforce
    show ?thesis
    proof (cases r2)
      case (Inl e)
      then have "same_open s1 s2" using open_tvp_run [OF op] by auto
      then show ?thesis using rest(1) c op Inr Inl inv1 same_open_keeps by (simp add: keeps_inv_def)
    next
      case (Inr w)
      then obtain s0 t t' where s0: "same_open s1 s0" "db_stmts s0 a = Some t" "\<not> st_open_tvp t" "st_open_tvp t'" "s2 = s0\<lparr>db_stmts := (db_stmts s0)(a \<mapsto> t')\<rparr>"
        using open_tvp_run [OF op] by auto
      have v0: "db_tvps s0 x = Some v" "tvp_inv s0" using s0(1) v(1) inv1 same_open_keeps by (auto simp: same_open_def keeps_inv_def)
      obtain s3 where s3: "?mark s2 = (s3, Inr ())" "tvp_inv s3"
        using v0(1) s0(5) inv_open [OF v0(2,1) v(2) s0(2,3) _ _ s0(4), of "v\<lparr>tv_open := True, tv_stmt := Some a, tv_row_count := rows, tv_param_index := idx\<rparr>"]
        by simp
      then have "tvp_open D nd x a idx rows s = rest s3" using rest(1) c op Inr \<open>r1 = Inr u\<close> by simp
      then show ?thesis using rest(2) s3(2) by (simp add: within_def keeps_inv_def)
    qed
  qed (use rest(1) c inv1 in simp)
qed

lemma tvp_bind_keeps [keeps_inv]:
  "within keeps_inv (tvp_prepare_bind nd x idx batch)" "within keeps_inv (tvp_set_indicators x idx batch f)"
  "within keeps_inv (tvp_bind_parameter D nd x p ctype n)" "within keeps_inv (tvp_bind_parameter_chars D nd x p ctype m n)"
  unfolding tvp_prepare_bind_def tvp_set_indicators_def tvp_bind_parameter_def tvp_bind_parameter_chars_def Let_def
  by (intro keeps_inv keeps_same [OF same_open_gets(1)] keeps_same [OF same_open_gets(3)] keeps_same [OF same_open_stmt_ok]; simp)+

lemma tvp_binds_keep [keeps_inv]:
  "within keeps_inv (tvp_bind_values D nd x equals ctype idx values nulls sentry)"
  "within keeps_inv (tvp_bind_chars D nd x idx chars value_size batch nulls txt)" "within keeps_inv (tvp_bind_binary D nd x idx bs nulls b)"
  "within keeps_inv (tvp_bind_null D nd x idx)" "within keeps_inv (tvp_describe_parameters x idxs types lens scales)"
  unfolding tvp_bind_values_def tvp_bind_chars_def tvp_bind_binary_def tvp_bind_null_def tvp_describe_parameters_def Let_def
  by (intro keeps_inv ki.within_each keeps_same [OF same_open_gets(1)] keeps_same [OF same_open_gets(3)] keeps_same [OF same_open_stmt_ok]; simp)+

lemma tvp_bind_strings_keeps [keeps_inv]: "within keeps_inv (tvp_bind_strings D nd x idx strs nulls txt)"
  unfolding tvp_bind_strings_def Let_def by (intro keeps_inv keeps_same [OF same_open_gets(1)]; simp)

text \<open>What a client can do with statements and tables; exceptions are caught by the client.\<close>

datatype tvp_op = New_table | New_statement | Table_open nat nat int nat | Table_close nat | Table_destroy nat
  | Table_values nat int "int list" "bool list option" "int option" | Table_strings nat int "string list" "bool list option" "string option"
  | Table_binary nat int "bytes list" "bool list option" "bytes option" | Table_null nat int
  | Table_describe nat "int list" "int list" "nat list" "int list"
  | Statement_open nat nat | Statement_close nat | Statement_prepare nat string int | Statement_execute nat int int
  | Statement_strings nat int "string list" "bool list option" "string option" | Statement_null nat int nat

fun tvp_do :: "odbc \<Rightarrow> bool \<Rightarrow> tvp_op \<Rightarrow> unit dbm" where
  "tvp_do D nd New_table = db_then tvp_create (db_return ())"
| "tvp_do D nd New_statement = db_then stmt_create (db_return ())"
| "tvp_do D nd (Table_open x a idx rows) = tvp_open D nd x a idx rows"
| "tvp_do D nd (Table_close x) = tvp_close D x"
| "tvp_do D nd (Table_destroy x) = tvp_destroy D x"
| "tvp_do D nd (Table_values x idx values nulls sentry) = tvp_bind_values D nd x (=) sql_c_sbigint idx values nulls sentry"
| "tvp_do D nd (Table_strings x idx values nulls sentry) = tvp_bind_strings D nd x idx values nulls sentry"
| "tvp_do D nd (Table_binary x idx values nulls sentry) = tvp_bind_binary D nd x idx values nulls sentry"
| "tvp_do D nd (Table_null x idx) = tvp_bind_null D nd x idx"
| "tvp_do D nd (Table_describe x idx type len scale) = tvp_describe_parameters x idx type len scale"
| "tvp_do D nd (Statement_open a conn) = stmt_open D a conn"
| "tvp_do D nd (Statement_close a) = stmt_close D a"
| "tvp_do D nd (Statement_prepare a query timeout) = db_then (stmt_prepare D a query timeout 0) (db_return ())"
| "tvp_do D nd (Statement_execute a batch timeout) = db_then (just_execute D a batch timeout 0) (db_return ())"
| "tvp_do D nd (Statement_strings a idx values nulls sentry) = bind_strings D nd a PARAM_IN idx values nulls sentry"
| "tvp_do D nd (Statement_null a idx batch) = bind_null D nd a idx batch"

lemma tvp_do_keeps: "within keeps_inv (tvp_do D nd op)"
  by (cases op) (simp_all add: tvp_destroy_def keeps_inv keeps_same same_open)

lemma tvp_run_keeps: "within keeps_inv (db_each (\<lambda>op. caught (tvp_do D nd op)) ops)"
  unfolding caught_def by (intro ki.within_each ki.within_catch ki.within_pure tvp_do_keeps)

section \<open>Properties\<close>


text \<open>A table on parameter 0 of a statement, and a driver that fails once it is asked for the descriptor of the parameters.\<close>

definition table_statement :: statement_impl where
  "table_statement = demo_statement\<lparr>st_param_descr := [0 \<mapsto> parameter_empty\<lparr>bp_type := sql_ss_table\<rparr>]\<rparr>"

definition table_db :: db where
  "table_db = connected_db\<lparr>db_stmts := [7 \<mapsto> table_statement], db_next := 8\<rparr>"

definition no_descriptor :: odbc where
  "no_descriptor = willing\<lparr>od_rc := (\<lambda>h. if h \<noteq> [] \<and> last h = Get_stmt_attr 3 Attr_imp_param_desc then Sql_error else Sql_success)\<rparr>"


text \<open>
  A table that was used blocks batches for good: closing it leaves its entry in the statement, and every
  execution of more than one set of parameters throws until the statement itself is closed.
\<close>

lemma tvp_close_keeps_entry:
  assumes "db_stmts s a = Some t" and "tvp_close D x s = (s', r)"
  shows "\<exists>t'. db_stmts s' a = Some t' \<and> st_tvp_data t' = st_tvp_data t"
proof -
  define R where "R u u' \<longleftrightarrow> (\<forall>b. map_option st_tvp_data (db_stmts u b) = map_option st_tvp_data (db_stmts u' b))" for u u' :: db
  have pre: "db_preorder R" by unfold_locales (simp_all add: R_def)
  note rules = db_preorder.within_rules [OF pre]
  have put: "within R (stmt_put b f)" if "\<And>t. st_tvp_data (f t) = st_tvp_data t" for b f
    using that by (auto simp: within_def R_def stmt_put_def stmt_get_def the_obj_def db_bind_def split: option.split)
  have calls: "within R (stmt_ok D b call)" for b call unfolding stmt_ok_def sql_ok_def by (intro rules) (simp add: within_def R_def)
  have tput: "within R (tvp_put x f)" for f by (auto simp: within_def R_def tvp_put_def tvp_get_def the_obj_def db_bind_def split: option.split)
  have "within R (tvp_close D x)"
    unfolding tvp_close_def tvp_get_def tvp_lock_def close_tvp_def by (intro rules calls tput put; simp)
  then have "R s s'" using assms(2) by (rule withinD)
  then have "map_option st_tvp_data (db_stmts s' a) = Some (st_tvp_data t)" using assms(1) unfolding R_def by (metis option.map(2))
  then show ?thesis by auto
qed

theorem closed_table_blocks_batches:
  assumes "db_stmts s a = Some t" and "st_tvp_data t \<noteq> Map.empty" and "tvp_close D x s = (s', r)" and "batch \<noteq> 1"
  shows "snd (just_execute D a batch timeout event s') = Inl (Db_throw (Programming_error ''cannot use batch operation when using tvp''))"
proof -
  obtain t' where "db_stmts s' a = Some t'" "st_tvp_data t' = st_tvp_data t" using tvp_close_keeps_entry [OF assms(1,3)] by blast
  then show ?thesis using assms(2,4) by (simp add: just_execute_def)
qed

text \<open>
  The columns of a table's type: \<open>k\<close> rows give \<open>k\<close> descriptions, and asking for them ends. A null in a row
  leaves the value of the row before it, so a column without a scale is described with the scale of the column before.
\<close>

fun descr_at :: "odbc \<Rightarrow> handle \<Rightarrow> sql_call list \<Rightarrow> bound_parameter \<Rightarrow> nat \<Rightarrow> bound_parameter" where
  "descr_at D h calls p 0 = p"
| "descr_at D h calls p (Suc k) = (read_descr (od_cells D (calls @ replicate (Suc k) (Fetch h))) (descr_at D h calls p k))\<lparr>bp_index := int k mod 2 ^ 16\<rparr>"

lemma tvp_fetch_from:
  assumes "\<And>k. k < n \<Longrightarrow> od_rc D (calls @ replicate (Suc k) (Fetch h)) = Sql_success" and "od_rc D (calls @ replicate (Suc n) (Fetch h)) \<noteq> Sql_success"
    and "i \<le> n" and "n \<le> 2 ^ 15" and "\<And>k. k < i \<Longrightarrow> m (int k) = Some (descr_at D h calls p (Suc k))"
  shows "\<exists>m'. tvp_fetch D h (calls @ replicate i (Fetch h)) i (descr_at D h calls p i) m = Some (calls @ replicate (Suc n) (Fetch h), m') \<and>
    (\<forall>k < n. m' (int k) = Some (descr_at D h calls p (Suc k)))"
  using assms(3,5)
proof (induction "n - i" arbitrary: i m)
  case 0
  then show ?case using assms(2) by (subst tvp_fetch.simps) (simp add: Let_def replicate_append_same)
next
  case (Suc d)
  let ?p = "descr_at D h calls p (Suc i)" let ?m = "m(int i \<mapsto> ?p)"
  have i: "i < n" using Suc.hyps(2) by simp
  have "to_smallint (int i) = int i" using i assms(4) by (intro to_smallint_id) auto
  then have step: "tvp_fetch D h (calls @ replicate i (Fetch h)) i (descr_at D h calls p i) m = tvp_fetch D h (calls @ replicate (Suc i) (Fetch h)) (Suc i) ?p ?m"
    using assms(1) [OF i] by (subst tvp_fetch.simps) (simp add: Let_def replicate_append_same)
  have "\<And>k. k < Suc i \<Longrightarrow> ?m (int k) = Some (descr_at D h calls p (Suc k))" using Suc.prems(2) by (auto simp: less_Suc_eq)
  then show ?case using Suc.hyps(1) [of "Suc i" ?m] Suc.hyps(2) i unfolding step by simp
qed

theorem table_columns_described:
  assumes "\<And>k. k < n \<Longrightarrow> od_rc D (calls @ replicate (Suc k) (Fetch h)) = Sql_success" and "od_rc D (calls @ replicate (Suc n) (Fetch h)) \<noteq> Sql_success"
    and "n \<le> 2 ^ 15"
  shows "\<exists>m'. tvp_fetch D h calls 0 p m = Some (calls @ replicate (Suc n) (Fetch h), m') \<and>
    (\<forall>k < n. m' (int k) = Some (descr_at D h calls p (Suc k)) \<and>
      (bound_cell (od_cells D (calls @ replicate (Suc k) (Fetch h))) 8 = None \<longrightarrow> bp_scale (descr_at D h calls p (Suc k)) = bp_scale (descr_at D h calls p k)))"
  using tvp_fetch_from [OF assms(1,2) _ assms(3), of 0 m p] by (simp add: read_descr_def)

end
