(* ===== verification/Db_Values.thy ===== *)
theory Db_Values
  imports Db_Rows
begin

text \<open>
  How \<^verbatim>\<open>result::get\<close> converts values: \<^verbatim>\<open>get_ref_impl\<close> for whole numbers of every width, for
  characters and for narrow text, and \<^verbatim>\<open>from_string\<close>. What the platform does is a parameter
  (\<open>platform\<close>): the conversion of wide text, the text and the conversion of floating-point numbers, and
  \<^verbatim>\<open>strftime\<close>. Values of floating-point types are not modelled.
\<close>

section \<open>Numbers in text\<close>

text \<open>A whole-number type: whether it is signed, and its size in bytes.\<close>

type_synonym int_type = "bool \<times> nat"

definition type_max :: "int_type \<Rightarrow> int" where
  "type_max ty = (if fst ty then 2 ^ (8 * snd ty - 1) - 1 else 2 ^ (8 * snd ty) - 1)"

definition type_min :: "int_type \<Rightarrow> int" where
  "type_min ty = (if fst ty then - (2 ^ (8 * snd ty - 1)) else 0)"

definition cast_to :: "int_type \<Rightarrow> int \<Rightarrow> int" where
  "cast_to ty i = (i - type_min ty) mod 2 ^ (8 * snd ty) + type_min ty"

definition is_space :: "char \<Rightarrow> bool" where
  "is_space c \<longleftrightarrow> (of_char c :: nat) = 32 \<or> 9 \<le> (of_char c :: nat) \<and> (of_char c :: nat) \<le> 13"

text \<open>\<^verbatim>\<open>strtoll\<close> and \<^verbatim>\<open>strtoull\<close>: blanks, a sign, digits; the rest is ignored.\<close>

definition strto :: "string \<Rightarrow> (bool \<times> int) option" where
  "strto s = (let s1 = dropWhile is_space s; neg = (s1 \<noteq> [] \<and> hd s1 = CHR ''-''); signed = (s1 \<noteq> [] \<and> hd s1 \<in> {CHR ''-'', CHR ''+''});
     ds = takeWhile is_digit (if signed then tl s1 else s1) in if ds = [] then None else Some (neg, digits_value ds))"

definition stoll :: "string \<Rightarrow> db_exn + int" where
  "stoll s = (case strto s of None \<Rightarrow> Inl Std_invalid_argument
     | Some (neg, v) \<Rightarrow> let i = (if neg then - v else v) in if - (2 ^ 63) \<le> i \<and> i < 2 ^ 63 then Inr i else Inl Std_out_of_range)"

definition stoull :: "string \<Rightarrow> db_exn + int" where
  "stoull s = (case strto s of None \<Rightarrow> Inl Std_invalid_argument
     | Some (neg, v) \<Rightarrow> if v < 2 ^ 64 then Inr ((if neg then - v else v) mod 2 ^ 64) else Inl Std_out_of_range)"

definition from_string :: "int_type \<Rightarrow> string \<Rightarrow> db_exn + int" where
  "from_string ty s = (case (if fst ty then stoll s else stoull s) of Inl e \<Rightarrow> Inl e
     | Inr i \<Rightarrow> if i > type_max ty \<or> i < type_min ty then Inl Std_range_error else Inr i)"

section \<open>Values of columns\<close>

record platform =
  pf_narrow :: "bytes \<Rightarrow> string option"
  pf_strftime :: "string \<Rightarrow> int list \<Rightarrow> string"
  pf_float_text :: "bytes \<Rightarrow> string"
  pf_float_int :: "int_type \<Rightarrow> bytes \<Rightarrow> int option"

definition sql_c_float :: int where "sql_c_float = 7"

definition chars_of :: "bytes \<Rightarrow> string" where
  "chars_of b = map (\<lambda>x. char_of (unat x)) b"

text \<open>Wide text: 511 units of a buffer of 512; text that does not convert throws.\<close>

definition wide_piece :: "int \<Rightarrow> bytes \<Rightarrow> bytes" where
  "wide_piece ind buffer = (if ind = sql_no_total then take 1022 buffer else if ind > 0 then take (2 * min (nat ind div 2) 511) buffer else [])"

definition narrowed :: "platform \<Rightarrow> bytes \<Rightarrow> string dbm" where
  "narrowed P b = (case pf_narrow P b of None \<Rightarrow> db_throw Std_range_error | Some s \<Rightarrow> db_return s)"

definition get_wide_text :: "platform \<Rightarrow> odbc \<Rightarrow> nat \<Rightarrow> int \<Rightarrow> string dbm" where
  "get_wide_text P D a column = db_bind (column_at a column) (\<lambda>col. db_bind (is_bound a column) (\<lambda>bd. db_bind (result_get a) (\<lambda>r.
     if \<not> bd then db_then (disable_async D (rs_stmt r)) (db_bind (stmt_get (rs_stmt r)) (\<lambda>t.
       db_bind (run_pieces D a column (st_stmt t) (bc_ctype col) wide_piece) (narrowed P)))
     else db_bind (at_position (rs_position r) (bc_pdata col)) (\<lambda>b. db_bind (at_position (rs_position r) (bc_cbdata col)) (\<lambda>len.
       if len < 0 \<or> nat len div 2 * 2 > length b then db_fail Db_undefined else narrowed P (take (nat len div 2 * 2) b))))))"

text \<open>Text printed into a buffer of \<open>n\<close> characters and a terminator.\<close>

definition print_value :: "odbc \<Rightarrow> nat \<Rightarrow> nat \<Rightarrow> int \<Rightarrow> int \<Rightarrow> (bytes \<Rightarrow> string) \<Rightarrow> nat \<Rightarrow> string dbm" where
  "print_value D a len ctype column f n = db_bind (ensure_pdata D a len ctype column) (\<lambda>b. db_return (take n (f b)))"

definition get_string :: "platform \<Rightarrow> odbc \<Rightarrow> nat \<Rightarrow> int \<Rightarrow> string dbm" where
  "get_string P D a column = db_bind (column_at a column) (\<lambda>col. let c = bc_ctype col; n = bc_sqlsize col in
     if c = sql_c_char \<or> c = sql_c_binary then db_bind (get_text D a column) (\<lambda>b. db_return (chars_of b))
     else if c = sql_c_wchar then get_wide_text P D a column
     else if c = sql_c_long then print_value D a 4 sql_c_slong column (\<lambda>b. int_text (le_int b)) n
     else if c = sql_c_sbigint then print_value D a 8 sql_c_sbigint column (\<lambda>b. int_text (le_int b)) n
     else if c = sql_c_float then print_value D a 4 sql_c_float column (pf_float_text P) n
     else if c = sql_c_double then print_value D a 8 sql_c_double column (pf_float_text P) (n + 2)
     else if c = sql_c_date then db_bind (ensure_pdata D a 6 sql_c_date column) (\<lambda>b. let d = date_of b in
       db_return (cstr (pf_strftime P ''%Y-%m-%d'' [dt_year d - 1900, dt_month d - 1, dt_day d, 0, 0, 0])))
     else if c = sql_c_time then db_bind (ensure_pdata D a 6 sql_c_time column) (\<lambda>b. let t = time_of b in
       db_return (cstr (pf_strftime P ''%H:%M:%S'' [0, 0, 0, tm_hour t, tm_min t, tm_sec t])))
     else if c = sql_c_timestamp then db_bind (ensure_pdata D a 16 sql_c_timestamp column) (\<lambda>b. let t = timestamp_of b in
       db_return (cstr (pf_strftime P ''%Y-%m-%d %H:%M:%S %z'' [ts_year t - 1900, ts_month t - 1, ts_day t, ts_hour t, ts_min t, ts_sec t])))
     else db_throw Type_incompatible_error)"

text \<open>Whole numbers: from text with a check of the range, from binary numbers with a cast.\<close>

definition get_from_text :: "platform \<Rightarrow> odbc \<Rightarrow> nat \<Rightarrow> int_type \<Rightarrow> int \<Rightarrow> int dbm" where
  "get_from_text P D a ty column = db_bind (column_at a column) (\<lambda>col. db_bind (get_string P D a (int (bc_column col))) (\<lambda>s.
     case from_string ty s of Inl e \<Rightarrow> db_throw e | Inr i \<Rightarrow> db_return i))"

definition cast_value :: "odbc \<Rightarrow> nat \<Rightarrow> int_type \<Rightarrow> int_type \<Rightarrow> int \<Rightarrow> int \<Rightarrow> int dbm" where
  "cast_value D a ty from ctype column = db_bind (ensure_pdata D a (snd from) ctype column) (\<lambda>b.
     db_return (cast_to ty (if fst from then le_int b else int (le_nat b))))"

definition cast_float :: "platform \<Rightarrow> odbc \<Rightarrow> nat \<Rightarrow> int_type \<Rightarrow> nat \<Rightarrow> int \<Rightarrow> int \<Rightarrow> int dbm" where
  "cast_float P D a ty len ctype column = db_bind (ensure_pdata D a len ctype column) (\<lambda>b.
     case pf_float_int P ty b of None \<Rightarrow> db_fail Db_undefined | Some i \<Rightarrow> db_return i)"

definition get_integer :: "platform \<Rightarrow> odbc \<Rightarrow> nat \<Rightarrow> int_type \<Rightarrow> int \<Rightarrow> int dbm" where
  "get_integer P D a ty column = db_bind (column_at a column) (\<lambda>col. let c = bc_ctype col in
     if c = sql_c_char \<or> c = sql_c_wchar then get_from_text P D a ty column
     else if c = -15 then cast_value D a ty (True, 2) (-15) column
     else if c = -17 then cast_value D a ty (False, 2) (-17) column
     else if c = sql_c_long \<or> c = sql_c_slong then cast_value D a ty (True, 4) sql_c_slong column
     else if c = -18 then cast_value D a ty (False, 4) (-18) column
     else if c = sql_c_float then cast_float P D a ty 4 sql_c_float column
     else if c = sql_c_double then cast_float P D a ty 8 sql_c_double column
     else if c = sql_c_sbigint then cast_value D a ty (True, 8) sql_c_sbigint column
     else if c = -27 then cast_value D a ty (False, 8) (-27) column
     else db_throw Type_incompatible_error)"

text \<open>A character, \<open>n\<close> bytes: of a text column the first one, read without asking for the text.\<close>

definition get_character :: "platform \<Rightarrow> odbc \<Rightarrow> nat \<Rightarrow> int_type \<Rightarrow> int \<Rightarrow> int dbm" where
  "get_character P D a ty column = db_bind (column_at a column) (\<lambda>col.
     if bc_ctype col = sql_c_char then cast_value D a ty (True, 1) sql_c_char column
     else if bc_ctype col = sql_c_wchar then cast_value D a ty (False, 2) sql_c_wchar column
     else get_integer P D a ty column)"

section \<open>Lemmas\<close>

lemma digit_char: "(d :: nat) < 10 \<Longrightarrow> of_char (char_of (48 + d) :: char) = (48 + d :: nat)"
  by (simp add: take_bit_nat_eq_self)

declare nat_digits.simps [simp del]

lemma nat_digits_nonempty [simp]: "nat_digits n \<noteq> []"
  by (subst nat_digits.simps) simp

lemma nat_digits_digits: "list_all is_digit (nat_digits n)"
proof (induction n rule: nat_digits.induct)
  case (1 n)
  have d: "is_digit (char_of (48 + d))" if "d < 10" for d :: nat using digit_char [OF that] that by (simp add: is_digit_def)
  show ?case using 1 d [of n] d [of "n mod 10"] by (subst nat_digits.simps) simp
qed

lemma digits_value_snoc: "digits_value (ds @ [c]) = 10 * digits_value ds + digit_value c"
  by (simp add: digits_value_def)

lemma digits_value_nat: "digits_value (nat_digits n) = int n"
proof (induction n rule: nat_digits.induct)
  case (1 n)
  show ?case
  proof (cases "n < 10")
    case True
    then show ?thesis by (subst nat_digits.simps) (simp add: digits_value_def digit_value_def digit_char)
  next
    case False
    have "10 * int (n div 10) + int (n mod 10) = int n" by presburger
    then show ?thesis using 1 False by (subst nat_digits.simps) (simp add: digits_value_snoc digit_value_def digit_char)
  qed
qed

lemma takeWhile_nat_digits: "rest = [] \<or> \<not> is_digit (hd rest) \<Longrightarrow> takeWhile is_digit (nat_digits n @ rest) = nat_digits n"
  using nat_digits_digits [of n] by (cases rest) (auto simp: list_all_iff takeWhile_append takeWhile_eq_all_conv)

lemma digit_no_sign: "is_digit c \<Longrightarrow> \<not> is_space c \<and> c \<noteq> CHR ''-'' \<and> c \<noteq> CHR ''+''"
  by (auto simp: is_digit_def is_space_def)

lemma strto_int_text:
  assumes "rest = [] \<or> \<not> is_digit (hd rest)"
  shows "strto (int_text i @ rest) = Some (i < 0, \<bar>i\<bar>)"
proof (cases "i < 0")
  case True
  have "\<not> is_space (CHR ''-'')" by (simp add: is_space_def)
  then show ?thesis using True assms by (simp add: strto_def int_text_def Let_def takeWhile_nat_digits digits_value_nat)
next
  case False
  obtain c cs where n: "nat_digits (nat i) = c # cs" by (meson nat_digits_nonempty list.exhaust)
  then have c: "\<not> is_space c" "c \<noteq> CHR ''-''" "c \<noteq> CHR ''+''" using nat_digits_digits [of "nat i"] digit_no_sign [of c] by auto
  have "takeWhile is_digit (c # cs @ rest) = c # cs" "digits_value (c # cs) = i"
    using takeWhile_nat_digits [OF assms, of "nat i"] digits_value_nat [of "nat i"] False n by simp_all
  then show ?thesis using False c n by (simp add: strto_def int_text_def Let_def)
qed

lemma type_bounds:
  assumes "snd ty \<in> {1, 2, 4, 8}"
  shows "fst ty \<Longrightarrow> - (2 ^ 63) \<le> type_min ty" "fst ty \<Longrightarrow> type_max ty < 2 ^ 63" "type_min ty \<le> 0" "0 \<le> type_max ty" "type_max ty < 2 ^ 64"
    "type_max ty - type_min ty + 1 = 2 ^ (8 * snd ty)"
  using assms by (auto simp: type_min_def type_max_def)

lemma from_string_signed:
  assumes "rest = [] \<or> \<not> is_digit (hd rest)" and "fst ty" and "snd ty \<in> {1, 2, 4, 8}"
  shows "from_string ty (int_text i @ rest) = (if type_min ty \<le> i \<and> i \<le> type_max ty then Inr i
    else if - (2 ^ 63) \<le> i \<and> i < 2 ^ 63 then Inl Std_range_error else Inl Std_out_of_range)"
  using type_bounds(1,2) [OF assms(3,2)] assms(2) by (auto simp: from_string_def stoll_def strto_int_text [OF assms(1)] Let_def)

lemma cast_to_id:
  assumes "snd ty \<in> {1, 2, 4, 8}"
  shows "cast_to ty i = i \<longleftrightarrow> type_min ty \<le> i \<and> i \<le> type_max ty"
proof -
  have n: "type_max ty = type_min ty + 2 ^ (8 * snd ty) - 1" using type_bounds(6) [OF assms] by linarith
  have "type_min ty \<le> cast_to ty i" "cast_to ty i \<le> type_max ty" using n by (simp_all add: cast_to_def)
  moreover have "cast_to ty i = i" if "type_min ty \<le> i" "i \<le> type_max ty" using that n by (simp add: cast_to_def)
  ultimately show ?thesis by auto
qed

section \<open>Properties\<close>


definition decimal_db :: "bound_column \<Rightarrow> db" where
  "decimal_db col = statement_db\<lparr>db_results := [8 \<mapsto> blob_result\<lparr>rs_columns := [col]\<rparr>]\<rparr>"

definition decimal_column :: bound_column where
  "decimal_column = column_empty\<lparr>bc_sqltype := 3, bc_ctype := sql_c_char, bc_bound := True, bc_cbdata := Some [5], bc_pdata := Some [[45, 49, 50, 46, 53, 0]]\<rparr>"

text \<open>The decimal -12.5; a platform without wide text and floating-point numbers.\<close>

definition plain_platform :: platform where
  "plain_platform = \<lparr>pf_narrow = \<lambda>_. None, pf_strftime = \<lambda>_ _. [], pf_float_text = \<lambda>_. [], pf_float_int = \<lambda>_ _. None\<rparr>"


text \<open>
  A whole number of a binary column is cast: one that does not fit the type asked for is returned wrapped, without
  an error, where the same number in a text column throws.
\<close>

theorem integer_column_wraps:
  assumes "db_results s a = Some r" and "column < length (rs_columns r)" and "rs_columns r ! column = col" and "bc_bound col" and "bc_ctype col = sql_c_sbigint"
    and "bc_pdata col = Some cells" and "rs_position r = int p" and "p < length cells" and "8 \<le> length (cells ! p)" and "le_int (take 8 (cells ! p)) = i"
    and "snd ty \<in> {1, 2, 4, 8}"
  shows "get_integer P D a ty (int column) s = (s, Inr (cast_to ty i)) \<and> (cast_to ty i = i \<longleftrightarrow> type_min ty \<le> i \<and> i \<le> type_max ty)"
  using assms cast_to_id [OF assms(11)]
  by (simp add: get_integer_def cast_value_def ensure_pdata_def column_at_def is_bound_def throw_if_column_is_out_of_range_def at_position_def take_bytes_def
      Let_def sql_c_sbigint_def sql_c_char_def sql_c_wchar_def sql_c_long_def sql_c_slong_def sql_c_double_def sql_c_float_def)

text \<open>
  A negative number in a text column is read as a large unsigned one: \<^verbatim>\<open>stoull\<close> takes the sign and wraps.
\<close>

theorem negative_text_as_unsigned:
  assumes "0 < k" and "k < 2 ^ 64"
  shows "from_string (False, 8) (int_text (- k)) = Inr (2 ^ 64 - k)"
proof -
  have s: "strto (int_text (- k)) = Some (True, k)" using strto_int_text [of "[]" "- k"] assms(1) by simp
  have "- k mod 2 ^ 64 = 2 ^ 64 - k"
    using assms mod_pos_pos_trivial [of "2 ^ 64 - k" "2 ^ 64"] mod_add_self1 [of "2 ^ 64" "- k"] by simp
  then show ?thesis using s assms by (simp add: from_string_def stoull_def type_max_def type_min_def)
qed

text \<open>
  A character of a text column that is not bound is always NUL: the driver is asked for text into a buffer of one
  byte, which holds the terminator only.
\<close>

theorem character_of_long_text_is_nul:
  assumes "db_results s a = Some r" and "column < length (rs_columns r)" and "rs_columns r ! column = col" and "\<not> bc_bound col" and "bc_ctype col = sql_c_char"
    and "db_stmts s (rs_stmt r) = Some t" and "h = db_calls s @ [Get_data (st_stmt t) (int column + 1) sql_c_char 1]"
    and "od_rc D h = Sql_success_with_info" and "fst (od_piece D h) > 0" and "take 1 (snd (od_piece D h)) = [0]"
  shows "snd (get_character P D a (True, 1) (int column) s) = Inr 0"
proof -
  have "pad_to 1 0 (take 1 (snd (od_piece D h))) = [0]" unfolding assms(10) by (simp add: pad_to_def)
  moreover have "cast_to (True, 1) (le_int [0]) = 0" by (simp add: le_int_def cast_to_def type_min_def)
  moreover have "fst (od_piece D h) \<noteq> sql_null_data" using assms(9) by (simp add: sql_null_data_def)
  ultimately show ?thesis using assms(1-8)
    by (simp add: get_character_def cast_value_def ensure_pdata_def column_at_def is_bound_def throw_if_column_is_out_of_range_def case_prod_beta
        del: One_nat_def)
qed

end
