(* ===== verification/Db_Catalog.thy ===== *)
theory Db_Catalog
  imports Db_Values
begin

text \<open>
  Catalogs: \<^verbatim>\<open>nanodbc::catalog\<close> asks for tables, columns, keys, procedures and privileges, and its result
  classes name the columns of what comes back. A search gives a result that keeps its statement alive; the lists of names
  destroy both when they are left. The loops of the lists take the number of rounds they may run for.
\<close>

section \<open>Rows of a catalog\<close>

text \<open>\<^verbatim>\<open>catalog::tables\<close>.\<close>

definition tables_next :: "odbc \<Rightarrow> bool \<Rightarrow> nat \<Rightarrow> bool dbm" where
  "tables_next D nd r = result_next D nd r 0"

definition tables_table_catalog :: "platform \<Rightarrow> odbc \<Rightarrow> bool \<Rightarrow> nat \<Rightarrow> string dbm" where
  "tables_table_catalog P D nd r = get_ref_fallback nd r (get_string P D r) [] 0"

definition tables_table_schema :: "platform \<Rightarrow> odbc \<Rightarrow> bool \<Rightarrow> nat \<Rightarrow> string dbm" where
  "tables_table_schema P D nd r = get_ref_fallback nd r (get_string P D r) [] 1"

definition tables_table_name :: "platform \<Rightarrow> odbc \<Rightarrow> bool \<Rightarrow> nat \<Rightarrow> string dbm" where
  "tables_table_name P D nd r = get_ref nd r (get_string P D r) 2"

definition tables_table_type :: "platform \<Rightarrow> odbc \<Rightarrow> bool \<Rightarrow> nat \<Rightarrow> string dbm" where
  "tables_table_type P D nd r = get_ref nd r (get_string P D r) 3"

definition tables_table_remarks :: "platform \<Rightarrow> odbc \<Rightarrow> bool \<Rightarrow> nat \<Rightarrow> string dbm" where
  "tables_table_remarks P D nd r = get_ref_fallback nd r (get_string P D r) [] 4"

text \<open>\<^verbatim>\<open>catalog::procedures\<close>.\<close>

definition procedures_next :: "odbc \<Rightarrow> bool \<Rightarrow> nat \<Rightarrow> bool dbm" where
  "procedures_next D nd r = result_next D nd r 0"

definition procedures_procedure_catalog :: "platform \<Rightarrow> odbc \<Rightarrow> bool \<Rightarrow> nat \<Rightarrow> string dbm" where
  "procedures_procedure_catalog P D nd r = get_ref_fallback nd r (get_string P D r) [] 0"

definition procedures_procedure_schema :: "platform \<Rightarrow> odbc \<Rightarrow> bool \<Rightarrow> nat \<Rightarrow> string dbm" where
  "procedures_procedure_schema P D nd r = get_ref_fallback nd r (get_string P D r) [] 1"

definition procedures_procedure_name :: "platform \<Rightarrow> odbc \<Rightarrow> bool \<Rightarrow> nat \<Rightarrow> string dbm" where
  "procedures_procedure_name P D nd r = get_ref nd r (get_string P D r) 2"

definition procedures_procedure_remarks :: "platform \<Rightarrow> odbc \<Rightarrow> bool \<Rightarrow> nat \<Rightarrow> string dbm" where
  "procedures_procedure_remarks P D nd r = get_ref_fallback nd r (get_string P D r) [] 6"

definition procedures_procedure_type :: "platform \<Rightarrow> odbc \<Rightarrow> bool \<Rightarrow> nat \<Rightarrow> int dbm" where
  "procedures_procedure_type P D nd r = get_ref_fallback nd r (get_integer P D r (True, 2)) 0 7"

text \<open>\<^verbatim>\<open>catalog::table_privileges\<close>.\<close>

definition table_privileges_next :: "odbc \<Rightarrow> bool \<Rightarrow> nat \<Rightarrow> bool dbm" where
  "table_privileges_next D nd r = result_next D nd r 0"

definition table_privileges_table_catalog :: "platform \<Rightarrow> odbc \<Rightarrow> bool \<Rightarrow> nat \<Rightarrow> string dbm" where
  "table_privileges_table_catalog P D nd r = get_ref_fallback nd r (get_string P D r) [] 0"

definition table_privileges_table_schema :: "platform \<Rightarrow> odbc \<Rightarrow> bool \<Rightarrow> nat \<Rightarrow> string dbm" where
  "table_privileges_table_schema P D nd r = get_ref_fallback nd r (get_string P D r) [] 1"

definition table_privileges_table_name :: "platform \<Rightarrow> odbc \<Rightarrow> bool \<Rightarrow> nat \<Rightarrow> string dbm" where
  "table_privileges_table_name P D nd r = get_ref nd r (get_string P D r) 2"

definition table_privileges_grantor :: "platform \<Rightarrow> odbc \<Rightarrow> bool \<Rightarrow> nat \<Rightarrow> string dbm" where
  "table_privileges_grantor P D nd r = get_ref_fallback nd r (get_string P D r) [] 3"

definition table_privileges_grantee :: "platform \<Rightarrow> odbc \<Rightarrow> bool \<Rightarrow> nat \<Rightarrow> string dbm" where
  "table_privileges_grantee P D nd r = get_ref nd r (get_string P D r) 4"

definition table_privileges_privilege :: "platform \<Rightarrow> odbc \<Rightarrow> bool \<Rightarrow> nat \<Rightarrow> string dbm" where
  "table_privileges_privilege P D nd r = get_ref nd r (get_string P D r) 5"

definition table_privileges_is_grantable :: "platform \<Rightarrow> odbc \<Rightarrow> bool \<Rightarrow> nat \<Rightarrow> string dbm" where
  "table_privileges_is_grantable P D nd r = get_ref_fallback nd r (get_string P D r) [] 6"

text \<open>\<^verbatim>\<open>catalog::primary_keys\<close>.\<close>

definition primary_keys_next :: "odbc \<Rightarrow> bool \<Rightarrow> nat \<Rightarrow> bool dbm" where
  "primary_keys_next D nd r = result_next D nd r 0"

definition primary_keys_table_catalog :: "platform \<Rightarrow> odbc \<Rightarrow> bool \<Rightarrow> nat \<Rightarrow> string dbm" where
  "primary_keys_table_catalog P D nd r = get_ref_fallback nd r (get_string P D r) [] 0"

definition primary_keys_table_schema :: "platform \<Rightarrow> odbc \<Rightarrow> bool \<Rightarrow> nat \<Rightarrow> string dbm" where
  "primary_keys_table_schema P D nd r = get_ref_fallback nd r (get_string P D r) [] 1"

definition primary_keys_table_name :: "platform \<Rightarrow> odbc \<Rightarrow> bool \<Rightarrow> nat \<Rightarrow> string dbm" where
  "primary_keys_table_name P D nd r = get_ref nd r (get_string P D r) 2"

definition primary_keys_column_name :: "platform \<Rightarrow> odbc \<Rightarrow> bool \<Rightarrow> nat \<Rightarrow> string dbm" where
  "primary_keys_column_name P D nd r = get_ref nd r (get_string P D r) 3"

definition primary_keys_column_number :: "platform \<Rightarrow> odbc \<Rightarrow> bool \<Rightarrow> nat \<Rightarrow> int dbm" where
  "primary_keys_column_number P D nd r = get_ref nd r (get_integer P D r (True, 2)) 4"

definition primary_keys_primary_key_name :: "platform \<Rightarrow> odbc \<Rightarrow> bool \<Rightarrow> nat \<Rightarrow> string dbm" where
  "primary_keys_primary_key_name P D nd r = get_ref nd r (get_string P D r) 5"

text \<open>\<^verbatim>\<open>catalog::procedure_columns\<close>.\<close>

definition procedure_columns_next :: "odbc \<Rightarrow> bool \<Rightarrow> nat \<Rightarrow> bool dbm" where
  "procedure_columns_next D nd r = result_next D nd r 0"

definition procedure_columns_procedure_catalog :: "platform \<Rightarrow> odbc \<Rightarrow> bool \<Rightarrow> nat \<Rightarrow> string dbm" where
  "procedure_columns_procedure_catalog P D nd r = get_ref_fallback nd r (get_string P D r) [] 0"

definition procedure_columns_procedure_schema :: "platform \<Rightarrow> odbc \<Rightarrow> bool \<Rightarrow> nat \<Rightarrow> string dbm" where
  "procedure_columns_procedure_schema P D nd r = get_ref_fallback nd r (get_string P D r) [] 1"

definition procedure_columns_procedure_name :: "platform \<Rightarrow> odbc \<Rightarrow> bool \<Rightarrow> nat \<Rightarrow> string dbm" where
  "procedure_columns_procedure_name P D nd r = get_ref nd r (get_string P D r) 2"

definition procedure_columns_column_name :: "platform \<Rightarrow> odbc \<Rightarrow> bool \<Rightarrow> nat \<Rightarrow> string dbm" where
  "procedure_columns_column_name P D nd r = get_ref nd r (get_string P D r) 3"

definition procedure_columns_column_type :: "platform \<Rightarrow> odbc \<Rightarrow> bool \<Rightarrow> nat \<Rightarrow> int dbm" where
  "procedure_columns_column_type P D nd r = get_ref nd r (get_integer P D r (True, 2)) 4"

definition procedure_columns_data_type :: "platform \<Rightarrow> odbc \<Rightarrow> bool \<Rightarrow> nat \<Rightarrow> int dbm" where
  "procedure_columns_data_type P D nd r = get_ref nd r (get_integer P D r (True, 2)) 5"

definition procedure_columns_type_name :: "platform \<Rightarrow> odbc \<Rightarrow> bool \<Rightarrow> nat \<Rightarrow> string dbm" where
  "procedure_columns_type_name P D nd r = get_ref nd r (get_string P D r) 6"

definition procedure_columns_column_size :: "platform \<Rightarrow> odbc \<Rightarrow> bool \<Rightarrow> nat \<Rightarrow> int dbm" where
  "procedure_columns_column_size P D nd r = get_ref_fallback nd r (get_integer P D r (True, 8)) 0 7"

definition procedure_columns_buffer_length :: "platform \<Rightarrow> odbc \<Rightarrow> bool \<Rightarrow> nat \<Rightarrow> int dbm" where
  "procedure_columns_buffer_length P D nd r = get_ref nd r (get_integer P D r (True, 8)) 8"

definition procedure_columns_decimal_digits :: "platform \<Rightarrow> odbc \<Rightarrow> bool \<Rightarrow> nat \<Rightarrow> int dbm" where
  "procedure_columns_decimal_digits P D nd r = get_ref_fallback nd r (get_integer P D r (True, 2)) 0 9"

definition procedure_columns_numeric_precision_radix :: "platform \<Rightarrow> odbc \<Rightarrow> bool \<Rightarrow> nat \<Rightarrow> int dbm" where
  "procedure_columns_numeric_precision_radix P D nd r = get_ref_fallback nd r (get_integer P D r (True, 2)) 0 10"

definition procedure_columns_nullable :: "platform \<Rightarrow> odbc \<Rightarrow> bool \<Rightarrow> nat \<Rightarrow> int dbm" where
  "procedure_columns_nullable P D nd r = get_ref nd r (get_integer P D r (True, 2)) 11"

definition procedure_columns_remarks :: "platform \<Rightarrow> odbc \<Rightarrow> bool \<Rightarrow> nat \<Rightarrow> string dbm" where
  "procedure_columns_remarks P D nd r = get_ref_fallback nd r (get_string P D r) [] 12"

definition procedure_columns_column_default :: "platform \<Rightarrow> odbc \<Rightarrow> bool \<Rightarrow> nat \<Rightarrow> string dbm" where
  "procedure_columns_column_default P D nd r = get_ref_fallback nd r (get_string P D r) [] 13"

definition procedure_columns_sql_data_type :: "platform \<Rightarrow> odbc \<Rightarrow> bool \<Rightarrow> nat \<Rightarrow> int dbm" where
  "procedure_columns_sql_data_type P D nd r = get_ref nd r (get_integer P D r (True, 2)) 14"

definition procedure_columns_sql_datetime_subtype :: "platform \<Rightarrow> odbc \<Rightarrow> bool \<Rightarrow> nat \<Rightarrow> int dbm" where
  "procedure_columns_sql_datetime_subtype P D nd r = get_ref_fallback nd r (get_integer P D r (True, 2)) 0 15"

definition procedure_columns_char_octet_length :: "platform \<Rightarrow> odbc \<Rightarrow> bool \<Rightarrow> nat \<Rightarrow> int dbm" where
  "procedure_columns_char_octet_length P D nd r = get_ref_fallback nd r (get_integer P D r (True, 8)) 0 16"

definition procedure_columns_ordinal_position :: "platform \<Rightarrow> odbc \<Rightarrow> bool \<Rightarrow> nat \<Rightarrow> int dbm" where
  "procedure_columns_ordinal_position P D nd r = get_ref nd r (get_integer P D r (True, 8)) 17"

definition procedure_columns_is_nullable :: "platform \<Rightarrow> odbc \<Rightarrow> bool \<Rightarrow> nat \<Rightarrow> string dbm" where
  "procedure_columns_is_nullable P D nd r = get_ref_fallback nd r (get_string P D r) [] 18"

text \<open>\<^verbatim>\<open>catalog::columns\<close>.\<close>

definition columns_next :: "odbc \<Rightarrow> bool \<Rightarrow> nat \<Rightarrow> bool dbm" where
  "columns_next D nd r = result_next D nd r 0"

definition columns_table_catalog :: "platform \<Rightarrow> odbc \<Rightarrow> bool \<Rightarrow> nat \<Rightarrow> string dbm" where
  "columns_table_catalog P D nd r = get_ref_fallback nd r (get_string P D r) [] 0"

definition columns_table_schema :: "platform \<Rightarrow> odbc \<Rightarrow> bool \<Rightarrow> nat \<Rightarrow> string dbm" where
  "columns_table_schema P D nd r = get_ref_fallback nd r (get_string P D r) [] 1"

definition columns_table_name :: "platform \<Rightarrow> odbc \<Rightarrow> bool \<Rightarrow> nat \<Rightarrow> string dbm" where
  "columns_table_name P D nd r = get_ref nd r (get_string P D r) 2"

definition columns_column_name :: "platform \<Rightarrow> odbc \<Rightarrow> bool \<Rightarrow> nat \<Rightarrow> string dbm" where
  "columns_column_name P D nd r = get_ref nd r (get_string P D r) 3"

definition columns_data_type :: "platform \<Rightarrow> odbc \<Rightarrow> bool \<Rightarrow> nat \<Rightarrow> int dbm" where
  "columns_data_type P D nd r = get_ref nd r (get_integer P D r (True, 2)) 4"

definition columns_type_name :: "platform \<Rightarrow> odbc \<Rightarrow> bool \<Rightarrow> nat \<Rightarrow> string dbm" where
  "columns_type_name P D nd r = get_ref nd r (get_string P D r) 5"

definition columns_column_size :: "platform \<Rightarrow> odbc \<Rightarrow> bool \<Rightarrow> nat \<Rightarrow> int dbm" where
  "columns_column_size P D nd r = get_ref nd r (get_integer P D r (True, 8)) 6"

definition columns_buffer_length :: "platform \<Rightarrow> odbc \<Rightarrow> bool \<Rightarrow> nat \<Rightarrow> int dbm" where
  "columns_buffer_length P D nd r = get_ref nd r (get_integer P D r (True, 8)) 7"

definition columns_decimal_digits :: "platform \<Rightarrow> odbc \<Rightarrow> bool \<Rightarrow> nat \<Rightarrow> int dbm" where
  "columns_decimal_digits P D nd r = get_ref_fallback nd r (get_integer P D r (True, 2)) 0 8"

definition columns_numeric_precision_radix :: "platform \<Rightarrow> odbc \<Rightarrow> bool \<Rightarrow> nat \<Rightarrow> int dbm" where
  "columns_numeric_precision_radix P D nd r = get_ref_fallback nd r (get_integer P D r (True, 2)) 0 9"

definition columns_nullable :: "platform \<Rightarrow> odbc \<Rightarrow> bool \<Rightarrow> nat \<Rightarrow> int dbm" where
  "columns_nullable P D nd r = get_ref nd r (get_integer P D r (True, 2)) 10"

definition columns_remarks :: "platform \<Rightarrow> odbc \<Rightarrow> bool \<Rightarrow> nat \<Rightarrow> string dbm" where
  "columns_remarks P D nd r = get_ref_fallback nd r (get_string P D r) [] 11"

definition columns_column_default :: "platform \<Rightarrow> odbc \<Rightarrow> bool \<Rightarrow> nat \<Rightarrow> string dbm" where
  "columns_column_default P D nd r = get_ref_fallback nd r (get_string P D r) [] 12"

definition columns_sql_data_type :: "platform \<Rightarrow> odbc \<Rightarrow> bool \<Rightarrow> nat \<Rightarrow> int dbm" where
  "columns_sql_data_type P D nd r = get_ref nd r (get_integer P D r (True, 2)) 13"

definition columns_sql_datetime_subtype :: "platform \<Rightarrow> odbc \<Rightarrow> bool \<Rightarrow> nat \<Rightarrow> int dbm" where
  "columns_sql_datetime_subtype P D nd r = get_ref_fallback nd r (get_integer P D r (True, 2)) 0 14"

definition columns_char_octet_length :: "platform \<Rightarrow> odbc \<Rightarrow> bool \<Rightarrow> nat \<Rightarrow> int dbm" where
  "columns_char_octet_length P D nd r = get_ref_fallback nd r (get_integer P D r (True, 8)) 0 15"

definition columns_ordinal_position :: "platform \<Rightarrow> odbc \<Rightarrow> bool \<Rightarrow> nat \<Rightarrow> int dbm" where
  "columns_ordinal_position P D nd r = get_ref nd r (get_integer P D r (True, 8)) 16"

definition columns_is_nullable :: "platform \<Rightarrow> odbc \<Rightarrow> bool \<Rightarrow> nat \<Rightarrow> string dbm" where
  "columns_is_nullable P D nd r = get_ref_fallback nd r (get_string P D r) [] 17"

section \<open>Searches\<close>

text \<open>An empty string does not constrain a search; others are read up to a terminator.\<close>

definition pattern :: "string \<Rightarrow> string option" where
  "pattern s = (if s = [] then None else Some (cstr s))"

definition find_with :: "odbc \<Rightarrow> bool \<Rightarrow> nat \<Rightarrow> (handle \<Rightarrow> sql_call) \<Rightarrow> nat dbm" where
  "find_with D nd conn call = db_bind (stmt_create_on D conn) (\<lambda>a.
     db_catch (db_then (stmt_ok D a call) (result_create D nd a 1)) (\<lambda>e. db_then (stmt_destroy D a) (db_throw e)))"

definition find_tables :: "odbc \<Rightarrow> bool \<Rightarrow> nat \<Rightarrow> string \<Rightarrow> string \<Rightarrow> string \<Rightarrow> string \<Rightarrow> nat dbm" where
  "find_tables D nd conn table type schema catalog =
     find_with D nd conn (\<lambda>h. Tables h (pattern catalog) (pattern schema) (pattern table) (pattern type))"

definition find_procedures :: "odbc \<Rightarrow> bool \<Rightarrow> nat \<Rightarrow> string \<Rightarrow> string \<Rightarrow> string \<Rightarrow> nat dbm" where
  "find_procedures D nd conn procedure schema catalog =
     find_with D nd conn (\<lambda>h. Procedures h (pattern catalog) (pattern schema) (pattern procedure))"

definition find_procedure_columns :: "odbc \<Rightarrow> bool \<Rightarrow> nat \<Rightarrow> string \<Rightarrow> string \<Rightarrow> string \<Rightarrow> string \<Rightarrow> nat dbm" where
  "find_procedure_columns D nd conn column procedure schema catalog =
     find_with D nd conn (\<lambda>h. Procedure_columns h (pattern catalog) (pattern schema) (pattern procedure) (pattern column))"

definition find_table_privileges :: "odbc \<Rightarrow> bool \<Rightarrow> nat \<Rightarrow> string \<Rightarrow> string \<Rightarrow> string \<Rightarrow> nat dbm" where
  "find_table_privileges D nd conn catalog table schema =
     find_with D nd conn (\<lambda>h. Table_privileges h (pattern catalog) (pattern schema) (pattern table))"

definition find_columns :: "odbc \<Rightarrow> bool \<Rightarrow> nat \<Rightarrow> string \<Rightarrow> string \<Rightarrow> string \<Rightarrow> string \<Rightarrow> nat dbm" where
  "find_columns D nd conn column table schema catalog =
     find_with D nd conn (\<lambda>h. Columns h (pattern catalog) (pattern schema) (pattern table) (pattern column))"

definition find_primary_keys :: "odbc \<Rightarrow> bool \<Rightarrow> nat \<Rightarrow> string \<Rightarrow> string \<Rightarrow> string \<Rightarrow> nat dbm" where
  "find_primary_keys D nd conn table schema catalog =
     find_with D nd conn (\<lambda>h. Primary_keys h (pattern catalog) (pattern schema) (pattern table))"

text \<open>The columns of a procedure, on a statement of the client: the name of the procedure is passed even when empty.\<close>

definition stmt_procedure_columns :: "odbc \<Rightarrow> bool \<Rightarrow> nat \<Rightarrow> string \<Rightarrow> string \<Rightarrow> string \<Rightarrow> string \<Rightarrow> nat dbm" where
  "stmt_procedure_columns D nd a catalog schema procedure column = db_bind (stmt_get a) (\<lambda>t.
     if \<not> st_open t then db_throw (Programming_error ''statement has no associated open connection'')
     else db_then (disable_async D a)
      (db_then (stmt_ok D a (\<lambda>h. Procedure_columns h (pattern catalog) (pattern schema) (Some (cstr procedure)) (pattern column)))
        (result_create D nd a 1)))"

text \<open>Lists of names: all catalogs, schemas or types of tables, the other arguments empty strings.\<close>

definition list_with :: "odbc \<Rightarrow> bool \<Rightarrow> nat \<Rightarrow> (handle \<Rightarrow> sql_call) \<Rightarrow> nat \<Rightarrow> (nat \<Rightarrow> 'a dbm) \<Rightarrow> 'a list dbm" where
  "list_with D nd conn call fuel name = db_bind (stmt_create_on D conn) (\<lambda>a. db_finally
     (db_then (stmt_ok D a call) (db_bind (result_create D nd a 1) (\<lambda>r.
       db_finally (while_step fuel (tables_next D nd r) (name r)) (result_destroy r))))
     (stmt_destroy D a))"

definition list_catalogs :: "nat \<Rightarrow> platform \<Rightarrow> odbc \<Rightarrow> bool \<Rightarrow> nat \<Rightarrow> string list dbm" where
  "list_catalogs fuel P D nd conn =
     list_with D nd conn (\<lambda>h. Tables h (Some ''%'') (Some []) (Some []) (Some [])) fuel (tables_table_catalog P D nd)"

definition list_schemas :: "nat \<Rightarrow> platform \<Rightarrow> odbc \<Rightarrow> bool \<Rightarrow> nat \<Rightarrow> string list dbm" where
  "list_schemas fuel P D nd conn =
     list_with D nd conn (\<lambda>h. Tables h (Some []) (Some ''%'') (Some []) (Some [])) fuel (tables_table_schema P D nd)"

definition list_table_types :: "nat \<Rightarrow> platform \<Rightarrow> odbc \<Rightarrow> bool \<Rightarrow> nat \<Rightarrow> string list dbm" where
  "list_table_types fuel P D nd conn =
     list_with D nd conn (\<lambda>h. Tables h (Some []) (Some []) (Some []) (Some ''%'')) fuel (tables_table_type P D nd)"

section \<open>Reading text\<close>

text \<open>A cell of text, up to its terminator, and the text that stands for a null.\<close>

definition cell_text :: "int \<times> bytes \<Rightarrow> string" where
  "cell_text x = (if fst x = sql_null_data then [] else chars_of (takeWhile (\<lambda>b. b \<noteq> 0) (snd x)))"

definition text_cells :: "nat \<Rightarrow> (int \<times> nat) list \<Rightarrow> (int \<times> bytes) list list \<Rightarrow> bool" where
  "text_cells c bs cells \<longleftrightarrow> c < length bs \<and> fst (bs ! c) = sql_c_char \<and> (\<forall>row \<in> set cells. 0 \<in> set (snd (row ! c)))"

lemma text_read:
  assumes "text_cells c bs cells" and "served D h0 st R cells" and "at_row a h0 st R cells bs i s" and "i < length cells"
  shows "get_ref_fallback nd a (get_string P D a) [] (int c) s = (s, Inr (cell_text (cells ! i ! c)))"
    and "get_ref nd a (get_string P D a) (int c) s =
      (s, if fst (cells ! i ! c) = sql_null_data then Inl (Db_throw Null_access_error) else Inr (cell_text (cells ! i ! c)))"
proof -
  have c: "c < length bs" "fst (bs ! c) = sql_c_char" "0 \<in> set (snd (cells ! i ! c))" using assms(1,4) by (auto simp: text_cells_def)
  have R: "R > 0" "int R \<le> long_max" using assms(2) by (simp_all add: served_def)
  obtain r col xs ys p where h: "db_results s a = Some r" "c < length (rs_columns r)" "rs_columns r ! c = col" "bc_bound col" "bc_ctype col = fst (bs ! c)"
      "bc_pdata col = Some ys" "rs_position r = int p" "p < length ys" "ys ! p = snd (cells ! i ! c)"
      "\<And>nd. is_null nd a (int c) s = (s, Inr (fst (cells ! i ! c) = sql_null_data))"
    using cell_here [OF assms(3,4) R c(1)] by metis
  have "get_string P D a (int c) s = (s, Inr (chars_of (takeWhile (\<lambda>b. b \<noteq> 0) (snd (cells ! i ! c)))))"
    using h c by (simp add: get_string_def get_text_def column_at_def is_bound_def throw_if_column_is_out_of_range_def at_position_def)
  then show "get_ref_fallback nd a (get_string P D a) [] (int c) s = (s, Inr (cell_text (cells ! i ! c)))"
    "get_ref nd a (get_string P D a) (int c) s =
      (s, if fst (cells ! i ! c) = sql_null_data then Inl (Db_throw Null_access_error) else Inr (cell_text (cells ! i ! c)))"
    using h by (simp_all add: get_ref_fallback_def get_ref_def throw_if_column_is_out_of_range_def cell_text_def)
qed

interpretation text_rows: served_result D nd a h0 st R cells bs "get_ref_fallback nd a (get_string P D a) [] (int c)" "\<lambda>row. cell_text (row ! c)"
  "text_cells c bs cells" for D nd a h0 st R cells bs P c
  by unfold_locales (rule text_read(1))


section \<open>Handles and objects that reading leaves alone\<close>

text \<open>A computation is quiet when it allocates and frees no handle and changes no connection and no statement but for its asynchronous mode.\<close>

definition owned :: "statement_impl \<Rightarrow> handle \<times> bool \<times> nat" where
  "owned t = (st_stmt t, st_open t, st_conn t)"

definition quiet :: "odbc \<Rightarrow> db \<Rightarrow> db \<Rightarrow> bool" where
  "quiet D s s' \<longleftrightarrow> live_handles D s' = live_handles D s \<and> db_conns s' = db_conns s \<and> (\<lambda>a. map_option owned (db_stmts s' a)) = (\<lambda>a. map_option owned (db_stmts s a))"

interpretation qt: db_preorder "quiet D" for D
  by unfold_locales (simp_all add: quiet_def)

named_theorems quiet \<open>quiet computations\<close>

lemmas qt.within_rules [quiet] qt.within_finally [quiet]

lemma quiet_sql [quiet]: "\<not> handle_call c \<Longrightarrow> within (quiet D) (sql D c)" "\<not> handle_call c \<Longrightarrow> within (quiet D) (sql_ok D c h ht)"
  by (auto simp: within_def quiet_def live_handles_def live_other)

lemma quiet_modify [quiet]:
  "(\<And>s. db_calls (f s) = db_calls s \<and> db_conns (f s) = db_conns s \<and> db_stmts (f s) = db_stmts s) \<Longrightarrow> within (quiet D) (db_modify f)"
  by (simp add: within_def quiet_def live_handles_def)

lemma quiet_new [quiet]: "within (quiet D) db_new"
  by (simp add: within_def quiet_def live_handles_def)

lemma quiet_result_put [quiet]: "within (quiet D) (result_put a f)"
  unfolding result_put_def by (intro quiet) simp

lemma quiet_stmt_put [quiet]: "(\<And>t. owned (f t) = owned t) \<Longrightarrow> within (quiet D) (stmt_put a f)"
  by (auto simp: within_def quiet_def live_handles_def stmt_put_def stmt_get_def the_obj_def db_bind_def fun_eq_iff split: option.split)

lemma quiet_stmt_ok [quiet]: "(\<And>h. \<not> handle_call (call h)) \<Longrightarrow> within (quiet D) (stmt_ok D a call)" "(\<And>h. \<not> handle_call (call h)) \<Longrightarrow> within (quiet D) (result_stmt_ok D a call)"
  unfolding result_stmt_ok_def stmt_ok_def by (intro quiet; simp)+

lemma quiet_async [quiet]: "within (quiet D) (disable_async D a)" "within (quiet D) (enable_async D a e)"
  unfolding disable_async_def enable_async_def by (intro quiet; simp add: owned_def)+

lemma quiet_columns [quiet]: "within (quiet D) (stmt_columns D a)" "within (quiet D) (before_move a)" "within (quiet D) (put_column a i f)"
  unfolding stmt_columns_def before_move_def put_column_def by (intro quiet; simp)+

lemma quiet_result_destroy [quiet]: "within (quiet D) (result_destroy a)"
  unfolding result_destroy_def cleanup_bound_columns_def by (intro quiet)

lemma quiet_bind_column [quiet]: "within (quiet D) (bind_column D nd a i)" "within (quiet D) (unbind_column D nd a i)" "within (quiet D) (describe_column D a i)"
  unfolding bind_column_def unbind_column_def describe_column_def Let_def by (intro quiet; simp)+

lemma quiet_result_create [quiet]: "within (quiet D) (result_create D nd a n)"
  unfolding result_create_def auto_bind_columns_def cleanup_bound_columns_def allocate_column_def Let_def by (intro quiet qt.within_each; simp)

lemma quiet_result_next [quiet]: "within (quiet D) (result_next D nd a 0)"
  unfolding result_next_def fetch_def use_event_def rows_in_def set_position_def Let_def by (intro quiet; simp)

lemma quiet_access [quiet]: "within (quiet D) (throw_if_column_is_out_of_range a c)" "within (quiet D) (column_at a c)" "within (quiet D) (at_position p xs)"
  "within (quiet D) (rows_in nd a)" "within (quiet D) (take_bytes n b)"
  unfolding throw_if_column_is_out_of_range_def column_at_def at_position_def rows_in_def take_bytes_def by (intro quiet)+

lemma quiet_is_null [quiet]: "within (quiet D) (is_null nd a c)" "within (quiet D) (is_bound a c)" "within (quiet D) (mark_null a c)"
  unfolding is_null_def is_bound_def mark_null_def by (intro quiet)+

lemma quiet_ensure_pdata [quiet]: "within (quiet D) (ensure_pdata D a n ctype c)"
  unfolding ensure_pdata_def by (intro quiet; simp)

text \<open>Data in pieces: the same call over and over.\<close>

lemma get_pieces_calls: "get_pieces D c piece calls out null = Some q \<Longrightarrow> \<exists>k. fst q = calls @ replicate k c"
proof (rule get_pieces.raw_induct [where P = "\<lambda>_ c _ calls _ _ q. \<exists>k. fst q = calls @ replicate k c"])
  fix get D c piece calls out null q
  assume IH: "\<And>D c piece calls out null q. get D c piece calls out null = Some q \<Longrightarrow> \<exists>k. fst q = calls @ replicate k c"
    and step: "(let calls' = calls @ [c]; rc = od_rc D calls'; ind = fst (od_piece D calls'); buffer = pad_to 1024 0 (take 1024 (snd (od_piece D calls')));
          out' = out @ piece ind buffer; null' = (null \<or> ind = sql_null_data)
      in if rc = Sql_success_with_info then get D c piece calls' out' null' else Some (calls', rc, out', null')) = Some q"
  show "\<exists>k. fst q = calls @ replicate k c"
  proof (cases "od_rc D (calls @ [c]) = Sql_success_with_info")
    case True
    then obtain k where "fst q = (calls @ [c]) @ replicate k c" using step IH by (fastforce simp: Let_def)
    then show ?thesis by (intro exI [of _ "Suc k"]) simp
  next
    case False
    then show ?thesis using step by (intro exI [of _ 1]) (auto simp: Let_def)
  qed
qed

lemma live_replicate: "\<not> handle_call c \<Longrightarrow> live_rev D (replicate k c @ cs) = live_rev D cs"
  by (induction k) (simp_all add: live_other)

lemma quiet_run_pieces [quiet]: "within (quiet D) (run_pieces D a c h ctype piece)"
proof -
  let ?c = "Get_data h (c + 1) ctype 1024"
  have "quiet D s (fst (run_pieces D a c h ctype piece s))" for s
  proof (cases "get_pieces D ?c piece (db_calls s) [] False")
    case None
    then show ?thesis using qt.reflexive by (simp add: run_pieces_def)
  next
    case (Some q)
    then obtain calls' rc out null k where q: "q = (calls', rc, out, null)" "calls' = db_calls s @ replicate k ?c"
      using get_pieces_calls [OF Some] by (cases q) auto
    have "quiet D s (s\<lparr>db_calls := calls'\<rparr>)" by (simp add: quiet_def live_handles_def q(2) live_replicate)
    moreover have "within (quiet D) (db_then (db_when null (mark_null a c)) (if rc = Sql_success \<or> rc = Sql_no_data then db_return out else db_throw (Database_error h Handle_stmt)))"
      by (intro quiet)
    ultimately show ?thesis using Some q(1) qt.transitive unfolding within_def by (fastforce simp: run_pieces_def)
  qed
  then show ?thesis by (simp add: within_def)
qed

lemma quiet_text [quiet]: "within (quiet D) (get_text D a c)" "within (quiet D) (narrowed P b)" "within (quiet D) (print_value D a len ctype c f n)"
  unfolding get_text_def narrowed_def print_value_def by (intro quiet)+

lemma quiet_get_string [quiet]: "within (quiet D) (get_string P D a c)"
  unfolding get_string_def get_wide_text_def Let_def by (intro quiet)

lemma quiet_get_ref [quiet]: "(\<And>c. within (quiet D) (g c)) \<Longrightarrow> within (quiet D) (get_ref nd a g c)"
  "(\<And>c. within (quiet D) (g c)) \<Longrightarrow> within (quiet D) (get_ref_fallback nd a g x c)"
  unfolding get_ref_def get_ref_fallback_def by (intro quiet; simp)+

lemma quiet_while [quiet]: "within (quiet D) step \<Longrightarrow> within (quiet D) row \<Longrightarrow> within (quiet D) (while_step n step row)"
  by (induction n) (simp_all add: quiet)


section \<open>Statements of a catalog\<close>

lemma create_on_run:
  assumes "db_conns s conn = Some c" and "conn < db_next s" and "h1 = db_calls s @ [Alloc_handle Handle_stmt (cn_dbc c)]"
  shows "\<exists>s1. stmt_create_on D conn s = (s1, if success (od_rc D h1) then Inr (db_next s + 1)
        else Inl (Db_throw (if od_handle D h1 = 0 then Database_error (cn_dbc c) Handle_dbc else Database_error (od_handle D h1) Handle_stmt))) \<and>
      db_calls s1 = h1 \<and> db_next s1 = db_next s + 2 \<and> db_conns s1 conn = Some c \<and>
      (success (od_rc D h1) \<longrightarrow> (\<exists>t. db_stmts s1 (db_next s + 1) = Some t \<and> owned t = (od_handle D h1, True, conn) \<and> \<not> st_async_enabled t))"
  using assms by (simp add: stmt_create_on_def stmt_create_def conn_create_def stmt_open_def stmt_close_def stmt_connected_def stmt_empty_def conn_empty_def owned_def)

lemma create_on_cases:
  assumes "alloc_documented D" and "db_conns s conn = Some c" and "conn < db_next s"
  obtains (failed) s1 e where "stmt_create_on D conn s = (s1, Inl (Db_throw e))" "live_handles D s1 = live_handles D s"
    | (created) s1 t h where "stmt_create_on D conn s = (s1, Inr (db_next s + 1))" "live_handles D s1 = live_handles D s + 1" "db_conns s1 conn = Some c"
      "db_stmts s1 (db_next s + 1) = Some t" "owned t = (h, True, conn)" "h \<noteq> 0"
proof -
  let ?h1 = "db_calls s @ [Alloc_handle Handle_stmt (cn_dbc c)]"
  have h: "success (od_rc D ?h1) \<longleftrightarrow> od_handle D ?h1 \<noteq> 0" using assms(1) by (simp add: alloc_documented_def)
  show thesis
    by (cases "success (od_rc D ?h1)") (use create_on_run [OF assms(2,3) refl, of D] h failed created in \<open>auto simp: live_handles_def\<close>)
qed

lemma destroy_frees:
  assumes "db_stmts s a = Some t" and "owned t = (h, True, conn)" and "h \<noteq> 0" and "db_conns s conn = Some c" and "cn_connected c"
    and "\<And>h. accepts D (Free_handle Handle_stmt h)"
  shows "\<exists>s'. stmt_destroy D a s = (s', Inr ()) \<and> live_handles D s' = live_handles D s - 1"
proof -
  let ?calls = "db_calls s @ [Cancel h, Free_stmt h Sql_reset_params, Free_handle Handle_stmt h]"
  have acc: "success (od_rc D ?calls)" using assms(6) [of h, unfolded accepts_def, rule_format, of "db_calls s @ [Cancel h, Free_stmt h Sql_reset_params]"] by simp
  have t: "st_stmt t = h" "st_open t" "st_conn t = conn" using assms(2) by (simp_all add: owned_def)
  have "\<exists>s'. stmt_destroy D a s = (s', Inr ()) \<and> db_calls s' = ?calls"
    using assms(1,3-5) acc t by (simp add: stmt_destroy_def stmt_connected_def reset_parameters_def stmt_free_def deallocate_handle_def set_stmt_def)
  then show ?thesis using acc by (auto simp: live_handles_def)
qed

text \<open>A quiet computation with a statement of its own, which is destroyed in the end.\<close>

lemma statement_scope:
  assumes "within (quiet D) m" and "m s = (s', r)" and "db_stmts s a = Some t" and "owned t = (h, True, conn)" and "h \<noteq> 0"
    and "db_conns s conn = Some c" and "cn_connected c" and "\<And>h. accepts D (Free_handle Handle_stmt h)"
  shows "live_handles D s' = live_handles D s" and "\<exists>s2. stmt_destroy D a s' = (s2, Inr ()) \<and> live_handles D s2 = live_handles D s - 1"
proof -
  have q: "quiet D s s'" using assms(1,2) by (rule withinD)
  then show "live_handles D s' = live_handles D s" by (simp add: quiet_def)
  have "map_option owned (db_stmts s' a) = Some (owned t)" using q assms(3) by (metis quiet_def option.map(2))
  then obtain t' where t': "db_stmts s' a = Some t'" "owned t' = (h, True, conn)" using assms(4) by auto
  have conns: "db_conns s' conn = Some c" using q assms(6) by (simp add: quiet_def)
  show "\<exists>s2. stmt_destroy D a s' = (s2, Inr ()) \<and> live_handles D s2 = live_handles D s - 1"
    using destroy_frees [OF t' assms(5) conns assms(7,8)] q by (auto simp: quiet_def)
qed

section \<open>Properties\<close>

definition table_row :: "platform \<Rightarrow> odbc \<Rightarrow> bool \<Rightarrow> nat \<Rightarrow> string list dbm" where
  "table_row P D nd r = db_map (\<lambda>f. f P D nd r) [tables_table_catalog, tables_table_schema, tables_table_name, tables_table_type, tables_table_remarks]"

definition table_cells :: "(int \<times> nat) list \<Rightarrow> (int \<times> bytes) list list \<Rightarrow> bool" where
  "table_cells bs cells \<longleftrightarrow> list_all (\<lambda>c. text_cells c bs cells) [0, 1, 2, 3, 4] \<and>
     list_all (\<lambda>row. fst (row ! 2) \<noteq> sql_null_data \<and> fst (row ! 3) \<noteq> sql_null_data) cells"

interpretation table_rows: served_result D nd a h0 st R cells bs "table_row P D nd a" "\<lambda>row. map (\<lambda>c. cell_text (row ! c)) [0, 1, 2, 3, 4]"
  "table_cells bs cells" for D nd a h0 st R cells bs P
proof unfold_locales
  fix i s
  assume h: "table_cells bs cells" "served D h0 st R cells" "at_row a h0 st R cells bs i s" "i < length cells"
  have "cells ! i \<in> set cells" using h(4) by simp
  then have "fst (cells ! i ! 2) \<noteq> sql_null_data" "fst (cells ! i ! 3) \<noteq> sql_null_data" using h(1) by (auto simp: table_cells_def list_all_iff)
  then show "table_row P D nd a s = (s, Inr (map (\<lambda>c. cell_text (cells ! i ! c)) [0, 1, 2, 3, 4]))"
    using h(1) text_read [OF _ h(2-4), of 0] text_read [OF _ h(2-4), of 1] text_read [OF _ h(2-4), of 2] text_read [OF _ h(2-4), of 3] text_read [OF _ h(2-4), of 4]
    by (simp add: table_cells_def table_row_def tables_table_catalog_def tables_table_schema_def tables_table_name_def tables_table_type_def
        tables_table_remarks_def)
qed

lemma find_with_ready:
  assumes "result_driver D h bs" and "bs \<noteq> []" and "db_conns s conn = Some c" and "conn < db_next s"
    and "h = od_handle D (db_calls s @ [Alloc_handle Handle_stmt (cn_dbc c)])" and "\<And>k i. call h \<noteq> Fetch_scroll h k i"
  shows "\<exists>s'. find_with D nd conn call s = (s', Inr (db_next s + 2)) \<and>
    before_rows (db_next s + 2) (db_calls s @ [Alloc_handle Handle_stmt (cn_dbc c), call h] @ bind_calls h (db_next s + 2) 1 bs) h 1 bs s'"
proof -
  let ?h1 = "db_calls s @ [Alloc_handle Handle_stmt (cn_dbc c)]"
  have acc: "success (od_rc D (cs @ [x]))" if "\<And>k i. x \<noteq> Fetch_scroll h k i" for cs x using assms(1) that by (simp add: result_driver_def accepts_def)
  obtain s1 t where s1: "stmt_create_on D conn s = (s1, Inr (db_next s + 1))" "db_calls s1 = ?h1" "db_next s1 = db_next s + 2"
      "db_stmts s1 (db_next s + 1) = Some t" "owned t = (h, True, conn)" "\<not> st_async_enabled t"
    using create_on_run [OF assms(3,4) refl, of D] acc [of "Alloc_handle Handle_stmt (cn_dbc c)" "db_calls s"] assms(5) by auto
  let ?s2 = "s1\<lparr>db_calls := ?h1 @ [call h]\<rparr>"
  have ok: "stmt_ok D (db_next s + 1) call s1 = (?s2, Inr ())" using s1(2,4,5) acc [OF assms(6), of ?h1] by (simp add: stmt_ok_def owned_def)
  obtain s' where "result_create D nd (db_next s + 1) 1 ?s2 = (s', Inr (db_next s + 2))"
      "before_rows (db_next s + 2) ((?h1 @ [call h]) @ bind_calls h (db_next s + 2) 1 bs) h 1 bs s'"
    using result_create_ready [OF assms(1,2), of ?s2 "db_next s + 1" t nd 1] s1(3-6) by (auto simp: owned_def)
  then show ?thesis using s1(1) ok by (simp add: find_with_def)
qed

text \<open>
  C13. A search for tables gives exactly the rows the driver serves for the patterns of the client: a loop over
  \<^verbatim>\<open>next\<close> that reads the five columns sees every table once, in order, with empty text for a catalog, a schema
  or remarks that are null, and it ends.
\<close>

theorem tables_found:
  assumes "result_driver D h bs" and "db_conns s conn = Some c" and "conn < db_next s"
    and "h = od_handle D (db_calls s @ [Alloc_handle Handle_stmt (cn_dbc c)])"
    and "serves D (db_calls s @ [Alloc_handle Handle_stmt (cn_dbc c), Tables h (pattern catalog) (pattern schema) (pattern table) (pattern type)] @
      bind_calls h (db_next s + 2) 1 bs) h 1 rows"
    and "table_cells bs rows" and "length rows < fuel"
  shows "\<exists>s'. db_bind (find_tables D nd conn table type schema catalog) (\<lambda>r. while_step fuel (tables_next D nd r) (table_row P D nd r)) s =
    (s', Inr (map (\<lambda>row. map (\<lambda>c. cell_text (row ! c)) [0, 1, 2, 3, 4]) rows))"
proof -
  let ?r = "db_next s + 2"
  let ?h0 = "db_calls s @ [Alloc_handle Handle_stmt (cn_dbc c), Tables h (pattern catalog) (pattern schema) (pattern table) (pattern type)] @ bind_calls h ?r 1 bs"
  have bs: "bs \<noteq> []" using assms(6) by (auto simp: table_cells_def text_cells_def)
  obtain s1 where s1: "find_tables D nd conn table type schema catalog s = (s1, Inr ?r)" "before_rows ?r ?h0 h 1 bs s1"
    using find_with_ready [OF assms(1) bs assms(2-4), of "\<lambda>h. Tables h (pattern catalog) (pattern schema) (pattern table) (pattern type)" nd]
    by (auto simp: find_tables_def)
  have "served D ?h0 h 1 rows" using assms(5) by (simp add: served_def long_max_def)
  then obtain s' where "while_step fuel (tables_next D nd ?r) (table_row P D nd ?r) s1 = (s', Inr (map (\<lambda>row. map (\<lambda>c. cell_text (row ! c)) [0, 1, 2, 3, 4]) rows))"
    using table_rows.loop_reads_all assms(6,7) s1(2) unfolding tables_next_def by fastforce
  then show ?thesis using s1(1) by simp
qed


text \<open>A driver with one table that has no catalog and no remarks.\<close>

definition one_table :: "(int \<times> bytes) list list" where
  "one_table = [[(-1, [0]), (3, [100, 98, 111, 0]), (1, [116, 0]), (5, [84, 65, 66, 76, 69, 0]), (-1, [0])]]"

definition tables_calls :: "sql_call list" where
  "tables_calls = [Alloc_handle Handle_stmt 2, Tables 1 None None (Some ''t%'') None] @ bind_calls 1 10 1 (replicate 5 (sql_c_char, 11))"

definition table_driver :: odbc where
  "table_driver = willing\<lparr>od_number := (\<lambda>_. 5), od_column := (\<lambda>_. \<lparr>cd_name = ''x'', cd_sqltype = 12, cd_size = 10, cd_scale = 0\<rparr>),
     od_rc := (\<lambda>h. if h \<noteq> [] \<and> last h = fetch_next_call 1 \<and> h \<noteq> tables_calls @ [fetch_next_call 1] then Sql_no_data else Sql_success),
     od_rows_fetched := (\<lambda>_. 1), od_cells := (\<lambda>h c. map (\<lambda>row. row ! c) one_table)\<rparr>"

lemma table_driver_serves: "serves table_driver tables_calls 1 1 one_table"
proof -
  have "rowset 1 one_table 0 = one_table" "\<And>k. rowset 1 one_table (Suc k) = []" by (simp_all add: rowset_def one_table_def)
  moreover have "one_table \<noteq> []" by (simp add: one_table_def)
  ultimately have "let h = tables_calls @ replicate (Suc k) (fetch_next_call 1); part = rowset 1 one_table k in
      if part = [] then od_rc table_driver h = Sql_no_data
      else success (od_rc table_driver h) \<and> od_rows_fetched table_driver h = length part \<and> (\<forall>c. od_cells table_driver h c = map (\<lambda>row. row ! c) part)" for k
    by (cases k) (simp_all add: table_driver_def success_def one_table_def)
  then show ?thesis unfolding serves_def by blast
qed

theorem tables_found_witness:
  "\<exists>s'. db_bind (find_tables table_driver False 1 ''t%'' [] [] []) (\<lambda>r. while_step 2 (tables_next table_driver False r) (table_row plain_platform table_driver False r))
      (connected_db\<lparr>db_next := 8\<rparr>) = (s', Inr [[[], ''dbo'', ''t'', ''TABLE'', []]])"
proof -
  let ?bs = "replicate 5 (sql_c_char, 11 :: nat)" and ?s = "connected_db\<lparr>db_next := 8\<rparr>"
  have D: "result_driver table_driver 1 ?bs"
    by (auto simp: result_driver_def table_driver_def accepts_def willing_def column_binding_def)
  have cells: "table_cells ?bs one_table" by (simp add: table_cells_def text_cells_def one_table_def sql_null_data_def)
  have "\<exists>s'. db_bind (find_tables table_driver False 1 ''t%'' [] [] []) (\<lambda>r. while_step 2 (tables_next table_driver False r) (table_row plain_platform table_driver False r)) ?s =
      (s', Inr (map (\<lambda>row. map (\<lambda>c. cell_text (row ! c)) [0, 1, 2, 3, 4]) one_table))"
    by (rule tables_found [OF D, where c = "conn_empty\<lparr>cn_env := 1, cn_dbc := 2, cn_connected := True\<rparr>"])
      (use table_driver_serves cells in \<open>simp_all add: connected_db_def table_driver_def willing_def tables_calls_def pattern_def cstr_def one_table_def\<close>)
  moreover have "map (\<lambda>row. map (\<lambda>c. cell_text (row ! c)) [0, 1, 2, 3, 4]) one_table = [[[], ''dbo'', ''t'', ''TABLE'', []]]"
    by (simp add: one_table_def cell_text_def sql_null_data_def chars_of_def char_of_def bit_0)
  ultimately show ?thesis by simp
qed

lemma list_with_live:
  assumes "alloc_documented D" and "\<And>h. accepts D (Free_handle Handle_stmt h)" and "db_conns s conn = Some c" and "cn_connected c" and "conn < db_next s"
    and "\<And>h. \<not> handle_call (call h)" and "\<And>r. within (quiet D) (name r)" and "list_with D nd conn call fuel name s = (s', q)"
    and "q = Inr names \<or> q = Inl (Db_throw e)"
  shows "live_handles D s' = live_handles D s"
proof -
  let ?a = "db_next s + 1"
  define m where "m = db_then (stmt_ok D ?a call) (db_bind (result_create D nd ?a 1) (\<lambda>r. db_finally (while_step fuel (tables_next D nd r) (name r)) (result_destroy r)))"
  have quiet: "within (quiet D) m" unfolding m_def tables_next_def by (intro quiet assms(6,7))
  show ?thesis
  proof (rule create_on_cases [OF assms(1,3,5)])
    fix s1 e assume "stmt_create_on D conn s = (s1, Inl (Db_throw e))" "live_handles D s1 = live_handles D s"
    then show ?thesis using assms(8) by (simp add: list_with_def)
  next
    fix s1 t h
    assume s1: "stmt_create_on D conn s = (s1, Inr ?a)" "live_handles D s1 = live_handles D s + 1" "db_conns s1 conn = Some c"
      and t: "db_stmts s1 ?a = Some t" "owned t = (h, True, conn)" "h \<noteq> 0"
    obtain s2 p where p: "m s1 = (s2, p)" by fastforce
    obtain s3 where s3: "stmt_destroy D ?a s2 = (s3, Inr ())" "live_handles D s3 = live_handles D s1 - 1"
      using statement_scope(2) [OF quiet p t s1(3) assms(4,2)] by blast
    have run: "db_finally m (stmt_destroy D ?a) s1 = (s', q)" using assms(8) s1(1) by (simp add: list_with_def m_def)
    have "s' = s3" using run p s3(1) assms(9) by (cases p rule: sum.exhaust; cases "projl p") (auto simp: db_finally_def)
    then show ?thesis using s3(2) s1(2) by simp
  qed
qed

text \<open>
  C14. Listing names leaves nothing behind: whether \<^verbatim>\<open>list_catalogs\<close>, \<^verbatim>\<open>list_schemas\<close> or
  \<^verbatim>\<open>list_table_types\<close> returns or throws, at whichever call the driver fails, the statement it allocated is freed.
\<close>

theorem lists_leave_nothing:
  assumes "alloc_documented D" and "\<And>h. accepts D (Free_handle Handle_stmt h)" and "db_conns s conn = Some c" and "cn_connected c" and "conn < db_next s"
    and "m \<in> {list_catalogs fuel P D nd conn, list_schemas fuel P D nd conn, list_table_types fuel P D nd conn}" and "m s = (s', q)"
    and "q = Inr names \<or> q = Inl (Db_throw e)"
  shows "live_handles D s' = live_handles D s"
proof -
  have quiet: "within (quiet D) (tables_table_catalog P D nd r)" "within (quiet D) (tables_table_schema P D nd r)" "within (quiet D) (tables_table_type P D nd r)" for r
    unfolding tables_table_catalog_def tables_table_schema_def tables_table_type_def by (intro quiet)+
  obtain call name where "m = list_with D nd conn call fuel name" "\<And>h. \<not> handle_call (call h)" "\<And>r. within (quiet D) (name r)"
    using assms(6) quiet by (auto simp: list_catalogs_def list_schemas_def list_table_types_def)
  then show ?thesis using list_with_live [OF assms(1-5)] assms(7,8) by blast
qed


text \<open>A driver that refuses to list tables.\<close>

definition no_tables :: odbc where
  "no_tables = willing\<lparr>od_rc := (\<lambda>h. if h \<noteq> [] \<and> last h = Tables 1 (Some ''%'') (Some []) (Some []) (Some []) then Sql_error else Sql_success)\<rparr>"

theorem lists_leave_nothing_witness:
  "\<exists>s'. list_catalogs 1 plain_platform no_tables False 1 connected_db = (s', Inl (Db_throw (Database_error 1 Handle_stmt))) \<and> live_handles no_tables s' = 0"
proof -
  have run: "\<exists>s'. list_catalogs 1 plain_platform no_tables False 1 connected_db = (s', Inl (Db_throw (Database_error 1 Handle_stmt)))"
    by (simp add: list_catalogs_def list_with_def stmt_create_on_def stmt_create_def conn_create_def stmt_open_def stmt_close_def stmt_connected_def stmt_empty_def
        conn_empty_def connected_db_def no_tables_def willing_def stmt_destroy_def reset_parameters_def stmt_free_def deallocate_handle_def set_stmt_def)
  then obtain s' where s': "list_catalogs 1 plain_platform no_tables False 1 connected_db = (s', Inl (Db_throw (Database_error 1 Handle_stmt)))" by blast
  have D: "alloc_documented no_tables" "\<And>h. accepts no_tables (Free_handle Handle_stmt h)"
    by (auto simp: alloc_documented_def accepts_def no_tables_def willing_def)
  have "live_handles no_tables s' = live_handles no_tables connected_db"
    by (rule lists_leave_nothing [OF D, where c = "conn_empty\<lparr>cn_env := 1, cn_dbc := 2, cn_connected := True\<rparr>" and
          m = "list_catalogs 1 plain_platform no_tables False 1" and fuel = 1 and P = plain_platform and nd = False])
      (use s' in \<open>auto simp: connected_db_def\<close>)
  then show ?thesis using s' by (simp add: connected_db_def live_handles_def)
qed

text \<open>
  A search holds one statement, which its result keeps; a search that throws holds none.
\<close>

theorem searches_hold_one_statement:
  assumes "alloc_documented D" and "\<And>h. accepts D (Free_handle Handle_stmt h)" and "db_conns s conn = Some c" and "cn_connected c" and "conn < db_next s"
    and "\<And>h. \<not> handle_call (call h)" and "find_with D nd conn call s = (s', q)"
  shows "(\<forall>r. q = Inr r \<longrightarrow> live_handles D s' = live_handles D s + 1) \<and> (\<forall>e. q = Inl (Db_throw e) \<longrightarrow> live_handles D s' = live_handles D s)"
proof -
  let ?a = "db_next s + 1"
  define m where "m = db_then (stmt_ok D ?a call) (result_create D nd ?a 1)"
  have quiet: "within (quiet D) m" unfolding m_def by (intro quiet assms(6))
  show ?thesis
  proof (rule create_on_cases [OF assms(1,3,5)])
    fix s1 e assume "stmt_create_on D conn s = (s1, Inl (Db_throw e))" "live_handles D s1 = live_handles D s"
    then show ?thesis using assms(7) by (auto simp: find_with_def)
  next
    fix s1 t h
    assume s1: "stmt_create_on D conn s = (s1, Inr ?a)" "live_handles D s1 = live_handles D s + 1" "db_conns s1 conn = Some c"
      and t: "db_stmts s1 ?a = Some t" "owned t = (h, True, conn)" "h \<noteq> 0"
    obtain s2 p where p: "m s1 = (s2, p)" by fastforce
    note scope = statement_scope [OF quiet p t s1(3) assms(4,2)]
    have "db_catch m (\<lambda>e. db_then (stmt_destroy D ?a) (db_throw e)) s1 = (s', q)" using assms(7) s1(1) by (simp add: find_with_def m_def)
    then show ?thesis using p scope s1(2) by (cases p rule: sum.exhaust; cases "projl p") (auto simp: db_catch_def)
  qed
qed

text \<open>
  A key without a name cannot be read: \<^verbatim>\<open>primary_key_name\<close> is documented to be null where it does not
  apply, but throws, where the other columns that may be null give empty text.
\<close>

theorem nameless_key_throws:
  assumes "text_cells 5 bs cells" and "served D h0 st R cells" and "at_row a h0 st R cells bs i s" and "i < length cells" and "fst (cells ! i ! 5) = sql_null_data"
  shows "primary_keys_primary_key_name P D nd a s = (s, Inl (Db_throw Null_access_error))"
  using text_read(2) [OF assms(1-4), of nd P] assms(5) by (simp add: primary_keys_primary_key_name_def)

end
