(* ===== verification/Db_Descriptor.thy ===== *)
theory Db_Descriptor
  imports Db_Result
begin

text \<open>
  \<^verbatim>\<open>nanodbc::implementation_row_descriptor\<close>: what the driver knows of the columns of a result. A numeric field is
  read into a buffer of 64 bits set to zero, of which the driver may write fewer; text into one of 512 characters.
\<close>

section \<open>The descriptor\<close>

record ird =
  ird_stmt :: handle
  ird_columns :: int
  ird_desc :: handle
  ird_count :: int

definition initialize_descriptor :: "odbc \<Rightarrow> handle \<Rightarrow> int \<Rightarrow> ird dbm" where
  "initialize_descriptor D h columns = db_then (sql_ok D (Get_stmt_attr h Attr_imp_row_desc) h Handle_stmt) (db_bind (written (od_handle D)) (\<lambda>d.
     db_then (sql_ok D (Get_desc_field d 0 1001 None) h Handle_stmt) (db_bind (written (od_number D)) (\<lambda>n.
       db_return \<lparr>ird_stmt = h, ird_columns = columns, ird_desc = d, ird_count = to_smallint n\<rparr>))))"

definition ird_of_statement :: "odbc \<Rightarrow> nat \<Rightarrow> ird dbm" where
  "ird_of_statement D a = db_bind (stmt_get a) (\<lambda>t. db_bind (stmt_columns D a) (initialize_descriptor D (st_stmt t)))"

definition ird_of_result :: "odbc \<Rightarrow> nat \<Rightarrow> ird dbm" where
  "ird_of_result D r = db_bind (result_get r) (\<lambda>rs. ird_of_statement D (rs_stmt rs))"

definition throw_if_record_is_out_of_range :: "ird \<Rightarrow> int \<Rightarrow> unit dbm" where
  "throw_if_record_is_out_of_range ird record = (if record < 0 \<or> record \<ge> ird_count ird then db_throw Index_range_error else db_return ())"

section \<open>Fields\<close>

text \<open>The 64 bits after the driver wrote to them, signed and unsigned; a text, whose length the driver reports in full.\<close>

definition descr_bytes :: "odbc \<Rightarrow> ird \<Rightarrow> int \<Rightarrow> int \<Rightarrow> bytes dbm" where
  "descr_bytes D ird record field = db_then (sql_ok D (Get_desc_field (ird_desc ird) (record + 1) field None) (ird_stmt ird) Handle_stmt)
     (db_bind (written (od_piece D)) (\<lambda>(_, b). db_return (pad_to 8 0 (take 8 b))))"

definition descr_int :: "odbc \<Rightarrow> ird \<Rightarrow> int \<Rightarrow> int \<Rightarrow> int dbm" where
  "descr_int D ird record field = db_bind (descr_bytes D ird record field) (\<lambda>b. db_return (le_int b))"

definition descr_uint :: "odbc \<Rightarrow> ird \<Rightarrow> int \<Rightarrow> int \<Rightarrow> nat dbm" where
  "descr_uint D ird record field = db_bind (descr_bytes D ird record field) (\<lambda>b. db_return (le_nat b))"

definition descr_text :: "odbc \<Rightarrow> bool \<Rightarrow> ird \<Rightarrow> int \<Rightarrow> int \<Rightarrow> string dbm" where
  "descr_text D nd ird record field = db_then (sql_ok D (Get_desc_field (ird_desc ird) (record + 1) field (Some 512)) (ird_stmt ird) Handle_stmt)
     (db_bind (written (od_text D)) (\<lambda>(t, _). let value = char_buffer 512 t in
       db_then (db_assert nd (length t \<le> length (cstr value)))
        (if length t > 512 then db_fail Db_undefined else db_return (take (length t) value))))"

text \<open>The header of the descriptor.\<close>

definition ird_alloc_type :: "odbc \<Rightarrow> ird \<Rightarrow> int dbm" where
  "ird_alloc_type D ird = db_bind (descr_int D ird 0 1099) (\<lambda>v. db_return (to_smallint v))"

text \<open>The records, one for each column.\<close>

definition ird_auto_unique_value :: "odbc \<Rightarrow> ird \<Rightarrow> int \<Rightarrow> bool dbm" where
  "ird_auto_unique_value D ird record = db_then (throw_if_record_is_out_of_range ird record) (db_bind (descr_int D ird record 11) (\<lambda>v. db_return (v = 1)))"

definition ird_base_column_name :: "odbc \<Rightarrow> bool \<Rightarrow> ird \<Rightarrow> int \<Rightarrow> string dbm" where
  "ird_base_column_name D nd ird record = db_then (throw_if_record_is_out_of_range ird record) (descr_text D nd ird record 22)"

definition ird_base_table_name :: "odbc \<Rightarrow> bool \<Rightarrow> ird \<Rightarrow> int \<Rightarrow> string dbm" where
  "ird_base_table_name D nd ird record = db_then (throw_if_record_is_out_of_range ird record) (descr_text D nd ird record 23)"

definition ird_case_sensitive :: "odbc \<Rightarrow> ird \<Rightarrow> int \<Rightarrow> bool dbm" where
  "ird_case_sensitive D ird record = db_then (throw_if_record_is_out_of_range ird record) (db_bind (descr_int D ird record 12) (\<lambda>v. if v = 1 then db_return True else if v = 0 then db_return False else db_throw Std_out_of_range))"

definition ird_catalog_name :: "odbc \<Rightarrow> bool \<Rightarrow> ird \<Rightarrow> int \<Rightarrow> string dbm" where
  "ird_catalog_name D nd ird record = db_then (throw_if_record_is_out_of_range ird record) (descr_text D nd ird record 17)"

definition ird_concise_type :: "odbc \<Rightarrow> ird \<Rightarrow> int \<Rightarrow> int dbm" where
  "ird_concise_type D ird record = db_then (throw_if_record_is_out_of_range ird record) (db_bind (descr_int D ird record 2) (\<lambda>v. db_return (to_smallint v)))"

definition ird_display_size :: "odbc \<Rightarrow> ird \<Rightarrow> int \<Rightarrow> int dbm" where
  "ird_display_size D ird record = db_then (throw_if_record_is_out_of_range ird record) (descr_int D ird record 6)"

definition ird_fixed_prec_scale :: "odbc \<Rightarrow> ird \<Rightarrow> int \<Rightarrow> int dbm" where
  "ird_fixed_prec_scale D ird record = db_then (throw_if_record_is_out_of_range ird record) (db_bind (descr_int D ird record 9) (\<lambda>v. db_return (to_smallint v)))"

definition ird_label :: "odbc \<Rightarrow> bool \<Rightarrow> ird \<Rightarrow> int \<Rightarrow> string dbm" where
  "ird_label D nd ird record = db_then (throw_if_record_is_out_of_range ird record) (descr_text D nd ird record 18)"

definition ird_length :: "odbc \<Rightarrow> ird \<Rightarrow> int \<Rightarrow> nat dbm" where
  "ird_length D ird record = db_then (throw_if_record_is_out_of_range ird record) (descr_uint D ird record 1003)"

definition ird_local_type_name :: "odbc \<Rightarrow> bool \<Rightarrow> ird \<Rightarrow> int \<Rightarrow> string dbm" where
  "ird_local_type_name D nd ird record = db_then (throw_if_record_is_out_of_range ird record) (descr_text D nd ird record 29)"

definition ird_name :: "odbc \<Rightarrow> bool \<Rightarrow> ird \<Rightarrow> int \<Rightarrow> string dbm" where
  "ird_name D nd ird record = db_then (throw_if_record_is_out_of_range ird record) (descr_text D nd ird record 1011)"

definition ird_nullable :: "odbc \<Rightarrow> ird \<Rightarrow> int \<Rightarrow> int dbm" where
  "ird_nullable D ird record = db_then (throw_if_record_is_out_of_range ird record) (db_bind (descr_int D ird record 1008) (\<lambda>v. db_return (to_smallint v)))"

definition ird_num_prec_radix :: "odbc \<Rightarrow> ird \<Rightarrow> int \<Rightarrow> int dbm" where
  "ird_num_prec_radix D ird record = db_then (throw_if_record_is_out_of_range ird record) (db_bind (descr_int D ird record 32) (\<lambda>v. db_return (to_smallint v)))"

definition ird_octet_length :: "odbc \<Rightarrow> ird \<Rightarrow> int \<Rightarrow> int dbm" where
  "ird_octet_length D ird record = db_then (throw_if_record_is_out_of_range ird record) (descr_int D ird record 1013)"

definition ird_precision :: "odbc \<Rightarrow> ird \<Rightarrow> int \<Rightarrow> int dbm" where
  "ird_precision D ird record = db_then (throw_if_record_is_out_of_range ird record) (db_bind (descr_int D ird record 1005) (\<lambda>v. db_return (to_smallint v)))"

definition ird_rowver :: "odbc \<Rightarrow> ird \<Rightarrow> int \<Rightarrow> int dbm" where
  "ird_rowver D ird record = db_then (throw_if_record_is_out_of_range ird record) (db_bind (descr_int D ird record 35) (\<lambda>v. db_return (to_smallint v)))"

definition ird_scale :: "odbc \<Rightarrow> ird \<Rightarrow> int \<Rightarrow> int dbm" where
  "ird_scale D ird record = db_then (throw_if_record_is_out_of_range ird record) (db_bind (descr_int D ird record 1006) (\<lambda>v. db_return (to_smallint v)))"

definition ird_schema_name :: "odbc \<Rightarrow> bool \<Rightarrow> ird \<Rightarrow> int \<Rightarrow> string dbm" where
  "ird_schema_name D nd ird record = db_then (throw_if_record_is_out_of_range ird record) (descr_text D nd ird record 16)"

definition ird_searchable :: "odbc \<Rightarrow> ird \<Rightarrow> int \<Rightarrow> int dbm" where
  "ird_searchable D ird record = db_then (throw_if_record_is_out_of_range ird record) (db_bind (descr_int D ird record 13) (\<lambda>v. db_return (to_smallint v)))"

definition ird_table_name :: "odbc \<Rightarrow> bool \<Rightarrow> ird \<Rightarrow> int \<Rightarrow> string dbm" where
  "ird_table_name D nd ird record = db_then (throw_if_record_is_out_of_range ird record) (descr_text D nd ird record 15)"

definition ird_type :: "odbc \<Rightarrow> ird \<Rightarrow> int \<Rightarrow> int dbm" where
  "ird_type D ird record = db_then (throw_if_record_is_out_of_range ird record) (db_bind (descr_int D ird record 1002) (\<lambda>v. db_return (to_smallint v)))"

definition ird_type_name :: "odbc \<Rightarrow> bool \<Rightarrow> ird \<Rightarrow> int \<Rightarrow> string dbm" where
  "ird_type_name D nd ird record = db_then (throw_if_record_is_out_of_range ird record) (descr_text D nd ird record 14)"

definition ird_unnamed :: "odbc \<Rightarrow> ird \<Rightarrow> int \<Rightarrow> bool dbm" where
  "ird_unnamed D ird record = db_then (throw_if_record_is_out_of_range ird record) (db_bind (descr_int D ird record 1012) (\<lambda>v. if v = 1 then db_return True else if v = 0 then db_return False else db_throw Std_out_of_range))"

definition ird_unsigned :: "odbc \<Rightarrow> ird \<Rightarrow> int \<Rightarrow> bool dbm" where
  "ird_unsigned D ird record = db_then (throw_if_record_is_out_of_range ird record) (db_bind (descr_int D ird record 8) (\<lambda>v. if v = 1 then db_return True else if v = 0 then db_return False else db_throw Std_out_of_range))"

definition ird_updatable :: "odbc \<Rightarrow> ird \<Rightarrow> int \<Rightarrow> int dbm" where
  "ird_updatable D ird record = db_then (throw_if_record_is_out_of_range ird record) (db_bind (descr_int D ird record 10) (\<lambda>v. db_return (to_smallint v)))"

section \<open>Lemmas\<close>

lemma le_nat_append: "le_nat (a @ b) = le_nat a + 256 ^ length a * le_nat b"
  by (induction a) (simp_all add: algebra_simps)

lemma le_nat_pad: "le_nat (pad_to n 0 b) = le_nat b"
proof -
  have "le_nat (replicate k 0) = 0" for k by (induction k) simp_all
  then show ?thesis by (simp add: pad_to_def le_nat_append)
qed

lemma le_nat_less: "le_nat b < 256 ^ length b"
proof (induction b)
  case (Cons x b)
  have "unat x < 256" using unsigned_less [of x, where ?'a = nat] by simp
  then show ?case using Cons by simp
qed simp

lemma to_smallint_cong: "x mod 2 ^ 16 = y mod 2 ^ 16 \<Longrightarrow> to_smallint x = to_smallint y"
  unfolding to_smallint_def by (metis mod_add_left_eq)

text \<open>A buffer of eight bytes of which the driver wrote some.\<close>

lemma le_int_pad:
  assumes "length b \<le> 8"
  shows "le_int (pad_to 8 0 b) = (if le_nat b < 2 ^ 63 then int (le_nat b) else int (le_nat b) - 2 ^ 64)"
proof -
  have "int (le_nat b) < 2 ^ 63 \<longleftrightarrow> le_nat b < 2 ^ 63" by (metis of_nat_less_iff of_nat_numeral of_nat_power)
  then show ?thesis using assms by (simp add: le_int_def le_nat_pad Let_def)
qed

lemma smallint_of_buffer:
  assumes "length b \<in> {2, 4, 8}" and "int (le_nat b) = i mod 2 ^ (8 * length b)" and "- (2 ^ 15) \<le> i" and "i < 2 ^ 15"
  shows "to_smallint (le_int (pad_to 8 0 b)) = i"
proof -
  have "int (le_nat b) mod 2 ^ 16 = i mod 2 ^ 16" using assms(1) unfolding assms(2) by (auto simp: mod_mod_cancel)
  moreover have "(int (le_nat b) - 2 ^ 64) mod 2 ^ 16 = int (le_nat b) mod 2 ^ 16" by (simp add: mod_diff_eq [symmetric])
  ultimately have "le_int (pad_to 8 0 b) mod 2 ^ 16 = i mod 2 ^ 16" using assms(1) le_int_pad [of b] by auto
  then have "to_smallint (le_int (pad_to 8 0 b)) = to_smallint i" by (rule to_smallint_cong)
  then show ?thesis using to_smallint_id [of i] assms(3,4) by simp
qed

section \<open>Properties\<close>

text \<open>
  A small field is read right however many bytes the driver writes of it, two, four or eight, negative
  type codes included; and a record that does not exist is refused before the driver is asked.
\<close>

theorem small_fields_any_width:
  assumes "h = db_calls s @ [Get_desc_field (ird_desc d) (record + 1) field None]" and "success (od_rc D h)" and "snd (od_piece D h) = b"
    and "length b \<in> {2, 4, 8}" and "int (le_nat b) = i mod 2 ^ (8 * length b)" and "- (2 ^ 15) \<le> i" and "i < 2 ^ 15"
    and "(get, field) \<in> {(ird_concise_type, 2), (ird_fixed_prec_scale, 9), (ird_nullable, 1008), (ird_num_prec_radix, 32), (ird_precision, 1005),
      (ird_rowver, 35), (ird_scale, 1006), (ird_searchable, 13), (ird_type, 1002), (ird_updatable, 10)}"
  shows "get D d record s = (if 0 \<le> record \<and> record < ird_count d then (s\<lparr>db_calls := h\<rparr>, Inr i) else (s, Inl (Db_throw Index_range_error)))"
proof -
  have b: "take 8 b = b" using assms(4) by auto
  have get: "get D d record = db_then (throw_if_record_is_out_of_range d record) (db_bind (descr_int D d record field) (\<lambda>v. db_return (to_smallint v)))"
    using assms(8) by (auto simp: ird_concise_type_def ird_fixed_prec_scale_def ird_nullable_def ird_num_prec_radix_def ird_precision_def ird_rowver_def
        ird_scale_def ird_searchable_def ird_type_def ird_updatable_def)
  have "descr_int D d record field s = (s\<lparr>db_calls := h\<rparr>, Inr (le_int (pad_to 8 0 b)))"
    using assms(1-3) b by (simp add: descr_int_def descr_bytes_def case_prod_beta)
  then show ?thesis using smallint_of_buffer [OF assms(4-7)] by (auto simp: get throw_if_record_is_out_of_range_def)
qed

text \<open>
  The fields of 64 bits are not as lucky: a negative number of which the driver writes four bytes is read as
  a large positive one.
\<close>

theorem short_write_loses_sign:
  assumes "h = db_calls s @ [Get_desc_field (ird_desc d) (record + 1) 6 None]" and "success (od_rc D h)" and "length (snd (od_piece D h)) = 4"
    and "int (le_nat (snd (od_piece D h))) = i mod 2 ^ 32" and "- (2 ^ 31) \<le> i" and "i < 0" and "0 \<le> record" and "record < ird_count d"
  shows "ird_display_size D d record s = (s\<lparr>db_calls := h\<rparr>, Inr (i + 2 ^ 32))"
proof -
  have "i mod 2 ^ 32 = i + 2 ^ 32" using assms(5,6) mod_pos_pos_trivial [of "i + 2 ^ 32" "2 ^ 32"] by simp
  moreover have "le_nat (snd (od_piece D h)) < 2 ^ 63" using le_nat_less [of "snd (od_piece D h)"] assms(3) by simp
  ultimately have "le_int (pad_to 8 0 (snd (od_piece D h))) = i + 2 ^ 32" using le_int_pad [of "snd (od_piece D h)"] assms(3,4) by simp
  then show ?thesis using assms(1-3,7,8)
    by (simp add: ird_display_size_def throw_if_record_is_out_of_range_def descr_int_def descr_bytes_def case_prod_beta)
qed

text \<open>
  Names of up to 511 characters are returned whole; a longer one, of which the driver reports the full length, stops a
  checked build and makes the other read past the buffer.
\<close>

theorem descriptor_names:
  assumes "h = db_calls s @ [Get_desc_field (ird_desc d) (record + 1) 1011 (Some 512)]" and "success (od_rc D h)" and "fst (od_text D h) = name"
    and "CHR 0x00 \<notin> set name" and "0 \<le> record" and "record < ird_count d"
  shows "snd (ird_name D nd d record s) =
    (if length name < 512 then Inr name else if \<not> nd then Inl Db_abort else if length name > 512 then Inl Db_undefined else Inr (take 511 name @ [CHR 0x00]))"
proof -
  have buf: "take (length name) (char_buffer 512 name) = (if length name < 512 then name else take 511 name @ [CHR 0x00])"
    if "length name \<le> 512" using that by (auto simp: char_buffer_def)
  have long: "cstr (char_buffer 512 name) = take 511 name" using assms(4)
    by (auto simp: cstr_def char_buffer_def takeWhile_append takeWhile_eq_all_conv take_append dest: in_set_takeD)
  have full: "take 512 (char_buffer 512 name) = take 511 name @ [CHR 0x00]" if "length name = 512" using buf that by simp
  show ?thesis using assms(1-3,5,6) buf full long
    by (simp add: ird_name_def throw_if_record_is_out_of_range_def descr_text_def case_prod_beta Let_def)
qed

end
