(* ===== verification/Db_Variant.thy ===== *)
theory Db_Variant
  imports Db_Result
begin

text \<open>
  \<^verbatim>\<open>variant_row_cached_result\<close>: a result that copies each row it moves to into a cache of variants. The
  conversion of a column to a variant is an argument, \<open>getter\<close>, and so is \<open>grown\<close>, the capacity a vector gets when it
  has to grow.
\<close>

section \<open>Definitions\<close>

datatype 'v variant = Vt_empty | Vt_null | Vt_value 'v

record 'v variant_row =
  vr_result :: "nat option"
  vr_row :: "'v variant list"
  vr_capacity :: nat
  vr_row_size :: nat

text \<open>Computations on a cache and the state of the database; an exception keeps what was done to both.\<close>

type_synonym ('v, 'a) cached = "'v variant_row \<Rightarrow> db \<Rightarrow> 'v variant_row \<times> db \<times> (db_fault + 'a)"

definition cached_bind :: "('v, 'a) cached \<Rightarrow> ('a \<Rightarrow> ('v, 'b) cached) \<Rightarrow> ('v, 'b) cached" where
  "cached_bind m k = (\<lambda>v s. case m v s of (v', s', Inl e) \<Rightarrow> (v', s', Inl e) | (v', s', Inr x) \<Rightarrow> k x v' s')"

definition on_result :: "(nat \<Rightarrow> 'a dbm) \<Rightarrow> ('v, 'a) cached" where
  "on_result m = (\<lambda>v s. case vr_result v of None \<Rightarrow> (v, s, Inl Db_undefined) | Some r \<Rightarrow> (v, m r s))"

definition cached_assert :: "bool \<Rightarrow> ('v variant_row \<Rightarrow> bool) \<Rightarrow> ('v, unit) cached" where
  "cached_assert nd p = (\<lambda>v s. (v, db_assert nd (p v) s))"

definition cached_update :: "('v variant_row \<Rightarrow> 'v variant_row) \<Rightarrow> ('v, unit) cached" where
  "cached_update f = (\<lambda>v s. (f v, s, Inr ()))"

text \<open>The constructors, the assignment and the swap. The result an assignment replaces is released; its destructor is an operation of its own.\<close>

definition variant_row_create :: "odbc \<Rightarrow> nat \<Rightarrow> 'v variant_row dbm" where
  "variant_row_create D r = db_bind (result_get r) (\<lambda>rs. db_bind (stmt_columns D (rs_stmt rs)) (\<lambda>n.
     db_return \<lparr>vr_result = Some r, vr_row = [], vr_capacity = 0, vr_row_size = nat (n mod 2 ^ 64)\<rparr>))"

definition variant_row_move :: "'v variant_row \<Rightarrow> 'v variant_row \<times> 'v variant_row" where
  "variant_row_move rhs = (rhs, \<lparr>vr_result = None, vr_row = [], vr_capacity = 0, vr_row_size = 0\<rparr>)"

definition variant_row_assign :: "bool \<Rightarrow> 'v variant_row \<Rightarrow> 'v variant_row \<Rightarrow> 'v variant_row \<times> 'v variant_row" where
  "variant_row_assign same this rhs = (if same then (this, rhs) else variant_row_move rhs)"

definition variant_row_swap :: "'v variant_row \<Rightarrow> 'v variant_row \<Rightarrow> 'v variant_row \<times> 'v variant_row" where
  "variant_row_swap this rhs = (rhs, this)"

text \<open>The cache.\<close>

definition clear_row :: "bool \<Rightarrow> (nat \<Rightarrow> nat) \<Rightarrow> ('v, unit) cached" where
  "clear_row nd grown = cached_bind (cached_assert nd (\<lambda>v. vr_row_size v > 0)) (\<lambda>_. cached_bind (cached_update (\<lambda>v.
     let v1 = v\<lparr>vr_row := []\<rparr> in
     if vr_capacity v1 \<noteq> vr_row_size v1 \<and> vr_row_size v1 > vr_capacity v1 then v1\<lparr>vr_capacity := grown (vr_row_size v1)\<rparr> else v1))
     (\<lambda>_. cached_assert nd (\<lambda>v. vr_capacity v = vr_row_size v)))"

fun fill_columns :: "bool \<Rightarrow> (nat \<Rightarrow> int \<Rightarrow> 'v variant dbm) \<Rightarrow> nat list \<Rightarrow> ('v, unit) cached" where
  "fill_columns nd getter [] = cached_update (\<lambda>v. v)"
| "fill_columns nd getter (c # cs) = cached_bind (cached_assert nd (\<lambda>v. vr_row v ! c = Vt_empty)) (\<lambda>_.
     cached_bind (on_result (\<lambda>r. get_ref_fallback nd r (getter r) Vt_null (int c))) (\<lambda>x.
      cached_bind (cached_update (\<lambda>v. v\<lparr>vr_row := (vr_row v)[c := x]\<rparr>)) (\<lambda>_. fill_columns nd getter cs)))"

definition fill_row :: "bool \<Rightarrow> (nat \<Rightarrow> nat) \<Rightarrow> (nat \<Rightarrow> int \<Rightarrow> 'v variant dbm) \<Rightarrow> ('v, unit) cached" where
  "fill_row nd grown getter = cached_bind (cached_assert nd (\<lambda>v. vr_row_size v > 0)) (\<lambda>_ v.
     if vr_row v \<noteq> [] then cached_update (\<lambda>v. v) v
     else cached_bind (cached_update (\<lambda>v. v\<lparr>vr_row := replicate (vr_row_size v) Vt_empty,
         vr_capacity := if vr_row_size v > vr_capacity v then grown (vr_row_size v) else vr_capacity v\<rparr>))
       (\<lambda>_. cached_bind (fill_columns nd getter [0..<vr_row_size v]) (\<lambda>_. cached_assert nd (\<lambda>v. length (vr_row v) = vr_row_size v))) v)"

definition variant_get :: "'v variant_row \<Rightarrow> int \<Rightarrow> db_exn + 'v variant" where
  "variant_get v column = (if column mod 2 ^ 64 \<ge> int (length (vr_row v)) then Inl Index_range_error else Inr (vr_row v ! nat (column mod 2 ^ 64)))"

definition variant_is_null :: "'v variant_row \<Rightarrow> int \<Rightarrow> db_exn + bool" where
  "variant_is_null v column = (if column mod 2 ^ 64 \<ge> int (length (vr_row v)) then Inl (Programming_error ''row cache empty or column index out of range'')
     else Inr (vr_row v ! nat (column mod 2 ^ 64) = Vt_null))"

definition variant_next :: "odbc \<Rightarrow> bool \<Rightarrow> (nat \<Rightarrow> nat) \<Rightarrow> (nat \<Rightarrow> int \<Rightarrow> 'v variant dbm) \<Rightarrow> ('v, bool) cached" where
  "variant_next D nd grown getter = cached_bind (clear_row nd grown) (\<lambda>_. cached_bind (on_result (\<lambda>r. result_next D nd r 0)) (\<lambda>b.
     if b then cached_bind (fill_row nd grown getter) (\<lambda>_ v s. (v, s, Inr True)) else (\<lambda>v s. (v, s, Inr False))))"

section \<open>Lemmas\<close>

lemma run_cached_bind [simp]:
  "m v s = (v', s', Inr x) \<Longrightarrow> cached_bind m k v s = k x v' s'" "m v s = (v', s', Inl e) \<Longrightarrow> cached_bind m k v s = (v', s', Inl e)"
  by (simp_all add: cached_bind_def)

lemma run_cached_update [simp]: "cached_update f v s = (f v, s, Inr ())"
  by (simp add: cached_update_def)

lemma run_cached_assert [simp]: "p v \<Longrightarrow> cached_assert nd p v s = (v, s, Inr ())"
  by (subst cached_assert_def) (simp only: run_assert simp_thms if_True)

lemma run_on_result [simp]: "vr_result v = Some r \<Longrightarrow> on_result m v s = (v, m r s)"
  by (simp add: on_result_def)

text \<open>Filling the columns from one on.\<close>

lemma fill_columns_from:
  assumes "vr_result v = Some r" and "\<And>c. c < n \<Longrightarrow> get_ref_fallback nd r (getter r) Vt_null (int c) s = (s, Inr (x c))"
    and "k \<le> n" and "vr_row v = map x [0..<k] @ replicate (n - k) Vt_empty"
  shows "fill_columns nd getter [k..<n] v s = (v\<lparr>vr_row := map x [0..<n]\<rparr>, s, Inr ())"
  using assms(1,3,4)
proof (induction "n - k" arbitrary: k v)
  case 0
  have k: "k = n" using "0.hyps" "0.prems"(2) by linarith
  have "vr_row v = map x [0..<n]" using "0.prems"(3) unfolding k by simp
  then have "v\<lparr>vr_row := map x [0..<n]\<rparr> = v" by (cases v) simp
  then show ?case unfolding k by simp
next
  case (Suc d)
  have k: "k < n" using Suc.hyps(2) by simp
  have here: "vr_row v ! k = Vt_empty" using Suc.prems(3) k by (simp add: nth_append)
  let ?v = "v\<lparr>vr_row := (vr_row v)[k := x k]\<rparr>"
  have "(vr_row v)[k := x k] = map x [0..<Suc k] @ replicate (n - Suc k) Vt_empty"
    using Suc.prems(3) Suc.hyps(2) by (rule_tac nth_equalityI) (auto simp: nth_list_update nth_append less_Suc_eq)
  then have "fill_columns nd getter [Suc k..<n] ?v s = (?v\<lparr>vr_row := map x [0..<n]\<rparr>, s, Inr ())"
    using Suc.hyps(1) [of "Suc k" ?v] Suc.hyps(2) Suc.prems(1) k by simp
  then show ?case using here assms(2) [OF k] Suc.prems(1) k by (simp add: upt_conv_Cons)
qed

section \<open>Properties\<close>

text \<open>
  The cache holds the row the result is at: after \<^verbatim>\<open>next\<close> returned true every column is in it, nulls as null
  variants, and after it returned false the cache is empty, so that reading throws. An index that is negative throws too.
\<close>

theorem cached_row_complete:
  assumes "vr_result v = Some r" and "vr_row_size v = n" and "n > 0" and "n \<le> 2 ^ 15" and "vr_capacity v \<le> n" and "grown n = n"
    and "result_next D nd r 0 s = (s1, Inr b)"
    and "\<And>c. c < n \<Longrightarrow> get_ref_fallback nd r (getter r) Vt_null (int c) s1 = (s1, Inr (x c))"
    and "- (2 ^ 15) \<le> column" and "column < 2 ^ 15"
  shows "\<exists>v'. variant_next D nd grown getter v s = (v', s1, Inr b) \<and>
    variant_get v' column = (if b \<and> 0 \<le> column \<and> column < int n then Inr (x (nat column)) else Inl Index_range_error) \<and>
    variant_is_null v' column = (if b \<and> 0 \<le> column \<and> column < int n then Inr (x (nat column) = Vt_null)
      else Inl (Programming_error ''row cache empty or column index out of range''))"
proof -
  let ?v1 = "v\<lparr>vr_row := [], vr_capacity := n\<rparr>"
  have clear: "clear_row nd grown v s' = (?v1, s', Inr ())" for s'
  proof -
    have "v\<lparr>vr_row := []\<rparr> = ?v1" if "vr_capacity v = n" using that by (cases v) simp
    then show ?thesis using assms(2,3,5,6) by (cases "vr_capacity v = n") (simp_all add: clear_row_def Let_def)
  qed
  have same: "column mod 2 ^ 64 = column" if "0 \<le> column" using that assms(10) by (simp add: mod_pos_pos_trivial)
  have neg: "column mod 2 ^ 64 \<ge> 2 ^ 63" if "column < 0" using that assms(9) mod_pos_pos_trivial [of "column + 2 ^ 64" "2 ^ 64"] by simp
  show ?thesis
  proof (cases b)
    case False
    then have "variant_next D nd grown getter v s = (?v1, s1, Inr b)" using clear assms(1,7) by (simp add: variant_next_def)
    then show ?thesis using False by (auto simp: variant_get_def variant_is_null_def)
  next
    case True
    let ?v2 = "v\<lparr>vr_row := map x [0..<n], vr_capacity := n\<rparr>" and ?v0 = "v\<lparr>vr_row := replicate n Vt_empty, vr_capacity := n\<rparr>"
    have "fill_columns nd getter [0..<n] ?v0 s1 = (?v0\<lparr>vr_row := map x [0..<n]\<rparr>, s1, Inr ())"
      by (rule fill_columns_from [where r = r and n = n and x = x and s = s1]) (use assms(1,8) in simp_all)
    then have fill: "fill_row nd grown getter ?v1 s1 = (?v2, s1, Inr ())" using assms(2,3) by (simp add: fill_row_def)
    then have "variant_next D nd grown getter v s = (?v2, s1, Inr b)" using clear assms(1,7) True by (simp add: variant_next_def)
    moreover have "column mod 2 ^ 64 \<ge> int n \<longleftrightarrow> \<not> (0 \<le> column \<and> column < int n)" using same neg assms(4) by (cases "column < 0") auto
    ultimately show ?thesis using True same by (auto simp: variant_get_def variant_is_null_def)
  qed
qed

end
