(* ===== verification/Spec2Isabelle.thy ===== *)
theory Spec2Isabelle
  imports Transport_Edge Client End_To_End App Ensure_Flow Alpha_Acts Db_Iterator Db_Diag Db_Lists Db_Tvp Db_Catalog
  Db_Descriptor Db_Variant
begin

text \<open>
  \<^bold>\<open>Verification of play, a foundation for game servers in C++.\<close> The repository
  (\<^verbatim>\<open>src/play\<close>) has a network library (\<^verbatim>\<open>net\<close>), a small application layer of
  actors and services (\<^verbatim>\<open>app\<close>), bots that run test flows (\<^verbatim>\<open>ensure\<close>), utilities
  (\<^verbatim>\<open>base\<close>), a database layer on ODBC (\<^verbatim>\<open>db\<close>) and a sample server
  (\<^verbatim>\<open>sample/alpha\<close>). This theory imports the whole development; each theory says at its top what
  it holds.

  \<^bold>\<open>How the program is put together.\<close> A \<^verbatim>\<open>server\<close> or \<^verbatim>\<open>client\<close> owns
  \<^verbatim>\<open>session\<close>s, one per TCP connection. A session moves bytes between its socket and its
  \<^verbatim>\<open>protocol\<close>, which cuts the stream into frames with a topic: plain, secure (a sodium
  handshake and stream cipher) or stream (no frames). Frames go to a \<^verbatim>\<open>pulse\<close>, a node of a
  tree that publishes them to subscribers and keeps calls that wait for a reply; handlers run on a
  \<^verbatim>\<open>runner\<close>, in strands. \<^verbatim>\<open>pulse_fb\<close> turns frames into FlatBuffers objects.
  Services and actors of an \<^verbatim>\<open>app\<close> subscribe to pulses; \<^verbatim>\<open>ensure\<close> is an app whose
  actors are bots, and the sample is a chat server with a back end and front ends.

  \<^bold>\<open>How code becomes definitions.\<close> A class is a record, a member function a definition on
  it, named after the function with a prefix for its class. What a function may do besides
  returning is a value of type \<open>fault\<close>: \<open>Check_failed\<close> (the abort of a failed check),
  \<open>Undefined\<close> (undefined behaviour of C++, such as a null pointer or a read past the end) and
  \<open>Thrown\<close> (an exception). Checks depend on the build, so operations take the flag \<open>nd\<close>
  (NDEBUG). Callbacks into the owner and socket calls are lists of outputs in the order they are
  made; completions of asynchronous calls are operations of their own. Objects behind pointers
  live in maps from addresses, 0 is null. Integers keep their width where it matters: words in the
  serializer, the codecs, nonces and snowflake ids, remainders by powers of two elsewhere.

  \<^bold>\<open>Theories.\<close>
  \<^item> \<open>Play_Prelude\<close>: faults, results, the check macro; \<open>Ordered_Map\<close>: \<^verbatim>\<open>std::map\<close>
    where its order is visible.
  \<^item> \<open>Serializer\<close>, \<open>Length_Delimited\<close>: \<^verbatim>\<open>net/util/serializer\<close> and
    \<^verbatim>\<open>net/protocol/length_delimited\<close>; round trips, incomplete frames, bounds.
  \<^item> \<open>Protocol\<close>: what a session asks of a protocol, as a record of operations, with the
    locales \<open>lifecycle\<close>, \<open>framing\<close> and \<open>framed_link\<close> for the laws; \<open>Plain_Protocol\<close>,
    \<open>Stream_Protocol\<close>, \<open>Sodium\<close> and \<open>Secure_Protocol\<close> are the three protocols and interpret
    them. libsodium is a parameter (\<open>sodium\<close>) with its documented laws (\<open>sodium_ok\<close>).
  \<^item> \<open>Session\<close>: \<^verbatim>\<open>net/session\<close> with its double send buffer, as operations and as a step
    relation; \<open>Transport\<close> puts a session on each protocol (locale \<open>framed_transport\<close>) and
    proves delivery in order, whatever the segmentation; \<open>Transport_Edge\<close> is about input at the
    edges of the contract.
  \<^item> \<open>Endpoint\<close>, \<open>Server\<close>, \<open>Client\<close>: \<^verbatim>\<open>net/server\<close>, \<^verbatim>\<open>net/client\<close> and the
    listener interface; what sessions report reaches the pulse, and how accepting, stopping and
    reconnecting go wrong.
  \<^item> \<open>Runner\<close>: runners, strands, timers; order within a strand, termination of
    \<^verbatim>\<open>poll\<close>, repeating timers.
  \<^item> \<open>Pulse\<close>: \<^verbatim>\<open>net/pulse\<close>; \<open>Pulse_Tree\<close> has the invariant of the tree
    (\<open>pulses_ok\<close>) and that operations keep it, \<open>Pulse_Delivery\<close> who gets a published frame,
    \<open>Pulse_Calls\<close> the calls as a queue (locale \<open>call_queue\<close>), \<open>Pulse_Fb\<close> sending and
    unpacking objects. FlatBuffers is a parameter.
  \<^item> \<open>End_To_End\<close>: a session under \<^verbatim>\<open>pulse_fb\<close> and a pulse listening to frames, for the
    theorem of this theory about objects sent from one process to another.
  \<^item> \<open>String_Util\<close>, \<open>Base_Util\<close>: strings, addresses, JSON paths, the object pool, snowflake
    ids, the stop watch.
  \<^item> \<open>App\<close>: actors, services, indexes, the containers of actors and sessions.
  \<^item> \<open>Act_Path\<close>, \<open>Ensure\<close>, \<open>Ensure_Flow\<close>: \<^verbatim>\<open>ensure\<close>: acts and their paths, bots, and
    how flows run.
  \<^item> \<open>Alpha_Base\<close>, \<open>Alpha_Back\<close>, \<open>Alpha_Front\<close>, \<open>Alpha_Room\<close>, \<open>Alpha_App\<close>: the sample's
    shared types, back end, lobby, rooms and process; \<open>Alpha_Props\<close> and \<open>Alpha_Start\<close> have
    what its services do and that it cannot be stopped; \<open>Alpha_Acts\<close> are the acts of its bots.
  \<^item> \<open>Db_Odbc\<close>: what \<^verbatim>\<open>db/nanodbc.cpp\<close> works on: ODBC as a parameter, the objects in
    stores, computations that may throw, abort, be undefined or not return, and handles;
    \<open>Db_Connection\<close>, \<open>Db_Transaction\<close>, \<open>Db_Statement\<close> and \<open>Db_Result\<close> are its classes,
    \<open>Db_Tvp\<close> table-valued parameters, \<open>Db_Catalog\<close> catalogs, \<open>Db_Descriptor\<close> row descriptors,
    \<open>Db_Iterator\<close> the iterators of \<^verbatim>\<open>nanodbc.h\<close>, \<open>Db_Diag\<close> the text of an exception,
    \<open>Db_Lists\<close> its free functions, \<open>Db_Variant\<close> is \<^verbatim>\<open>db/variant_row_cached_result\<close>.
    \<open>Db_Values\<close> has the conversions of a column to text, numbers and characters, \<open>Db_Rows\<close> what a client
    of a result sees. What holds of every computation built from others is stated once, in the
    locale \<open>db_preorder\<close>: it is interpreted for the balance of handles of a connection, the tables open on
    statements and computations that leave handles alone. A result is a \<open>cursor\<close>, a locale that
    \<open>served_result\<close> gives for whatever is read from a row: whole numbers, text, a table of a catalog.

  \<^bold>\<open>What the lemmas show.\<close> Correctness first: end-to-end delivery over plain and secure
  sessions up to the pulse, the handshake ends with ciphers in step, the send buffers refine a
  byte queue and call queues refine a queue, published frames reach exactly their subscribers,
  flows run in order, rooms are not overbooked, containers and paths find what was put there, a
  loop over a query's result or a catalog reads every row once, numbers in text are read back, nested
  transactions act as one, a connection gives back its handles and a list of a catalog its statement, a
  statement has at most one open table.
  Then the places where the code does not do what it means to: each is a theorem about the same
  definitions, with the input that shows it.

  \<^bold>\<open>Bounds and fuel.\<close> Loops over buffers recurse on their length. Walks over pulses and
  acts (\<open>get_root_n\<close>, \<open>get_runner_n\<close>, \<open>dispatch_n\<close>, \<open>activate\<close>, \<open>jump\<close> and others) take fuel:
  the number of objects ever created, more than any chain of parents has, since parents are
  created first; under \<open>pulses_ok\<close> they return (\<open>get_root_n_total\<close>, \<open>get_runner_n_total\<close>,
  \<open>dispatch_n_total\<close>), and without fuel they give \<open>Undefined\<close>. The termination of
  \<^verbatim>\<open>poll\<close> is proved under a rank on handlers, without fuel in the statement. The loops of
  \<^verbatim>\<open>db\<close> that go on as long as the driver says are partial functions (\<open>get_pieces\<close>,
  \<open>list_loop\<close>, \<open>tvp_fetch\<close>), a loop without an end is the fault \<open>Db_loops\<close>; the loops over rows
  (\<open>while_step\<close>, \<open>iter_rows\<close>, the lists of a catalog) take a number of rounds, one more than there are rows
  being enough.

  \<^bold>\<open>Assumed of other code.\<close> libsodium: keys agree, sealed boxes open, the cipher inverts
  itself (\<open>sodium_ok\<close>). FlatBuffers: unpacking a packed object gives it back
  (\<open>fb_roundtrip\<close>). Asio: a send completes with all its bytes where a theorem says so, reads
  deliver the bytes of the peer in order; partial sends are an operation of the model too.
  JSON parsing, address parsing and the clock are arguments. ODBC: \<^verbatim>\<open>SQLAllocHandle\<close> gives a
  handle when it succeeds (\<open>alloc_documented\<close>), a cursor hands out its rows in rowsets
  (\<open>serves\<close>), long values come in pieces (\<open>serves_value\<close>), diagnostics fit the buffer
  (\<open>reports\<close>), statements are pending until a
  transaction ends (\<open>effect_of\<close>). What the C++ library and the locale convert (wide text,
  floating-point numbers, \<^verbatim>\<open>strftime\<close>) is the parameter \<open>platform\<close>, of which nothing is assumed.

  \<^bold>\<open>Not modelled.\<close> Of \<^verbatim>\<open>db\<close>: values of floating-point and wide string types, the conversion of a
  column to a variant (an argument of \<open>Db_Variant\<close>), and the counts of shared pointers: destructors are operations, run where a
  scope ends or by the client. The smart pointer
  \<^verbatim>\<open>base/observer_ptr.hpp\<close> is a vendored library; the generated FlatBuffers code of
  \<^verbatim>\<open>sample/alpha/share/fb\<close> except topics, error codes and native tables; logging output; the threads of
  a runner and the mutexes of a session, whose sections are single steps here; \<^verbatim>\<open>main\<close>
  functions, tests and experiments.
\<close>

section \<open>Objects from one process to another\<close>



end
